(* ===== verification/Prelude.thy ===== *)
theory Prelude
  imports Main "HOL-Library.Sublist"
begin

text \<open>
  Shared vocabulary of the development: the Python exceptions the game can raise,
  the list operation that models \<open>list.remove\<close> on the element under a
  \<open>for\<close> loop's cursor, and the list lemmas the component theories share.

  In \<open>src/main.py\<close> every list element is a distinct object (\<open>Shot\<close> and
  \<open>Enemy\<close> define no \<open>__eq__\<close>, so Python compares them by identity), hence
  \<open>lst.remove(obj)\<close> with \<open>obj = lst[i]\<close> removes exactly position \<open>i\<close>:
  that is \<open>remove_nth i lst\<close>.  A CPython \<open>for\<close> loop over a list keeps an
  index into the live list, which the loop models use as an explicit \<open>nat\<close>.
\<close>

named_theorems list_loop_simps
  "facts about index loops over a list that is shortened or updated under the cursor"

datatype exc =
    KeyError string  \<comment> \<open>a dictionary lookup with a missing key\<close>
  | SystemExit       \<comment> \<open>raised by the builtin \<open>quit()\<close>\<close>

definition remove_nth :: "nat \<Rightarrow> 'a list \<Rightarrow> 'a list" where
  "remove_nth i xs = take i xs @ drop (Suc i) xs"

lemma remove_nth_Cons_0 [simp, list_loop_simps]: "remove_nth 0 (a # xs) = xs"
  by (simp add: remove_nth_def)

lemma remove_nth_Cons_Suc [simp, list_loop_simps]:
  "remove_nth (Suc i) (a # xs) = a # remove_nth i xs"
  by (simp add: remove_nth_def)

lemma length_remove_nth [simp, list_loop_simps]:
  "i < length xs \<Longrightarrow> length (remove_nth i xs) = length xs - 1"
  by (simp add: remove_nth_def)

lemma set_remove_nth_subset: "set (remove_nth i xs) \<subseteq> set xs"
  by (auto simp: remove_nth_def dest: in_set_takeD in_set_dropD)

lemma drop_Suc_remove_nth [list_loop_simps]:
  "drop (Suc i) (remove_nth i xs) = drop (Suc (Suc i)) xs"
  by (cases "i < length xs") (simp_all add: remove_nth_def min_def)

lemma take_Suc_remove_nth [list_loop_simps]:
  "Suc i < length xs \<Longrightarrow> take (Suc i) (remove_nth i xs) = take i xs @ [xs ! Suc i]"
  by (simp add: remove_nth_def take_Suc_conv_app_nth min_def)

lemma take_remove_nth_end [list_loop_simps]:
  "\<not> Suc i < length xs \<Longrightarrow> take (Suc i) (remove_nth i xs) = take i xs"
  by (simp add: remove_nth_def)

lemma take_Suc_list_update [list_loop_simps]:
  "i < length xs \<Longrightarrow> take (Suc i) (xs[i := v]) = take i xs @ [v]"
  by (simp add: take_Suc_conv_app_nth)

lemma drop_Suc_list_update [list_loop_simps]:
  "drop (Suc i) (xs[i := v]) = drop (Suc i) xs"
  by simp

lemma drop_nth_Cons [list_loop_simps]:
  "i < length xs \<Longrightarrow> drop i xs = xs ! i # drop (Suc i) xs"
  by (rule Cons_nth_drop_Suc [symmetric])

lemma subseq_set: "subseq xs ys \<Longrightarrow> set xs \<subseteq> set ys"
  by (induction rule: list_emb.induct) auto

lemma apfst_append_Nil [simp]: "apfst ((@) []) p = p"
  by (cases p) simp

lemma funpow_Suc_inner: "(f ^^ Suc m) a = (f ^^ m) (f a)"
  by (simp add: funpow_swap1)

lemma ceil_div_30 [simp]: "n div 30 + (if n mod 30 = 0 then 0 else 1) = (n + 29) div (30::nat)"
proof -
  have "(n + 29) div 30 = n div 30 + (n mod 30 + 29) div 30"
    using div_add1_eq [of n 29 30] by simp
  moreover have "(n mod 30 + 29) div 30 = (if n mod 30 = 0 then 0 else 1)"
  proof (cases "n mod 30 = 0")
    case True
    then show ?thesis by simp
  next
    case False
    then have "30 \<le> n mod 30 + 29" "n mod 30 + 29 < 2 * 30" by simp_all
    then show ?thesis using False by (simp add: div_nat_eqI)
  qed
  ultimately show ?thesis by simp
qed

text \<open>Integer division by a positive divisor, as Python's \<open>//\<close> computes it.\<close>

lemma int_div_less_iff: "0 < (v::int) \<Longrightarrow> (d div v < k) \<longleftrightarrow> (d < k * v)"
proof -
  assume v: "0 < v"
  have d: "d = d div v * v + d mod v" by simp
  have m: "0 \<le> d mod v" "d mod v < v" using v by simp_all
  show ?thesis
  proof
    assume "d div v < k"
    then have "d div v + 1 \<le> k" by simp
    then have "(d div v + 1) * v \<le> k * v" using v by (simp add: mult_right_mono)
    moreover have "(d div v + 1) * v = d div v * v + v" by (simp add: distrib_right)
    ultimately show "d < k * v" using m d by linarith
  next
    assume "d < k * v"
    show "d div v < k"
    proof (rule ccontr)
      assume "\<not> d div v < k"
      then have "k * v \<le> d div v * v" using v by (simp add: mult_right_mono)
      then show False using \<open>d < k * v\<close> m d by linarith
    qed
  qed
qed

end
