(* ===== verification/Assets.thy ===== *)
theory Assets
  imports Prelude
begin

text \<open>
  The image assets of \<open>src/main.py\<close> (lines 7--21) and the collaborator that
  turns an image into its pixel mask and its size.  The image files are outside the
  repository, so an image is a constant of the datatype \<open>img\<close> and everything the
  program reads from a surface (\<open>pygame.mask.from_surface\<close>, \<open>get_width\<close>,
  \<open>get_height\<close>) comes from a record \<open>assets\<close> passed to the operations that
  need it.  A mask is the list of its opaque pixels, in the mask's own coordinates.
\<close>

datatype img =
    JESUS | SATAN | JUDAS | CENTURION
  | JESUS_SHOT | SATAN_SHOT | JUDAS_SHOT | CENTURION_SHOT

type_synonym mask = "(int \<times> int) list"

record assets =
  surface_mask :: "img \<Rightarrow> mask"
  surface_width :: "img \<Rightarrow> int"
  surface_height :: "img \<Rightarrow> int"

text \<open>
  A small asset set for the concrete runs of the witnesses: every sprite is a
  100 by 100 pixel image whose opaque pixels are its four corners.
\<close>

definition sample_assets :: assets where
  "sample_assets =
     \<lparr>surface_mask = (\<lambda>_. [(0, 0), (99, 0), (0, 99), (99, 99)]),
      surface_width = (\<lambda>_. 100),
      surface_height = (\<lambda>_. 100)\<rparr>"

definition WIDTH :: int where
  "WIDTH = 900"

definition HEIGHT :: int where
  "HEIGHT = 900"

end
