(* ===== verification/Collision.thy ===== *)
theory Collision
  imports Assets
begin

text \<open>
  Pixel-accurate collision, \<open>collide\<close> of \<open>src/main.py\<close> (lines 144--147).
  Every object the function is applied to (\<open>Shot\<close>, \<open>Player\<close>, \<open>Enemy\<close>)
  has the attributes \<open>x\<close>, \<open>y\<close> and \<open>mask\<close>; they form the root record
  \<open>sprite\<close>, which the records of the other components extend.  \<open>collide\<close>
  is stated over \<open>'a sprite_scheme\<close>, so its lemmas apply to every such object.

  \<open>Mask.overlap(other, offset)\<close> returns the first opaque pixel \<open>p\<close> of the
  calling mask for which \<open>p - offset\<close> is an opaque pixel of \<open>other\<close>, and
  \<open>None\<close> if there is none.
\<close>

record sprite =
  x :: int
  y :: int
  mask :: mask

definition mask_overlap :: "mask \<Rightarrow> mask \<Rightarrow> int \<times> int \<Rightarrow> (int \<times> int) option" where
  "mask_overlap m1 m2 offset =
     find (\<lambda>(px, py). (px - fst offset, py - snd offset) \<in> set m2) m1"

definition collide :: "'a sprite_scheme \<Rightarrow> 'b sprite_scheme \<Rightarrow> bool" where
  "collide obj1 obj2 =
     (let offset_x = x obj2 - x obj1;
          offset_y = y obj2 - y obj1
      in mask_overlap (mask obj1) (mask obj2) (offset_x, offset_y) \<noteq> None)"

lemma mask_overlap_eq_None_iff:
  "mask_overlap m1 m2 (ox, oy) = None \<longleftrightarrow> (\<forall>(px, py) \<in> set m1. (px - ox, py - oy) \<notin> set m2)"
  by (auto simp: mask_overlap_def find_None_iff)

lemma collide_iff:
  "collide obj1 obj2 \<longleftrightarrow>
     (\<exists>p \<in> set (mask obj1). \<exists>q \<in> set (mask obj2).
        fst p + x obj1 = fst q + x obj2 \<and> snd p + y obj1 = snd q + y obj2)"
proof -
  have "collide obj1 obj2 \<longleftrightarrow>
     (\<exists>(px, py) \<in> set (mask obj1). (px - (x obj2 - x obj1), py - (y obj2 - y obj1)) \<in> set (mask obj2))"
    unfolding collide_def Let_def mask_overlap_eq_None_iff by blast
  also have "\<dots> \<longleftrightarrow> (\<exists>p \<in> set (mask obj1). \<exists>q \<in> set (mask obj2).
        fst p + x obj1 = fst q + x obj2 \<and> snd p + y obj1 = snd q + y obj2)"
    by (force simp: algebra_simps)
  finally show ?thesis .
qed

lemma collide_far:
  assumes "\<forall>p \<in> set (mask obj1). 0 \<le> fst p \<and> fst p < w \<and> 0 \<le> snd p \<and> snd p < h"
    and "\<forall>q \<in> set (mask obj2). 0 \<le> fst q \<and> fst q < w \<and> 0 \<le> snd q \<and> snd q < h"
    and "w \<le> \<bar>x obj1 - x obj2\<bar> \<or> h \<le> \<bar>y obj1 - y obj2\<bar>"
  shows "\<not> collide obj1 obj2"
proof
  assume "collide obj1 obj2"
  then obtain p q where "p \<in> set (mask obj1)" "q \<in> set (mask obj2)"
      "fst p + x obj1 = fst q + x obj2" "snd p + y obj1 = snd q + y obj2"
    unfolding collide_iff by blast
  moreover have "0 \<le> fst p" "fst p < w" "0 \<le> snd p" "snd p < h"
    using assms(1) \<open>p \<in> set (mask obj1)\<close> by blast+
  moreover have "0 \<le> fst q" "fst q < w" "0 \<le> snd q" "snd q < h"
    using assms(2) \<open>q \<in> set (mask obj2)\<close> by blast+
  ultimately show False using assms(3) by (simp add: abs_if split: if_splits)
qed

text \<open>C33: collision is symmetric in its two objects.\<close>

theorem collide_sym: "collide obj1 obj2 \<longleftrightarrow> collide obj2 obj1"
  unfolding collide_iff by metis

end
