(* ===== verification/Shot.thy ===== *)
theory Shot
  imports Collision
begin

text \<open>
  The projectile class \<open>Shot\<close> of \<open>src/main.py\<close> (lines 27--44): a sprite
  with the image it was fired with.  \<open>move\<close> translates it vertically,
  \<open>off_screen\<close> tests the vertical position against the field height, and
  \<open>collision\<close> delegates to \<open>collide\<close>.  The lemmas give the position after
  \<open>k\<close> moves and the exact move on which a shot leaves the field.
\<close>

record shot = sprite +
  img :: img

definition Shot_init :: "assets \<Rightarrow> int \<Rightarrow> int \<Rightarrow> img \<Rightarrow> shot" where
  "Shot_init A x0 y0 im = \<lparr>x = x0, y = y0, mask = surface_mask A im, img = im\<rparr>"

definition Shot_move :: "int \<Rightarrow> shot \<Rightarrow> shot" where
  "Shot_move vel s = s\<lparr>y := y s + vel\<rparr>"

definition Shot_off_screen :: "int \<Rightarrow> shot \<Rightarrow> bool" where
  "Shot_off_screen height s = (\<not> (height \<ge> y s \<and> y s \<ge> 0))"

definition Shot_collision :: "shot \<Rightarrow> 'a sprite_scheme \<Rightarrow> bool" where
  "Shot_collision s obj = collide s obj"

lemma Shot_move_fields [simp]:
  "x (Shot_move vel s) = x s" "y (Shot_move vel s) = y s + vel"
  "mask (Shot_move vel s) = mask s" "img (Shot_move vel s) = img s"
  by (simp_all add: Shot_move_def)

lemma y_funpow_Shot_move: "y ((Shot_move vel ^^ k) s) = y s + int k * vel"
  by (induction k) (simp_all add: algebra_simps)

lemma x_funpow_Shot_move: "x ((Shot_move vel ^^ k) s) = x s"
  by (induction k) simp_all

text \<open>
  C34: a shot fired downwards (\<open>vel > 0\<close>, the enemies' shots) from a height
  \<open>y0\<close> inside the field is off screen after \<open>k\<close> moves exactly when
  \<open>k > (HEIGHT - y0) div vel\<close>: it is removed on move
  \<open>(HEIGHT - y0) div vel + 1\<close>, one move later than \<open>ceil (HEIGHT / vel)\<close>
  when \<open>vel\<close> divides the distance, since the border row \<open>y = HEIGHT\<close> still
  counts as on screen.
\<close>

theorem Shot_off_screen_downward:
  assumes "0 < vel" and "0 \<le> y s" and "y s \<le> HEIGHT"
  shows "Shot_off_screen HEIGHT ((Shot_move vel ^^ k) s) \<longleftrightarrow> (HEIGHT - y s) div vel < int k"
proof -
  have "0 \<le> int k * vel" using assms(1) by simp
  then have "Shot_off_screen HEIGHT ((Shot_move vel ^^ k) s) \<longleftrightarrow> HEIGHT - y s < int k * vel"
    using assms(2) by (auto simp: Shot_off_screen_def y_funpow_Shot_move)
  also have "\<dots> \<longleftrightarrow> (HEIGHT - y s) div vel < int k"
    using assms(1) by (rule int_div_less_iff [symmetric])
  finally show ?thesis .
qed

theorem Shot_off_screen_downward_witness:
  "Shot_off_screen HEIGHT ((Shot_move 5 ^^ 181) (Shot_init sample_assets 0 0 SATAN_SHOT))
   \<and> \<not> Shot_off_screen HEIGHT ((Shot_move 5 ^^ 180) (Shot_init sample_assets 0 0 SATAN_SHOT))"
proof -
  have y0: "y (Shot_init sample_assets 0 0 SATAN_SHOT) = 0" by (simp add: Shot_init_def)
  show ?thesis
    using Shot_off_screen_downward [of 5 "Shot_init sample_assets 0 0 SATAN_SHOT" 181]
      Shot_off_screen_downward [of 5 "Shot_init sample_assets 0 0 SATAN_SHOT" 180]
    by (simp add: y0 HEIGHT_def)
qed

text \<open>
  C35: a shot fired upwards (\<open>vel < 0\<close>, the player's shots) from a height
  \<open>y0\<close> inside the field is off screen after \<open>k\<close> moves exactly when
  \<open>k > y0 div (- vel)\<close>.
\<close>

theorem Shot_off_screen_upward:
  assumes "vel < 0" and "0 \<le> y s" and "y s \<le> HEIGHT"
  shows "Shot_off_screen HEIGHT ((Shot_move vel ^^ k) s) \<longleftrightarrow> y s div (- vel) < int k"
proof -
  have "int k * vel \<le> 0" using assms(1) by (simp add: mult_nonneg_nonpos)
  then have "Shot_off_screen HEIGHT ((Shot_move vel ^^ k) s) \<longleftrightarrow> y s < int k * (- vel)"
    using assms(3) by (auto simp: Shot_off_screen_def y_funpow_Shot_move)
  also have "\<dots> \<longleftrightarrow> y s div (- vel) < int k"
    using assms(1) int_div_less_iff [of "- vel" "y s" "int k"] by simp
  finally show ?thesis .
qed

theorem Shot_off_screen_upward_witness:
  "Shot_off_screen HEIGHT ((Shot_move (-10) ^^ 58) (Shot_init sample_assets 370 570 JESUS_SHOT))
   \<and> \<not> Shot_off_screen HEIGHT ((Shot_move (-10) ^^ 57) (Shot_init sample_assets 370 570 JESUS_SHOT))"
proof -
  have y0: "y (Shot_init sample_assets 370 570 JESUS_SHOT) = 570" by (simp add: Shot_init_def)
  show ?thesis
    using Shot_off_screen_upward [of "-10" "Shot_init sample_assets 370 570 JESUS_SHOT" 58]
      Shot_off_screen_upward [of "-10" "Shot_init sample_assets 370 570 JESUS_SHOT" 57]
    by (simp add: y0 HEIGHT_def)
qed

end
