(* ===== verification/Character.thy ===== *)
theory Character
  imports Shot
begin

text \<open>
  The base class \<open>Character\<close> of \<open>src/main.py\<close> (lines 47--90): position,
  health, images, the owned shots and the fire cooldown.  Methods that mutate
  \<open>self\<close> return the updated record; \<open>move_shot\<close> also mutates its target
  \<open>obj\<close> (its health), so it returns the pair (self, obj).  The operations are
  polymorphic in the record extension, so \<open>Player\<close> and \<open>Enemy\<close> inherit them.

  The \<open>for shot in self.shots\<close> loop of \<open>move_shot\<close> is modelled as CPython
  runs it, by an index into the live list (\<open>Character_move_shot_loop\<close>); the
  one-shot body is \<open>Character_shot_fate\<close>.  \<open>shots_pass\<close>/\<open>shots_skip\<close>
  characterise the loop structurally (the element after a removed one is passed
  over untouched), and \<open>shots_spec\<close> is the pass the specification describes,
  in which every shot is processed.
\<close>

record character = sprite +
  health :: int
  char_img :: img
  shot_img :: img
  shots :: "shot list"
  cool_down_counter :: nat

definition COOLDOWN :: nat where
  "COOLDOWN = 30"

definition Character_init :: "int \<Rightarrow> int \<Rightarrow> int \<Rightarrow> img \<Rightarrow> img \<Rightarrow> mask \<Rightarrow> character" where
  "Character_init x0 y0 hp ci si m =
     \<lparr>x = x0, y = y0, mask = m, health = hp, char_img = ci, shot_img = si,
      shots = [], cool_down_counter = 0\<rparr>"

definition Character_cooldown :: "'a character_scheme \<Rightarrow> 'a character_scheme" where
  "Character_cooldown c =
     (if cool_down_counter c \<ge> COOLDOWN then c\<lparr>cool_down_counter := 0\<rparr>
      else if cool_down_counter c > 0 then c\<lparr>cool_down_counter := cool_down_counter c + 1\<rparr>
      else c)"

definition Character_shoot :: "assets \<Rightarrow> 'a character_scheme \<Rightarrow> 'a character_scheme" where
  "Character_shoot A c =
     (if cool_down_counter c = 0
      then c\<lparr>shots := shots c @ [Shot_init A (x c) (y c) (shot_img c)], cool_down_counter := 1\<rparr>
      else c)"

definition Character_get_width :: "assets \<Rightarrow> 'a character_scheme \<Rightarrow> int" where
  "Character_get_width A c = surface_width A (char_img c)"

definition Character_get_height :: "assets \<Rightarrow> 'a character_scheme \<Rightarrow> int" where
  "Character_get_height A c = surface_height A (char_img c)"

datatype shot_fate = Gone | Struck | Flying shot

definition Character_shot_fate :: "int \<Rightarrow> 'b sprite_scheme \<Rightarrow> shot \<Rightarrow> shot_fate" where
  "Character_shot_fate vel obj s =
     (let s' = Shot_move vel s
      in if Shot_off_screen HEIGHT s' then Gone
         else if Shot_collision s' obj then Struck
         else Flying s')"

function Character_move_shot_loop ::
  "int \<Rightarrow> nat \<Rightarrow> shot list \<Rightarrow> 'b character_scheme \<Rightarrow> shot list \<times> 'b character_scheme" where
  "Character_move_shot_loop vel i ss obj =
     (if i < length ss then
        (case Character_shot_fate vel obj (ss ! i) of
           Gone \<Rightarrow> Character_move_shot_loop vel (Suc i) (remove_nth i ss) obj
         | Struck \<Rightarrow> Character_move_shot_loop vel (Suc i) (remove_nth i ss) (obj\<lparr>health := health obj - 10\<rparr>)
         | Flying s' \<Rightarrow> Character_move_shot_loop vel (Suc i) (ss[i := s']) obj)
      else (ss, obj))"
  by pat_completeness auto
termination
  by (relation "measure (\<lambda>(vel, i, ss, obj). length ss - i)") auto

definition Character_move_shot ::
  "int \<Rightarrow> 'b character_scheme \<Rightarrow> 'a character_scheme \<Rightarrow> 'a character_scheme \<times> 'b character_scheme" where
  "Character_move_shot vel obj c =
     (let c1 = Character_cooldown c;
          (ss, obj') = Character_move_shot_loop vel 0 (shots c1) obj
      in (c1\<lparr>shots := ss\<rparr>, obj'))"

fun shots_pass :: "int \<Rightarrow> shot list \<Rightarrow> 'b character_scheme \<Rightarrow> shot list \<times> 'b character_scheme"
and shots_skip :: "int \<Rightarrow> shot list \<Rightarrow> 'b character_scheme \<Rightarrow> shot list \<times> 'b character_scheme" where
  "shots_pass vel [] obj = ([], obj)"
| "shots_pass vel (s # ss) obj =
     (case Character_shot_fate vel obj s of
        Gone \<Rightarrow> shots_skip vel ss obj
      | Struck \<Rightarrow> shots_skip vel ss (obj\<lparr>health := health obj - 10\<rparr>)
      | Flying s' \<Rightarrow> apfst (Cons s') (shots_pass vel ss obj))"
| "shots_skip vel [] obj = ([], obj)"
| "shots_skip vel (s # ss) obj = apfst (Cons s) (shots_pass vel ss obj)"

fun shots_spec :: "int \<Rightarrow> shot list \<Rightarrow> 'b character_scheme \<Rightarrow> shot list \<times> 'b character_scheme" where
  "shots_spec vel [] obj = ([], obj)"
| "shots_spec vel (s # ss) obj =
     (let s' = s\<lparr>y := y s + vel\<rparr>
      in if y s' < 0 \<or> HEIGHT < y s' then shots_spec vel ss obj
         else if collide s' obj then shots_spec vel ss (obj\<lparr>health := health obj - 10\<rparr>)
         else apfst (Cons s') (shots_spec vel ss obj))"

definition spec_in_flight :: "int \<Rightarrow> 'b sprite_scheme \<Rightarrow> shot \<Rightarrow> bool" where
  "spec_in_flight vel obj s \<longleftrightarrow>
     0 \<le> y s + vel \<and> y s + vel \<le> HEIGHT \<and> \<not> collide (s\<lparr>y := y s + vel\<rparr>) obj"

abbreviation Character_fire_frame :: "assets \<Rightarrow> 'a character_scheme \<Rightarrow> 'a character_scheme" where
  "Character_fire_frame A \<equiv> (\<lambda>c. Character_cooldown (Character_shoot A c))"

declare Character_move_shot_loop.simps [simp del]

lemma Character_move_shot_loop_pass:
  "Character_move_shot_loop vel i ss obj = apfst ((@) (take i ss)) (shots_pass vel (drop i ss) obj)"
proof (induction vel i ss obj rule: Character_move_shot_loop.induct)
  case (1 vel i ss obj)
  note step = Character_move_shot_loop.simps [of vel i ss obj]
  show ?case
  proof (cases "i < length ss")
    case False
    then show ?thesis by (simp add: step)
  next
    case True
    note d = drop_nth_Cons [OF True]
    have skip: "apfst ((@) (take (Suc i) (remove_nth i ss))) (shots_pass vel (drop (Suc i) (remove_nth i ss)) o')
        = apfst ((@) (take i ss)) (shots_skip vel (drop (Suc i) ss) o')" for o'
    proof (cases "Suc i < length ss")
      case True
      then show ?thesis
        by (simp add: list_loop_simps drop_nth_Cons [of "Suc i" ss] apfst_compose o_def)
    next
      case False
      then show ?thesis by (simp add: list_loop_simps)
    qed
    show ?thesis
    proof (cases "Character_shot_fate vel obj (ss ! i)")
      case Gone
      with True "1.IH"(1) show ?thesis by (simp add: step d skip)
    next
      case Struck
      with True "1.IH"(2) show ?thesis by (simp add: step d skip)
    next
      case (Flying s')
      with True "1.IH"(3) show ?thesis
        by (simp add: step d list_loop_simps apfst_compose o_def)
    qed
  qed
qed

lemma Character_cooldown_fields [simp]:
  "x (Character_cooldown c) = x c" "y (Character_cooldown c) = y c"
  "mask (Character_cooldown c) = mask c" "health (Character_cooldown c) = health c"
  "shots (Character_cooldown c) = shots c" "shot_img (Character_cooldown c) = shot_img c"
  "char_img (Character_cooldown c) = char_img c"
  by (simp_all add: Character_cooldown_def)

lemma Character_shoot_busy: "0 < cool_down_counter c \<Longrightarrow> Character_shoot A c = c"
  by (simp add: Character_shoot_def)

lemma Character_cooldown_counting:
  "0 < k \<Longrightarrow> k + m \<le> COOLDOWN \<Longrightarrow> cool_down_counter c = k \<Longrightarrow>
   (Character_cooldown ^^ m) c = c\<lparr>cool_down_counter := k + m\<rparr>"
proof (induction m arbitrary: c k)
  case 0
  then show ?case by simp
next
  case (Suc m)
  have "(Character_cooldown ^^ Suc m) c = (Character_cooldown ^^ m) (Character_cooldown c)"
    by (rule funpow_Suc_inner)
  also have "Character_cooldown c = c\<lparr>cool_down_counter := Suc k\<rparr>"
    using Suc.prems by (simp add: Character_cooldown_def)
  also have "(Character_cooldown ^^ m) (c\<lparr>cool_down_counter := Suc k\<rparr>)
      = c\<lparr>cool_down_counter := Suc k + m\<rparr>"
    using Suc.prems by (intro Suc.IH [of "Suc k", THEN trans]) simp_all
  finally show ?case by simp
qed

lemma Character_cooldown_wrap:
  "cool_down_counter c = COOLDOWN \<Longrightarrow> Character_cooldown c = c\<lparr>cool_down_counter := 0\<rparr>"
  by (simp add: Character_cooldown_def)

lemma Character_fire_frame_counting:
  "0 < k \<Longrightarrow> k + m \<le> COOLDOWN \<Longrightarrow> cool_down_counter c = k \<Longrightarrow>
   (Character_fire_frame A ^^ m) c = c\<lparr>cool_down_counter := k + m\<rparr>"
proof (induction m arbitrary: c k)
  case 0
  then show ?case by simp
next
  case (Suc m)
  let ?f = "Character_fire_frame A"
  have "(?f ^^ Suc m) c = (?f ^^ m) (?f c)"
    by (rule funpow_Suc_inner)
  also have "?f c = c\<lparr>cool_down_counter := Suc k\<rparr>"
    using Suc.prems by (simp add: Character_shoot_busy Character_cooldown_def)
  also have "(?f ^^ m) (c\<lparr>cool_down_counter := Suc k\<rparr>) = c\<lparr>cool_down_counter := Suc k + m\<rparr>"
    using Suc.prems by (intro Suc.IH [of "Suc k", THEN trans]) simp_all
  finally show ?case by simp
qed

lemma Character_fire_frame_ready:
  "cool_down_counter c = 0 \<Longrightarrow>
   Character_fire_frame A c =
     c\<lparr>shots := shots c @ [Shot_init A (x c) (y c) (shot_img c)], cool_down_counter := 2\<rparr>"
  by (simp add: Character_shoot_def Character_cooldown_def COOLDOWN_def)

lemma Character_fire_frames_within_period:
  assumes "cool_down_counter c = 0" and "0 < r" and "r < COOLDOWN"
  shows "(Character_fire_frame A ^^ r) c =
     c\<lparr>shots := shots c @ [Shot_init A (x c) (y c) (shot_img c)], cool_down_counter := Suc r\<rparr>"
proof -
  have r: "r = Suc (r - 1)" using assms(2) by simp
  have "(Character_fire_frame A ^^ r) c
      = (Character_fire_frame A ^^ (r - 1)) (Character_fire_frame A c)"
    by (subst r) (rule funpow_Suc_inner)
  also have "Character_fire_frame A c =
      c\<lparr>shots := shots c @ [Shot_init A (x c) (y c) (shot_img c)], cool_down_counter := 2\<rparr>"
    using assms(1) by (rule Character_fire_frame_ready)
  also have "(Character_fire_frame A ^^ (r - 1)) \<dots> =
      c\<lparr>shots := shots c @ [Shot_init A (x c) (y c) (shot_img c)], cool_down_counter := 2 + (r - 1)\<rparr>"
    using assms Character_fire_frame_counting [where k = 2 and m = "r - 1" and A = A and
        c = "c\<lparr>shots := shots c @ [Shot_init A (x c) (y c) (shot_img c)], cool_down_counter := 2\<rparr>"]
    by simp
  finally show ?thesis using assms(2) by simp
qed

lemma Character_fire_period:
  assumes "cool_down_counter c = 0"
  shows "(Character_fire_frame A ^^ COOLDOWN) c =
     c\<lparr>shots := shots c @ [Shot_init A (x c) (y c) (shot_img c)]\<rparr>"
proof -
  let ?f = "Character_fire_frame A"
  have "COOLDOWN = Suc (COOLDOWN - 1)" by (simp add: COOLDOWN_def)
  then have "(?f ^^ COOLDOWN) c = ?f ((?f ^^ (COOLDOWN - 1)) c)"
    by (metis comp_apply funpow.simps(2))
  also have "(?f ^^ (COOLDOWN - 1)) c =
      c\<lparr>shots := shots c @ [Shot_init A (x c) (y c) (shot_img c)], cool_down_counter := COOLDOWN\<rparr>"
    using assms by (simp add: Character_fire_frames_within_period COOLDOWN_def)
  finally show ?thesis
    using assms by (simp add: Character_shoot_busy Character_cooldown_wrap COOLDOWN_def)
qed

lemma Character_fire_periods:
  assumes "cool_down_counter c = 0"
  shows "cool_down_counter ((Character_fire_frame A ^^ (COOLDOWN * q)) c) = 0 \<and>
   length (shots ((Character_fire_frame A ^^ (COOLDOWN * q)) c)) = length (shots c) + q"
proof (induction q)
  case 0
  then show ?case using assms by simp
next
  case (Suc q)
  let ?f = "Character_fire_frame A"
  have "(?f ^^ (COOLDOWN * Suc q)) c = (?f ^^ COOLDOWN) ((?f ^^ (COOLDOWN * q)) c)"
    by (simp add: funpow_add)
  with Suc.IH show ?case by (simp add: Character_fire_period)
qed

text \<open>
  C31: with the fire key held in every frame (the player's order: \<open>shoot\<close>,
  then the \<open>cooldown\<close> at the start of \<open>move_shot\<close>), a ready character fires
  one shot every \<open>COOLDOWN\<close> frames: \<open>ceil (n / 30)\<close> shots in \<open>n\<close> frames.
\<close>

theorem Character_fire_rate:
  assumes "cool_down_counter c = 0"
  shows "length (shots ((Character_fire_frame A ^^ n) c))
           = length (shots c) + (n + 29) div 30"
proof -
  let ?f = "Character_fire_frame A"
  define q r where "q = n div COOLDOWN" and "r = n mod COOLDOWN"
  have n: "n = r + COOLDOWN * q" by (simp add: q_def r_def)
  have per: "cool_down_counter ((?f ^^ (COOLDOWN * q)) c) = 0"
     "length (shots ((?f ^^ (COOLDOWN * q)) c)) = length (shots c) + q"
    using Character_fire_periods [OF assms] by simp_all
  have "(?f ^^ n) c = (?f ^^ r) ((?f ^^ (COOLDOWN * q)) c)"
    by (subst n) (simp add: funpow_add)
  moreover have "r < COOLDOWN" by (simp add: r_def COOLDOWN_def)
  ultimately have "length (shots ((?f ^^ n) c)) = length (shots c) + q + (if r = 0 then 0 else 1)"
    using per by (simp add: Character_fire_frames_within_period)
  also have "\<dots> = length (shots c) + (n + 29) div 30"
    by (simp add: q_def r_def COOLDOWN_def)
  finally show ?thesis .
qed

theorem Character_fire_rate_witness:
  "length (shots ((Character_fire_frame sample_assets ^^ 31) (Character_init 0 0 100 SATAN SATAN_SHOT []))) = 2"
  using Character_fire_rate [of "Character_init 0 0 100 SATAN SATAN_SHOT []" 31 sample_assets]
  by (simp add: Character_init_def)

lemma Character_move_shot_pass:
  "Character_move_shot vel obj c =
     apfst (\<lambda>ss. (Character_cooldown c)\<lparr>shots := ss\<rparr>) (shots_pass vel (shots c) obj)"
  by (cases "shots_pass vel (shots c) obj") (simp add: Character_move_shot_def Character_move_shot_loop_pass)

lemma shots_pass_skip_bounds:
  "length (fst (shots_pass vel ss obj)) \<le> length ss \<and>
   health obj - 10 * int (length ss) \<le> health (snd (shots_pass vel ss obj)) \<and>
   health (snd (shots_pass vel ss obj)) \<le> health obj \<and>
   snd (shots_pass vel ss obj) = obj\<lparr>health := health (snd (shots_pass vel ss obj))\<rparr>"
  "length (fst (shots_skip vel ss obj)) \<le> length ss \<and>
   health obj - 10 * int (length ss) \<le> health (snd (shots_skip vel ss obj)) \<and>
   health (snd (shots_skip vel ss obj)) \<le> health obj \<and>
   snd (shots_skip vel ss obj) = obj\<lparr>health := health (snd (shots_skip vel ss obj))\<rparr>"
proof (induction vel ss obj and vel ss obj rule: shots_pass_shots_skip.induct)
  case (2 vel s ss obj)
  then show ?case
    by (cases "Character_shot_fate vel obj s") (auto simp: algebra_simps)
qed auto

lemma Character_shot_fate_spec:
  "Character_shot_fate vel obj s =
     (if y s + vel < 0 \<or> HEIGHT < y s + vel then Gone
      else if collide (s\<lparr>y := y s + vel\<rparr>) obj then Struck
      else Flying (s\<lparr>y := y s + vel\<rparr>))"
  by (auto simp: Character_shot_fate_def Shot_move_def Shot_off_screen_def Shot_collision_def)

lemma shots_pass_spec:
  "(\<forall>s \<in> set (butlast ss). spec_in_flight vel obj s) \<Longrightarrow>
   shots_pass vel ss obj = shots_spec vel ss obj"
proof (induction ss)
  case Nil
  then show ?case by simp
next
  case (Cons s ss)
  show ?case
  proof (cases ss)
    case Nil
    then show ?thesis by (simp add: Character_shot_fate_spec Let_def)
  next
    case (Cons t ts)
    with Cons.prems have "spec_in_flight vel obj s" by simp
    with Cons.IH Cons.prems \<open>ss = t # ts\<close> show ?thesis
      by (simp add: Character_shot_fate_spec spec_in_flight_def Let_def)
  qed
qed

lemma Character_counter_le:
  "cool_down_counter c \<le> COOLDOWN \<Longrightarrow> cool_down_counter (Character_cooldown c) \<le> COOLDOWN"
  "cool_down_counter c \<le> COOLDOWN \<Longrightarrow> cool_down_counter (Character_shoot A c) \<le> COOLDOWN"
  "cool_down_counter (fst (Character_move_shot vel obj c)) = cool_down_counter (Character_cooldown c)"
  by (auto simp: Character_cooldown_def Character_shoot_def Character_move_shot_pass COOLDOWN_def)

lemma Character_move_shot_target:
  "\<exists>h. snd (Character_move_shot vel obj c) = obj\<lparr>health := h\<rparr> \<and> h \<le> health obj"
  using shots_pass_skip_bounds(1) [of vel "shots c" obj] by (auto simp: Character_move_shot_pass)

lemma Character_move_shot_self:
  "fst (Character_move_shot vel obj c) = (Character_cooldown c)\<lparr>shots := shots (fst (Character_move_shot vel obj c))\<rparr>"
  by (simp add: Character_move_shot_pass)

text \<open>
  C1: \<open>Character.move_shot\<close> removes shots from \<open>self.shots\<close> while a
  \<open>for\<close> loop runs over it, so the shot after a removed one slides under the
  cursor and is skipped: in that frame it is neither moved nor tested.
\<close>

theorem Character_move_shot_skips:
  assumes "shots c = s1 # s2 # rest"
    and "\<nexists>s'. Character_shot_fate vel obj s1 = Flying s'"
  shows "\<exists>r. shots (fst (Character_move_shot vel obj c)) = s2 # r"
  using assms
  by (cases "Character_shot_fate vel obj s1") (auto simp: Character_move_shot_pass)

theorem Character_move_shot_skips_witness:
  "shots ((Character_init 0 0 100 SATAN SATAN_SHOT [])
       \<lparr>shots := [\<lparr>x = 0, y = 900, mask = [], img = SATAN_SHOT\<rparr>, \<lparr>x = 0, y = 100, mask = [], img = SATAN_SHOT\<rparr>]\<rparr>)
     = \<lparr>x = 0, y = 900, mask = [], img = SATAN_SHOT\<rparr> # \<lparr>x = 0, y = 100, mask = [], img = SATAN_SHOT\<rparr> # []
   \<and> (\<nexists>s'. Character_shot_fate 5 (Character_init 370 570 100 JESUS JESUS_SHOT [])
              \<lparr>x = 0, y = 900, mask = [], img = SATAN_SHOT\<rparr> = Flying s')
   \<and> (\<exists>r. shots (fst (Character_move_shot 5 (Character_init 370 570 100 JESUS JESUS_SHOT [])
        ((Character_init 0 0 100 SATAN SATAN_SHOT [])
          \<lparr>shots := [\<lparr>x = 0, y = 900, mask = [], img = SATAN_SHOT\<rparr>, \<lparr>x = 0, y = 100, mask = [], img = SATAN_SHOT\<rparr>]\<rparr>)))
        = \<lparr>x = 0, y = 100, mask = [], img = SATAN_SHOT\<rparr> # r)"
proof -
  have gone: "\<nexists>s'. Character_shot_fate 5 (Character_init 370 570 100 JESUS JESUS_SHOT [])
              \<lparr>x = 0, y = 900, mask = [], img = SATAN_SHOT\<rparr> = Flying s'"
    by (simp add: Character_shot_fate_def Shot_move_def Shot_off_screen_def HEIGHT_def)
  show ?thesis
    using gone Character_move_shot_skips [OF _ gone, where c = "(Character_init 0 0 100 SATAN SATAN_SHOT [])
          \<lparr>shots := [\<lparr>x = 0, y = 900, mask = [], img = SATAN_SHOT\<rparr>, \<lparr>x = 0, y = 100, mask = [], img = SATAN_SHOT\<rparr>]\<rparr>"]
    by simp
qed

text \<open>
  C23: the refinement: when every shot but the last stays in flight, the loop of
  \<open>Character.move_shot\<close> computes the pass of the specification (section 4.2),
  \<open>shots_spec\<close>, written from the specification's words alone: every shot
  advances by \<open>vel\<close>; a shot outside \<open>[0, HEIGHT]\<close> is dropped; a shot that
  collides with the target is dropped and takes 10 health points from it.  The
  hypothesis is the domain where no shot is removed before another one, outside of
  which the code skips shots (C1).
\<close>

theorem Character_move_shot_refines:
  assumes "\<forall>s \<in> set (butlast (shots c)). spec_in_flight vel obj s"
  shows "Character_move_shot vel obj c =
     apfst (\<lambda>ss. (Character_cooldown c)\<lparr>shots := ss\<rparr>) (shots_spec vel (shots c) obj)"
  using assms by (simp add: Character_move_shot_pass shots_pass_spec)

theorem Character_move_shot_refines_witness:
  "spec_in_flight 5 (Character_init 370 570 100 JESUS JESUS_SHOT []) \<lparr>x = 0, y = 100, mask = [], img = SATAN_SHOT\<rparr>
   \<and> Character_move_shot 5 (Character_init 370 570 100 JESUS JESUS_SHOT [])
       ((Character_init 0 0 100 SATAN SATAN_SHOT [])\<lparr>shots :=
          [\<lparr>x = 0, y = 100, mask = [], img = SATAN_SHOT\<rparr>, \<lparr>x = 0, y = 900, mask = [], img = SATAN_SHOT\<rparr>]\<rparr>)
     = ((Character_init 0 0 100 SATAN SATAN_SHOT [])\<lparr>shots := [\<lparr>x = 0, y = 105, mask = [], img = SATAN_SHOT\<rparr>]\<rparr>,
        Character_init 370 570 100 JESUS JESUS_SHOT [])"
proof -
  have h: "spec_in_flight 5 (Character_init 370 570 100 JESUS JESUS_SHOT []) \<lparr>x = 0, y = 100, mask = [], img = SATAN_SHOT\<rparr>"
    by (simp add: spec_in_flight_def HEIGHT_def collide_def mask_overlap_def Character_init_def)
  have "Character_move_shot 5 (Character_init 370 570 100 JESUS JESUS_SHOT [])
       ((Character_init 0 0 100 SATAN SATAN_SHOT [])\<lparr>shots :=
          [\<lparr>x = 0, y = 100, mask = [], img = SATAN_SHOT\<rparr>, \<lparr>x = 0, y = 900, mask = [], img = SATAN_SHOT\<rparr>]\<rparr>)
     = apfst (\<lambda>ss. (Character_cooldown ((Character_init 0 0 100 SATAN SATAN_SHOT [])\<lparr>shots :=
          [\<lparr>x = 0, y = 100, mask = [], img = SATAN_SHOT\<rparr>, \<lparr>x = 0, y = 900, mask = [], img = SATAN_SHOT\<rparr>]\<rparr>))\<lparr>shots := ss\<rparr>)
         (shots_spec 5 [\<lparr>x = 0, y = 100, mask = [], img = SATAN_SHOT\<rparr>, \<lparr>x = 0, y = 900, mask = [], img = SATAN_SHOT\<rparr>]
            (Character_init 370 570 100 JESUS JESUS_SHOT []))"
    using h Character_move_shot_refines [where c = "(Character_init 0 0 100 SATAN SATAN_SHOT [])\<lparr>shots :=
          [\<lparr>x = 0, y = 100, mask = [], img = SATAN_SHOT\<rparr>, \<lparr>x = 0, y = 900, mask = [], img = SATAN_SHOT\<rparr>]\<rparr>"
      and vel = 5 and obj = "Character_init 370 570 100 JESUS JESUS_SHOT []"]
    by simp
  then show ?thesis
    using h by (simp add: HEIGHT_def collide_def mask_overlap_def Character_init_def Character_cooldown_def
        Let_def character.defs)
qed

text \<open>
  C24: one call of \<open>Character.move_shot\<close> never adds shots, takes at most 10
  health points per shot from its target and changes nothing of the target but
  its health.
\<close>

theorem Character_move_shot_damage:
  "length (shots (fst (Character_move_shot vel obj c))) \<le> length (shots c) \<and>
   health obj - 10 * int (length (shots c)) \<le> health (snd (Character_move_shot vel obj c)) \<and>
   health (snd (Character_move_shot vel obj c)) \<le> health obj \<and>
   snd (Character_move_shot vel obj c) = obj\<lparr>health := health (snd (Character_move_shot vel obj c))\<rparr>"
  using shots_pass_skip_bounds(1) [of vel "shots c" obj]
  by (simp add: Character_move_shot_pass)

text \<open>
  C32: the cooldown counter stays within \<open>[0, COOLDOWN]\<close>: \<open>cooldown\<close>,
  \<open>shoot\<close> and \<open>move_shot\<close> all keep the bound.
\<close>

theorem Character_cooldown_bounded:
  assumes "cool_down_counter c \<le> COOLDOWN"
  shows "cool_down_counter (Character_cooldown c) \<le> COOLDOWN \<and>
         cool_down_counter (Character_shoot A c) \<le> COOLDOWN \<and>
         cool_down_counter (fst (Character_move_shot vel obj c)) \<le> COOLDOWN"
  using assms by (simp add: Character_counter_le)

theorem Character_cooldown_bounded_witness:
  "cool_down_counter ((Character_init 0 0 100 SATAN SATAN_SHOT [])\<lparr>cool_down_counter := 30\<rparr>) \<le> COOLDOWN \<and>
   cool_down_counter (Character_cooldown ((Character_init 0 0 100 SATAN SATAN_SHOT [])\<lparr>cool_down_counter := 30\<rparr>)) \<le> COOLDOWN \<and>
   cool_down_counter (Character_shoot sample_assets ((Character_init 0 0 100 SATAN SATAN_SHOT [])\<lparr>cool_down_counter := 30\<rparr>)) \<le> COOLDOWN \<and>
   cool_down_counter (fst (Character_move_shot 5 (Character_init 370 570 100 JESUS JESUS_SHOT [])
      ((Character_init 0 0 100 SATAN SATAN_SHOT [])\<lparr>cool_down_counter := 30\<rparr>))) \<le> COOLDOWN"
  using Character_cooldown_bounded [where c = "(Character_init 0 0 100 SATAN SATAN_SHOT [])\<lparr>cool_down_counter := 30\<rparr>"
      and A = sample_assets and vel = 5 and obj = "Character_init 370 570 100 JESUS JESUS_SHOT []"]
  by (simp add: COOLDOWN_def)

end
