(* ===== verification/Player.thy ===== *)
theory Player
  imports Complex_Main Character "HOL-Library.Sublist"
begin

text \<open>
  The class \<open>Player\<close> of \<open>src/main.py\<close> (lines 93--125): a character with
  \<open>max_health\<close>, whose \<open>move_shot\<close> tests every shot against the whole enemy
  list and removes the enemies it hits.  Both loops of that method remove from the
  list they iterate over; they are modelled as CPython runs them, with an index
  into the live list (\<open>Player_move_shot_loop\<close>, \<open>Player_hit_loop\<close>), and
  characterised structurally by \<open>pshots_pass\<close> and \<open>hits_pass\<close>.  The test
  \<open>if shot in self.shots\<close> is the flag \<open>present\<close>: the shot is at the
  cursor until the first hit removes it.  The enemy list is any list of sprites,
  so this theory does not depend on \<open>Enemy\<close>.  \<open>health_bar\<close> is drawing;
  only the width of its green bar (line 121) is modelled, as a real number since
  Python's \<open>/\<close> is float division.
\<close>

record player = character +
  max_health :: int

definition Player_init :: "assets \<Rightarrow> int \<Rightarrow> int \<Rightarrow> int \<Rightarrow> player" where
  "Player_init A x0 y0 hp =
     character.extend (Character_init x0 y0 hp JESUS JESUS_SHOT (surface_mask A JESUS))
       (player.fields hp)"

function Player_hit_loop ::
  "shot \<Rightarrow> nat \<Rightarrow> 'e sprite_scheme list \<Rightarrow> bool \<Rightarrow> 'e sprite_scheme list \<times> bool" where
  "Player_hit_loop s j objs present =
     (if j < length objs then
        (if Shot_collision s (objs ! j)
         then Player_hit_loop s (Suc j) (remove_nth j objs) False
         else Player_hit_loop s (Suc j) objs present)
      else (objs, present))"
  by pat_completeness auto
termination
  by (relation "measure (\<lambda>(s, j, objs, present). length objs - j)") auto

function Player_move_shot_loop ::
  "int \<Rightarrow> nat \<Rightarrow> shot list \<Rightarrow> 'e sprite_scheme list \<Rightarrow> shot list \<times> 'e sprite_scheme list" where
  "Player_move_shot_loop vel i ss objs =
     (if i < length ss then
        (let s' = Shot_move vel (ss ! i)
         in if Shot_off_screen HEIGHT s'
            then Player_move_shot_loop vel (Suc i) (remove_nth i ss) objs
            else (case Player_hit_loop s' 0 objs True of
                    (objs', present) \<Rightarrow>
                      Player_move_shot_loop vel (Suc i)
                        (if present then ss[i := s'] else remove_nth i ss) objs'))
      else (ss, objs))"
  by pat_completeness auto
termination
  by (relation "measure (\<lambda>(vel, i, ss, objs). length ss - i)") auto

definition Player_move_shot ::
  "int \<Rightarrow> 'e sprite_scheme list \<Rightarrow> 'a player_scheme \<Rightarrow> 'a player_scheme \<times> 'e sprite_scheme list" where
  "Player_move_shot vel objs p =
     (let p1 = Character_cooldown p;
          (ss, objs') = Player_move_shot_loop vel 0 (shots p1) objs
      in (p1\<lparr>shots := ss\<rparr>, objs'))"

definition Player_health_bar_width :: "assets \<Rightarrow> 'a player_scheme \<Rightarrow> real" where
  "Player_health_bar_width A p =
     of_int (surface_width A (char_img p)) * (of_int (health p) / of_int (max_health p))"

fun hits_pass :: "shot \<Rightarrow> 'e sprite_scheme list \<Rightarrow> bool \<Rightarrow> 'e sprite_scheme list \<times> bool"
and hits_skip :: "shot \<Rightarrow> 'e sprite_scheme list \<Rightarrow> 'e sprite_scheme list \<times> bool" where
  "hits_pass s [] present = ([], present)"
| "hits_pass s (o1 # os) present =
     (if Shot_collision s o1 then hits_skip s os else apfst (Cons o1) (hits_pass s os present))"
| "hits_skip s [] = ([], False)"
| "hits_skip s (o1 # os) = apfst (Cons o1) (hits_pass s os False)"

fun pshots_pass :: "int \<Rightarrow> shot list \<Rightarrow> 'e sprite_scheme list \<Rightarrow> shot list \<times> 'e sprite_scheme list"
and pshots_skip :: "int \<Rightarrow> shot list \<Rightarrow> 'e sprite_scheme list \<Rightarrow> shot list \<times> 'e sprite_scheme list" where
  "pshots_pass vel [] objs = ([], objs)"
| "pshots_pass vel (s # ss) objs =
     (let s' = Shot_move vel s
      in if Shot_off_screen HEIGHT s' then pshots_skip vel ss objs
         else (case hits_pass s' objs True of
                 (objs', present) \<Rightarrow>
                   if present then apfst (Cons s') (pshots_pass vel ss objs')
                   else pshots_skip vel ss objs'))"
| "pshots_skip vel [] objs = ([], objs)"
| "pshots_skip vel (s # ss) objs = apfst (Cons s) (pshots_pass vel ss objs)"

declare Player_hit_loop.simps [simp del] Player_move_shot_loop.simps [simp del]

lemma Player_hit_loop_pass:
  "Player_hit_loop s j objs present = apfst ((@) (take j objs)) (hits_pass s (drop j objs) present)"
proof (induction s j objs present rule: Player_hit_loop.induct)
  case (1 s j objs present)
  note step = Player_hit_loop.simps [of s j objs present]
  show ?case
  proof (cases "j < length objs")
    case False
    then show ?thesis by (simp add: step)
  next
    case True
    note d = drop_nth_Cons [OF True]
    show ?thesis
    proof (cases "Shot_collision s (objs ! j)")
      case True
      have "apfst ((@) (take (Suc j) (remove_nth j objs))) (hits_pass s (drop (Suc j) (remove_nth j objs)) False)
          = apfst ((@) (take j objs)) (hits_skip s (drop (Suc j) objs))"
      proof (cases "Suc j < length objs")
        case True
        then show ?thesis
          by (simp add: list_loop_simps drop_nth_Cons [of "Suc j" objs] apfst_compose o_def)
      next
        case False
        then show ?thesis by (simp add: list_loop_simps)
      qed
      with True \<open>j < length objs\<close> "1.IH"(1) show ?thesis by (simp add: step d)
    next
      case False
      with \<open>j < length objs\<close> "1.IH"(2) show ?thesis
        by (simp add: step d take_Suc_conv_app_nth apfst_compose o_def)
    qed
  qed
qed

lemma hits_pass_subseq:
  "subseq (fst (hits_pass s os present)) os"
  "subseq (fst (hits_skip s os)) os"
  by (induction s os present and s os rule: hits_pass_hits_skip.induct) auto

lemma Player_move_shot_loop_pass:
  "Player_move_shot_loop vel i ss objs = apfst ((@) (take i ss)) (pshots_pass vel (drop i ss) objs)"
proof (induction vel i ss objs rule: Player_move_shot_loop.induct)
  case (1 vel i ss objs)
  note step = Player_move_shot_loop.simps [of vel i ss objs]
  show ?case
  proof (cases "i < length ss")
    case False
    then show ?thesis by (simp add: step)
  next
    case True
    note d = drop_nth_Cons [OF True]
    define s' where "s' = Shot_move vel (ss ! i)"
    have skip: "apfst ((@) (take (Suc i) (remove_nth i ss))) (pshots_pass vel (drop (Suc i) (remove_nth i ss)) o')
        = apfst ((@) (take i ss)) (pshots_skip vel (drop (Suc i) ss) o')" for o'
    proof (cases "Suc i < length ss")
      case True
      then show ?thesis
        by (simp add: list_loop_simps drop_nth_Cons [of "Suc i" ss] apfst_compose o_def)
    next
      case False
      then show ?thesis by (simp add: list_loop_simps)
    qed
    show ?thesis
    proof (cases "Shot_off_screen HEIGHT s'")
      case True
      with \<open>i < length ss\<close> "1.IH"(1) show ?thesis by (simp add: step d skip s'_def [symmetric])
    next
      case False
      obtain objs' present where h: "Player_hit_loop s' 0 objs True = (objs', present)"
        by (cases "Player_hit_loop s' 0 objs True")
      then have h': "hits_pass s' objs True = (objs', present)"
        by (simp add: Player_hit_loop_pass)
      show ?thesis
      proof (cases present)
        case True
        with False h h' \<open>i < length ss\<close> "1.IH"(2) [OF \<open>i < length ss\<close> s'_def False h [symmetric]] show ?thesis
          by (simp add: step d s'_def [symmetric] list_loop_simps apfst_compose o_def)
      next
        case pF: False
        with False h h' \<open>i < length ss\<close> "1.IH"(2) [OF \<open>i < length ss\<close> s'_def False h [symmetric]] show ?thesis
          by (simp add: step d skip s'_def [symmetric])
      qed
    qed
  qed
qed

lemma Player_move_shot_pass:
  "Player_move_shot vel objs p =
     apfst (\<lambda>ss. (Character_cooldown p)\<lparr>shots := ss\<rparr>) (pshots_pass vel (shots p) objs)"
  by (cases "pshots_pass vel (shots p) objs") (simp add: Player_move_shot_def Player_move_shot_loop_pass)


lemma hits_pass_absent:
  "\<not> snd (hits_pass s os False)" "\<not> snd (hits_skip s os)"
  by (induction s os False and s os rule: hits_pass_hits_skip.induct) auto

lemma hits_pass_first_hit:
  "\<exists>o1 \<in> set os. Shot_collision s o1 \<Longrightarrow>
   length (fst (hits_pass s os present)) < length os \<and> \<not> snd (hits_pass s os present)"
proof (induction os)
  case Nil
  then show ?case by simp
next
  case (Cons o1 os)
  show ?case
  proof (cases "Shot_collision s o1")
    case True
    have "length (fst (hits_skip s os)) \<le> length os"
      using hits_pass_subseq(2) [of s os] by (rule list_emb_length)
    with True show ?thesis by (simp add: hits_pass_absent)
  next
    case False
    with Cons show ?thesis by auto
  qed
qed

lemma pshots_pass_bounds:
  "length (fst (pshots_pass vel ss objs)) \<le> length ss \<and> subseq (snd (pshots_pass vel ss objs)) objs"
  "length (fst (pshots_skip vel ss objs)) \<le> length ss \<and> subseq (snd (pshots_skip vel ss objs)) objs"
proof (induction vel ss objs and vel ss objs rule: pshots_pass_pshots_skip.induct)
  case (2 vel s ss objs)
  obtain objs' present where h: "hits_pass (Shot_move vel s) objs True = (objs', present)"
    by (cases "hits_pass (Shot_move vel s) objs True")
  have sub: "subseq objs' objs"
    using hits_pass_subseq(1) [of "Shot_move vel s" objs True] h by simp
  show ?case
    using "2.IH"(1) "2.IH"(2) [OF refl _ h [symmetric]] "2.IH"(3) [OF refl _ h [symmetric]] h sub
    by (auto simp: Let_def intro: subseq_order.trans le_SucI)
qed auto

text \<open>
  C2: the specification allows a player's projectile to kill at most one enemy.
  In \<open>Player.move_shot\<close> the inner loop \<open>for obj in objs\<close> goes on after
  \<open>objs.remove(obj)\<close> (there is no \<open>break\<close>), so one shot that overlaps the
  first and the third enemy kills both; the removal also makes the loop pass over
  the second enemy.
\<close>

theorem Player_move_shot_kills_two:
  assumes "shots p = [sh]"
    and "\<not> Shot_off_screen HEIGHT (Shot_move vel sh)"
    and "Shot_collision (Shot_move vel sh) ea" and "Shot_collision (Shot_move vel sh) ec"
  shows "\<exists>r. snd (Player_move_shot vel (ea # eb # ec # rest) p) = eb # r \<and> length r \<le> length rest"
proof -
  let ?s = "Shot_move vel sh"
  have "hits_pass ?s (ea # eb # ec # rest) True = apfst (Cons eb) (hits_skip ?s rest)"
    using assms(3,4) by simp
  moreover have "length (fst (hits_skip ?s rest)) \<le> length rest"
    using hits_pass_subseq(2) [of ?s rest] by (rule list_emb_length)
  moreover have "\<not> snd (hits_skip ?s rest)" by (rule hits_pass_absent(2))
  ultimately have h: "hits_pass ?s (ea # eb # ec # rest) True = (eb # fst (hits_skip ?s rest), False)"
    by (cases "hits_skip ?s rest") simp
  have "length (fst (hits_skip ?s rest)) \<le> length rest"
    using hits_pass_subseq(2) [of ?s rest] by (rule list_emb_length)
  then show ?thesis
    using assms(1,2) h by (simp add: Player_move_shot_pass Let_def del: hits_pass.simps hits_skip.simps)
qed

theorem Player_move_shot_kills_two_witness:
  "shots ((Player_init sample_assets 370 570 100)\<lparr>shots := [\<lparr>x = 0, y = 500, mask = [(0, 0)], img = JESUS_SHOT\<rparr>]\<rparr>)
     = [\<lparr>x = 0, y = 500, mask = [(0, 0)], img = JESUS_SHOT\<rparr>]
   \<and> \<not> Shot_off_screen HEIGHT (Shot_move (-10) \<lparr>x = 0, y = 500, mask = [(0, 0)], img = JESUS_SHOT\<rparr>)
   \<and> Shot_collision (Shot_move (-10) \<lparr>x = 0, y = 500, mask = [(0, 0)], img = JESUS_SHOT\<rparr>)
       (Character_init 0 490 100 SATAN SATAN_SHOT [(0, 0)])
   \<and> (\<exists>r. snd (Player_move_shot (-10)
         [Character_init 0 490 100 SATAN SATAN_SHOT [(0, 0)], Character_init 0 490 100 JUDAS JUDAS_SHOT [(0, 0)],
          Character_init 0 490 100 SATAN SATAN_SHOT [(0, 0)]]
         ((Player_init sample_assets 370 570 100)\<lparr>shots := [\<lparr>x = 0, y = 500, mask = [(0, 0)], img = JESUS_SHOT\<rparr>]\<rparr>))
       = Character_init 0 490 100 JUDAS JUDAS_SHOT [(0, 0)] # r \<and> length r \<le> length ([] :: character list))"
proof -
  have off: "\<not> Shot_off_screen HEIGHT (Shot_move (-10) \<lparr>x = 0, y = 500, mask = [(0, 0)], img = JESUS_SHOT\<rparr>)"
    by (simp add: Shot_off_screen_def HEIGHT_def)
  have hit: "Shot_collision (Shot_move (-10) \<lparr>x = 0, y = 500, mask = [(0, 0)], img = JESUS_SHOT\<rparr>)
       (Character_init 0 490 100 SATAN SATAN_SHOT [(0, 0)])"
    by (simp add: Shot_collision_def collide_def mask_overlap_def Character_init_def)
  show ?thesis
    using off hit Player_move_shot_kills_two [where p = "(Player_init sample_assets 370 570 100)\<lparr>shots := [\<lparr>x = 0, y = 500, mask = [(0, 0)], img = JESUS_SHOT\<rparr>]\<rparr>"
        and eb = "Character_init 0 490 100 JUDAS JUDAS_SHOT [(0, 0)]" and rest = "[] :: character list", OF _ off hit hit]
    by simp
qed

text \<open>
  C29: \<open>Player.move_shot\<close> only removes enemies: the enemy list it returns is a
  subsequence of the one it was given (no enemy is added, reordered or changed).
\<close>

theorem Player_move_shot_enemies_subseq: "subseq (snd (Player_move_shot vel objs p)) objs"
  using pshots_pass_bounds(1) [of vel "shots p" objs] by (simp add: Player_move_shot_pass)

text \<open>
  C30: a player's shot that is processed, stays on the field and overlaps an enemy
  is consumed and kills at least one enemy.
\<close>

theorem Player_move_shot_hit:
  assumes "shots p = s0 # ss"
    and "\<not> Shot_off_screen HEIGHT (Shot_move vel s0)"
    and "\<exists>o1 \<in> set objs. Shot_collision (Shot_move vel s0) o1"
  shows "length (shots (fst (Player_move_shot vel objs p))) < length (shots p) \<and>
         length (snd (Player_move_shot vel objs p)) < length objs"
proof -
  let ?s = "Shot_move vel s0"
  obtain objs' present where h: "hits_pass ?s objs True = (objs', present)"
    by (cases "hits_pass ?s objs True")
  have "length objs' < length objs" "\<not> present"
    using hits_pass_first_hit [OF assms(3), of True] h by simp_all
  moreover have "length (fst (pshots_skip vel ss objs')) \<le> length ss"
      "length (snd (pshots_skip vel ss objs')) \<le> length objs'"
    using pshots_pass_bounds(2) [of vel ss objs'] by (auto dest: list_emb_length)
  ultimately show ?thesis
    using assms(1,2) h by (simp add: Player_move_shot_pass Let_def)
qed

theorem Player_move_shot_hit_witness:
  "shots ((Player_init sample_assets 370 570 100)\<lparr>shots := [\<lparr>x = 0, y = 500, mask = [(0, 0)], img = JESUS_SHOT\<rparr>]\<rparr>)
     = [\<lparr>x = 0, y = 500, mask = [(0, 0)], img = JESUS_SHOT\<rparr>]
   \<and> \<not> Shot_off_screen HEIGHT (Shot_move (-10) \<lparr>x = 0, y = 500, mask = [(0, 0)], img = JESUS_SHOT\<rparr>)
   \<and> Shot_collision (Shot_move (-10) \<lparr>x = 0, y = 500, mask = [(0, 0)], img = JESUS_SHOT\<rparr>)
       (Character_init 0 490 100 SATAN SATAN_SHOT [(0, 0)])
   \<and> length (shots (fst (Player_move_shot (-10) [Character_init 0 490 100 SATAN SATAN_SHOT [(0, 0)]]
         ((Player_init sample_assets 370 570 100)\<lparr>shots := [\<lparr>x = 0, y = 500, mask = [(0, 0)], img = JESUS_SHOT\<rparr>]\<rparr>)))) < 1
   \<and> length (snd (Player_move_shot (-10) [Character_init 0 490 100 SATAN SATAN_SHOT [(0, 0)]]
         ((Player_init sample_assets 370 570 100)\<lparr>shots := [\<lparr>x = 0, y = 500, mask = [(0, 0)], img = JESUS_SHOT\<rparr>]\<rparr>))) < 1"
proof -
  have off: "\<not> Shot_off_screen HEIGHT (Shot_move (-10) \<lparr>x = 0, y = 500, mask = [(0, 0)], img = JESUS_SHOT\<rparr>)"
    by (simp add: Shot_off_screen_def HEIGHT_def)
  have hit: "Shot_collision (Shot_move (-10) \<lparr>x = 0, y = 500, mask = [(0, 0)], img = JESUS_SHOT\<rparr>)
       (Character_init 0 490 100 SATAN SATAN_SHOT [(0, 0)])"
    by (simp add: Shot_collision_def collide_def mask_overlap_def Character_init_def)
  show ?thesis
    using off hit Player_move_shot_hit [OF _ off,
        where p = "(Player_init sample_assets 370 570 100)\<lparr>shots := [\<lparr>x = 0, y = 500, mask = [(0, 0)], img = JESUS_SHOT\<rparr>]\<rparr>"
        and ss = "[]" and objs = "[Character_init 0 490 100 SATAN SATAN_SHOT [(0, 0)]]"]
    by simp
qed

text \<open>
  C38: the health bar is not clamped: when the player's health is negative (it
  can be, between the damage of a frame and the check at the start of the next)
  the width of the green bar that \<open>health_bar\<close> draws is negative.
\<close>

theorem Player_health_bar_negative:
  assumes "health p < 0" and "0 < max_health p" and "0 < surface_width A (char_img p)"
  shows "Player_health_bar_width A p < 0"
proof -
  have w: "0 < real_of_int (surface_width A (char_img p))"
    using assms(3) by simp
  have "of_int (health p) / of_int (max_health p) < (0::real)"
    using assms(1,2) by (simp add: divide_neg_pos)
  then show ?thesis
    unfolding Player_health_bar_width_def by (rule mult_pos_neg [OF w])
qed

theorem Player_health_bar_negative_witness:
  "health ((Player_init sample_assets 370 570 100)\<lparr>health := -40\<rparr>) < 0
   \<and> 0 < max_health ((Player_init sample_assets 370 570 100)\<lparr>health := -40\<rparr>)
   \<and> 0 < surface_width sample_assets (char_img ((Player_init sample_assets 370 570 100)\<lparr>health := -40\<rparr>))
   \<and> Player_health_bar_width sample_assets ((Player_init sample_assets 370 570 100)\<lparr>health := -40\<rparr>) < 0"
proof -
  have h: "health ((Player_init sample_assets 370 570 100)\<lparr>health := -40\<rparr>) < 0"
     "0 < max_health ((Player_init sample_assets 370 570 100)\<lparr>health := -40\<rparr>)"
     "0 < surface_width sample_assets (char_img ((Player_init sample_assets 370 570 100)\<lparr>health := -40\<rparr>))"
    by (simp_all add: Player_init_def Character_init_def sample_assets_def character.defs player.defs)
  show ?thesis using h Player_health_bar_negative [OF h] by simp
qed

end
