(* ===== verification/Enemy.thy ===== *)
theory Enemy
  imports Character
begin

text \<open>
  The class \<open>Enemy\<close> of \<open>src/main.py\<close> (lines 128--141).  An enemy adds no
  attribute to \<open>Character\<close> but the mask, so its state is a \<open>character\<close>.
  The class dictionary \<open>ENEMY_MAP\<close> is a map from kind names to the pair of
  images; the constructor's lookup \<open>self.ENEMY_MAP[enemy]\<close> raises
  \<open>KeyError\<close> for an unknown kind, which is the \<open>Inl\<close> branch of
  \<open>Enemy_init\<close>.  The lemmas show when the constructor fails and that the kind
  only selects images: two enemies built at the same place differ in nothing else.
\<close>

type_synonym enemy = character

definition ENEMY_MAP :: "string \<rightharpoonup> img \<times> img" where
  "ENEMY_MAP =
     [''satan'' \<mapsto> (SATAN, SATAN_SHOT),
      ''judas'' \<mapsto> (JUDAS, JUDAS_SHOT),
      ''centurion'' \<mapsto> (CENTURION, CENTURION_SHOT)]"

definition Enemy_init :: "assets \<Rightarrow> int \<Rightarrow> int \<Rightarrow> string \<Rightarrow> int \<Rightarrow> exc + enemy" where
  "Enemy_init A x0 y0 kind hp =
     (case ENEMY_MAP kind of
        None \<Rightarrow> Inl (KeyError kind)
      | Some (ci, si) \<Rightarrow> Inr (Character_init x0 y0 hp ci si (surface_mask A ci)))"

definition Enemy_move :: "int \<Rightarrow> enemy \<Rightarrow> enemy" where
  "Enemy_move vel e = e\<lparr>y := y e + vel\<rparr>"

lemma dom_ENEMY_MAP: "dom ENEMY_MAP = {''satan'', ''judas'', ''centurion''}"
  by (auto simp: ENEMY_MAP_def)

lemma Enemy_init_Inr:
  "Enemy_init A x0 y0 kind hp = Inr e \<longleftrightarrow>
   (\<exists>ci si. ENEMY_MAP kind = Some (ci, si) \<and> e = Character_init x0 y0 hp ci si (surface_mask A ci))"
  by (auto simp: Enemy_init_def split: option.splits)

lemma Enemy_move_fields [simp]:
  "y (Enemy_move vel e) = y e + vel" "x (Enemy_move vel e) = x e" "mask (Enemy_move vel e) = mask e"
  "health (Enemy_move vel e) = health e" "shots (Enemy_move vel e) = shots e"
  "cool_down_counter (Enemy_move vel e) = cool_down_counter e"
  "char_img (Enemy_move vel e) = char_img e" "shot_img (Enemy_move vel e) = shot_img e"
  by (simp_all add: Enemy_move_def)

text \<open>
  C36: constructing an enemy fails exactly for a kind outside the catalogue
  \<open>satan\<close>, \<open>judas\<close>, \<open>centurion\<close>, and then with \<open>KeyError\<close> of that kind.
\<close>

theorem Enemy_init_error:
  "Enemy_init A x0 y0 kind hp = Inl err \<longleftrightarrow>
   err = KeyError kind \<and> kind \<notin> {''satan'', ''judas'', ''centurion''}"
proof -
  have "ENEMY_MAP kind = None \<longleftrightarrow> kind \<notin> {''satan'', ''judas'', ''centurion''}"
    using dom_ENEMY_MAP by blast
  then show ?thesis
    by (auto simp: Enemy_init_def split: option.splits)
qed

text \<open>
  C37: the kind is cosmetic: two enemies constructed at the same position with
  the same health differ at most in their images and mask.
\<close>

theorem Enemy_init_kind_cosmetic:
  assumes "Enemy_init A x0 y0 k1 hp = Inr e1" and "Enemy_init A x0 y0 k2 hp = Inr e2"
  shows "e2 = e1\<lparr>char_img := char_img e2, shot_img := shot_img e2, mask := mask e2\<rparr>"
  using assms by (auto simp: Enemy_init_Inr Character_init_def)

theorem Enemy_init_kind_cosmetic_witness:
  "Enemy_init sample_assets 100 (-50) ''satan'' 100 =
     Inr (Character_init 100 (-50) 100 SATAN SATAN_SHOT (surface_mask sample_assets SATAN))
   \<and> Enemy_init sample_assets 100 (-50) ''judas'' 100 =
     Inr (Character_init 100 (-50) 100 JUDAS JUDAS_SHOT (surface_mask sample_assets JUDAS))
   \<and> Character_init 100 (-50) 100 JUDAS JUDAS_SHOT (surface_mask sample_assets JUDAS) =
     (Character_init 100 (-50) 100 SATAN SATAN_SHOT (surface_mask sample_assets SATAN))
       \<lparr>char_img := JUDAS, shot_img := JUDAS_SHOT, mask := surface_mask sample_assets JUDAS\<rparr>"
proof -
  have h1: "Enemy_init sample_assets 100 (-50) ''satan'' 100 =
     Inr (Character_init 100 (-50) 100 SATAN SATAN_SHOT (surface_mask sample_assets SATAN))"
    by (simp add: Enemy_init_def ENEMY_MAP_def)
  have h2: "Enemy_init sample_assets 100 (-50) ''judas'' 100 =
     Inr (Character_init 100 (-50) 100 JUDAS JUDAS_SHOT (surface_mask sample_assets JUDAS))"
    by (simp add: Enemy_init_def ENEMY_MAP_def)
  show ?thesis
    using h1 h2 Enemy_init_kind_cosmetic [OF h1 h2] by (simp add: Character_init_def)
qed

end
