(* ===== verification/Game.thy ===== *)
theory Game
  imports Player Enemy
begin

text \<open>
  The game loop \<open>main\<close> of \<open>src/main.py\<close> (lines 150--252).  Its local
  variables are the record \<open>game_state\<close>; one pass of \<open>while run:\<close> is
  \<open>frame\<close>, composed as the code orders it: \<open>life_check\<close> (lines 198--204),
  the lost gate (206--210), \<open>spawn_wave\<close> (212--219), the quit event (221--223)
  and \<open>gameplay\<close>: \<open>handle_keys\<close> (225--235), \<open>enemies_loop\<close> (237--250)
  and the player's \<open>move_shot\<close> (252).  What the frame reads from the outside
  world is a \<open>frame_input\<close>: the pressed keys, the quit event and the random
  draws (\<open>random.randrange\<close> for the spawn position and the fire roll,
  \<open>random.choice\<close> for the kind), indexed by the enemy they are drawn for.
  \<open>main_loop\<close> runs the loop over a finite list of frame inputs; a raised
  exception (\<open>KeyError\<close>, \<open>SystemExit\<close> from \<open>quit()\<close>) ends it as \<open>Inl\<close>.
  \<open>reachable\<close> is the set of states the loop can reach from \<open>main_init\<close>;
  the invariants are proved by rule induction over it, one preservation lemma per
  invariant and frame.
\<close>

record game_state =
  run :: bool
  level :: int
  resurrections :: int
  player :: player
  enemies :: "enemy list"
  wave_length :: int
  lost :: bool
  lost_count :: nat

record frame_input =
  key_a :: bool
  key_d :: bool
  key_w :: bool
  key_s :: bool
  key_space :: bool
  quit_event :: bool
  spawn_x :: "nat \<Rightarrow> int"
  spawn_y :: "nat \<Rightarrow> int"
  spawn_kind :: "nat \<Rightarrow> string"
  fire_roll :: "nat \<Rightarrow> int"

definition fps :: nat where "fps = 60"
definition player_vel :: int where "player_vel = 10"
definition enemy_vel :: int where "enemy_vel = 2"
definition shot_vel :: int where "shot_vel = 5"

definition main_init :: "assets \<Rightarrow> game_state" where
  "main_init A =
     \<lparr>run = True, level = 0, resurrections = 9, player = Player_init A 370 570 100,
      enemies = [], wave_length = 5, lost = False, lost_count = 0\<rparr>"

definition life_check :: "game_state \<Rightarrow> game_state" where
  "life_check s =
     (let s1 = (if health (player s) \<le> 0
                then s\<lparr>resurrections := resurrections s - 1,
                       player := (player s)\<lparr>health := max_health (player s)\<rparr>\<rparr>
                else s)
      in if resurrections s1 \<le> 0 then s1\<lparr>lost := True, lost_count := lost_count s1 + 1\<rparr> else s1)"

fun spawn_enemies :: "assets \<Rightarrow> frame_input \<Rightarrow> nat list \<Rightarrow> exc + enemy list" where
  "spawn_enemies A inp [] = Inr []"
| "spawn_enemies A inp (i # is) =
     (case Enemy_init A (spawn_x inp i) (spawn_y inp i) (spawn_kind inp i) 100 of
        Inl err \<Rightarrow> Inl err
      | Inr e \<Rightarrow> (case spawn_enemies A inp is of Inl err \<Rightarrow> Inl err | Inr es \<Rightarrow> Inr (e # es)))"

definition spawn_wave :: "assets \<Rightarrow> frame_input \<Rightarrow> game_state \<Rightarrow> exc + game_state" where
  "spawn_wave A inp s =
     (if enemies s = [] then
        (let s1 = s\<lparr>level := level s + 1, wave_length := wave_length s + 3\<rparr>
         in case spawn_enemies A inp [0..<nat (wave_length s1)] of
              Inl err \<Rightarrow> Inl err
            | Inr es \<Rightarrow> Inr (s1\<lparr>enemies := enemies s1 @ es\<rparr>))
      else Inr s)"

definition handle_keys :: "assets \<Rightarrow> frame_input \<Rightarrow> player \<Rightarrow> player" where
  "handle_keys A inp p0 =
     (let p1 = (if key_a inp \<and> x p0 - player_vel \<ge> -30 then p0\<lparr>x := x p0 - player_vel\<rparr> else p0);
          p2 = (if key_d inp \<and> x p1 + player_vel + Character_get_width A p1 \<le> WIDTH + 30
                then p1\<lparr>x := x p1 + player_vel\<rparr> else p1);
          p3 = (if key_w inp \<and> y p2 - player_vel \<ge> 0 then p2\<lparr>y := y p2 - player_vel\<rparr> else p2);
          p4 = (if key_s inp \<and> y p3 + player_vel + Character_get_height A p3 \<le> HEIGHT - 30
                then p3\<lparr>y := y p3 + player_vel\<rparr> else p3)
      in if key_space inp then Character_shoot A p4 else p4)"

fun enemies_loop ::
  "assets \<Rightarrow> frame_input \<Rightarrow> nat \<Rightarrow> enemy list \<Rightarrow> player \<Rightarrow> int \<Rightarrow> enemy list \<times> player \<times> int" where
  "enemies_loop A inp k [] p res = ([], p, res)"
| "enemies_loop A inp k (e # es) p res =
     (let e1 = Enemy_move enemy_vel e;
          (e2, p1) = Character_move_shot shot_vel p e1;
          e3 = (if fire_roll inp k = 1 then Character_shoot A e2 else e2)
      in if collide e3 p1
         then enemies_loop A inp (Suc k) es (p1\<lparr>health := health p1 - 50\<rparr>) res
         else if y e3 + Character_get_height A e3 > HEIGHT + 155
         then enemies_loop A inp (Suc k) es p1 (res - 1)
         else (case enemies_loop A inp (Suc k) es p1 res of
                 (es', p', res') \<Rightarrow> (e3 # es', p', res')))"

definition gameplay :: "assets \<Rightarrow> frame_input \<Rightarrow> game_state \<Rightarrow> game_state" where
  "gameplay A inp s =
     (let p5 = handle_keys A inp (player s);
          (es, p6, res) = enemies_loop A inp 0 (enemies s) p5 (resurrections s);
          (p7, es') = Player_move_shot (- shot_vel * 2) es p6
      in s\<lparr>player := p7, enemies := es', resurrections := res\<rparr>)"

definition frame :: "assets \<Rightarrow> frame_input \<Rightarrow> game_state \<Rightarrow> exc + game_state" where
  "frame A inp s =
     (let s2 = life_check s
      in if lost s2 \<and> \<not> lost_count s2 > fps * 3 then Inr s2
         else
           (let s3 = (if lost s2 then s2\<lparr>run := False\<rparr> else s2)
            in case spawn_wave A inp s3 of
                 Inl err \<Rightarrow> Inl err
               | Inr s4 \<Rightarrow> if quit_event inp then Inl SystemExit else Inr (gameplay A inp s4)))"

fun main_loop :: "assets \<Rightarrow> frame_input list \<Rightarrow> game_state \<Rightarrow> exc + game_state" where
  "main_loop A [] s = Inr s"
| "main_loop A (inp # inps) s =
     (if run s then (case frame A inp s of Inl err \<Rightarrow> Inl err | Inr s' \<Rightarrow> main_loop A inps s')
      else Inr s)"

inductive reachable :: "assets \<Rightarrow> game_state \<Rightarrow> bool" for A :: assets where
  start: "reachable A (main_init A)"
| step: "reachable A s \<Longrightarrow> run s \<Longrightarrow> frame A inp s = Inr s' \<Longrightarrow> reachable A s'"

definition player_in_bounds :: "assets \<Rightarrow> 'a character_scheme \<Rightarrow> bool" where
  "player_in_bounds A p \<longleftrightarrow>
     -30 \<le> x p \<and> x p + Character_get_width A p \<le> WIDTH + 30 \<and>
     0 \<le> y p \<and> y p + Character_get_height A p \<le> HEIGHT - 30"

definition cooldowns_ok :: "game_state \<Rightarrow> bool" where
  "cooldowns_ok s \<longleftrightarrow>
     cool_down_counter (player s) \<le> COOLDOWN \<and> (\<forall>e \<in> set (enemies s). cool_down_counter e \<le> COOLDOWN)"

definition player_ok :: "assets \<Rightarrow> game_state \<Rightarrow> bool" where
  "player_ok A s \<longleftrightarrow> player_in_bounds A (player s) \<and> char_img (player s) = JESUS"

definition life_ok :: "game_state \<Rightarrow> bool" where
  "life_ok s \<longleftrightarrow>
     health (player s) \<le> max_health (player s) \<and> max_health (player s) = 100 \<and>
     (lost s \<longleftrightarrow> 0 < lost_count s) \<and> (lost s \<longrightarrow> resurrections s \<le> 0) \<and> resurrections s \<le> 9"

definition idle_input :: frame_input where
  "idle_input =
     \<lparr>key_a = False, key_d = False, key_w = False, key_s = False, key_space = False,
      quit_event = False, spawn_x = (\<lambda>i. 50 + 100 * int i), spawn_y = (\<lambda>_. -1000),
      spawn_kind = (\<lambda>_. ''judas''), fire_roll = (\<lambda>_. 0)\<rparr>"

lemma gameplay_fields [simp]:
  "run (gameplay A inp s) = run s" "level (gameplay A inp s) = level s"
  "wave_length (gameplay A inp s) = wave_length s" "lost (gameplay A inp s) = lost s"
  "lost_count (gameplay A inp s) = lost_count s"
  by (simp_all add: gameplay_def Let_def split: prod.split)

lemma spawn_wave_Inr:
  "spawn_wave A inp s = Inr s' \<Longrightarrow>
   s' = s\<lparr>level := level s', wave_length := wave_length s', enemies := enemies s'\<rparr>"
  by (auto simp: spawn_wave_def Let_def split: if_splits sum.splits)

lemma life_check_fields [simp]:
  "run (life_check s) = run s" "level (life_check s) = level s"
  "wave_length (life_check s) = wave_length s" "enemies (life_check s) = enemies s"
  by (simp_all add: life_check_def Let_def)

lemma life_check_lost:
  "resurrections s \<le> 0 \<Longrightarrow> lost (life_check s) \<and> lost_count (life_check s) = Suc (lost_count s)
     \<and> resurrections (life_check s) \<le> 0"
  by (simp add: life_check_def Let_def)

lemma frame_Inr_cases:
  assumes "frame A inp s = Inr s'"
  shows "(lost (life_check s) \<and> lost_count (life_check s) \<le> fps * 3 \<and> s' = life_check s) \<or>
         (\<exists>s4. spawn_wave A inp (if lost (life_check s) then (life_check s)\<lparr>run := False\<rparr> else life_check s) = Inr s4
               \<and> \<not> quit_event inp \<and> s' = gameplay A inp s4
               \<and> (lost (life_check s) \<longrightarrow> fps * 3 < lost_count (life_check s)))"
  using assms by (auto simp: frame_def Let_def split: if_splits sum.splits)

lemma main_loop_stopped: "\<not> run s \<Longrightarrow> main_loop A inps s = Inr s"
  by (cases inps) simp_all

lemma frame_final_stops:
  assumes "lost (life_check s)" and "fps * 3 < lost_count (life_check s)" and "frame A inp s = Inr s'"
  shows "\<not> run s'"
proof -
  from frame_Inr_cases [OF assms(3)] assms(1,2) obtain s4 where
    s4: "spawn_wave A inp ((life_check s)\<lparr>run := False\<rparr>) = Inr s4" and s': "s' = gameplay A inp s4"
    by auto
  have "run s4 = False" by (subst spawn_wave_Inr [OF s4]) simp
  with s' show ?thesis by simp
qed

text \<open>
  C3: once the resurrections are used up, the loop ends: from any state with
  \<open>resurrections \<le> 0\<close>, at most \<open>181 - lost_count\<close> further frames end the run,
  either with \<open>run = False\<close> or with an exception.
\<close>

theorem main_loop_ends:
  assumes "resurrections s \<le> 0" and "180 - lost_count s < length inps"
  shows "case main_loop A inps s of Inl err \<Rightarrow> True | Inr s' \<Rightarrow> \<not> run s'"
  using assms
proof (induction inps arbitrary: s)
  case Nil
  then show ?case by simp
next
  case (Cons inp inps)
  show ?case
  proof (cases "run s")
    case False
    then show ?thesis by simp
  next
    case True
    note lc = life_check_lost [OF Cons.prems(1)]
    show ?thesis
    proof (cases "frame A inp s")
      case (Inl err)
      with True show ?thesis by simp
    next
      case (Inr s')
      show ?thesis
      proof (cases "lost_count (life_check s) \<le> fps * 3")
        case True
        with lc Inr have "s' = life_check s"
          by (auto simp: frame_def Let_def)
        moreover have "180 - lost_count (life_check s) < length inps"
          using Cons.prems(2) True lc by (simp add: fps_def)
        ultimately have "case main_loop A inps s' of Inl err \<Rightarrow> True | Inr s'' \<Rightarrow> \<not> run s''"
          using lc Cons.IH [of s'] by simp
        with \<open>run s\<close> Inr show ?thesis by simp
      next
        case False
        then have "\<not> run s'" using frame_final_stops [OF _ _ Inr] lc by simp
        with \<open>run s\<close> Inr show ?thesis by (simp add: main_loop_stopped)
      qed
    qed
  qed
qed


theorem main_loop_ends_witness:
  "resurrections ((main_init sample_assets)\<lparr>resurrections := 0\<rparr>) \<le> 0 \<and>
   180 - lost_count ((main_init sample_assets)\<lparr>resurrections := 0\<rparr>) < length (replicate 181 idle_input) \<and>
   (case main_loop sample_assets (replicate 181 idle_input) ((main_init sample_assets)\<lparr>resurrections := 0\<rparr>) of
      Inl err \<Rightarrow> True | Inr s' \<Rightarrow> \<not> run s')"
proof -
  have h: "resurrections ((main_init sample_assets)\<lparr>resurrections := 0\<rparr>) \<le> 0"
    "180 - lost_count ((main_init sample_assets)\<lparr>resurrections := 0\<rparr>) < length (replicate 181 idle_input)"
    by (simp_all add: main_init_def)
  show ?thesis using h main_loop_ends [OF h, of sample_assets] by blast
qed

lemma enemies_loop_player:
  "\<exists>h. fst (snd (enemies_loop A inp k es p res)) = p\<lparr>health := h\<rparr> \<and> h \<le> health p"
proof (induction A inp k es p res rule: enemies_loop.induct)
  case (2 A inp k e es p res)
  obtain h1 where h1: "snd (Character_move_shot shot_vel p (Enemy_move enemy_vel e)) = p\<lparr>health := h1\<rparr>" "h1 \<le> health p"
    using Character_move_shot_target by blast
  show ?case
    using "2.IH" h1 by (fastforce simp: Let_def split: prod.split)
qed (auto intro!: exI [of _ "health p" for p])


lemma enemies_loop_res:
  "snd (snd (enemies_loop A inp k es p res)) \<le> res"
  by (induction A inp k es p res rule: enemies_loop.induct)
     (fastforce simp: Let_def split: prod.split)+

lemma enemies_loop_cooldown:
  "\<forall>e \<in> set es. cool_down_counter e \<le> COOLDOWN \<Longrightarrow>
   \<forall>e \<in> set (fst (enemies_loop A inp k es p res)). cool_down_counter e \<le> COOLDOWN"
proof (induction A inp k es p res rule: enemies_loop.induct)
  case (2 A inp k e es p res)
  have "cool_down_counter (fst (Character_move_shot shot_vel p (Enemy_move enemy_vel e))) \<le> COOLDOWN"
    using "2.prems" by (simp add: Character_counter_le)
  then have "cool_down_counter (if fire_roll inp k = 1
      then Character_shoot A (fst (Character_move_shot shot_vel p (Enemy_move enemy_vel e)))
      else fst (Character_move_shot shot_vel p (Enemy_move enemy_vel e))) \<le> COOLDOWN"
    by (simp add: Character_counter_le)
  with "2.IH" "2.prems" show ?case
    by (auto simp: Let_def split: prod.split)
qed simp

lemma spawn_enemies_Inr:
  "spawn_enemies A inp is = Inr es \<Longrightarrow>
   length es = length is \<and> (\<forall>e \<in> set es. cool_down_counter e = 0 \<and> shots e = [] \<and> health e = 100)"
  by (induction "is" arbitrary: es)
     (auto simp: Enemy_init_Inr Character_init_def split: sum.splits)

lemma spawn_wave_cases:
  assumes "spawn_wave A inp s = Inr s'"
  shows "s' = s \<or>
         (enemies s = [] \<and> level s' = level s + 1 \<and> wave_length s' = wave_length s + 3 \<and>
          spawn_enemies A inp [0..<nat (wave_length s + 3)] = Inr (enemies s'))"
  using assms by (auto simp: spawn_wave_def Let_def split: if_splits sum.splits)

lemma handle_keys_fields [simp]:
  "health (handle_keys A inp p) = health p" "max_health (handle_keys A inp p) = max_health p"
  "char_img (handle_keys A inp p) = char_img p"
  by (simp_all add: handle_keys_def Let_def Character_shoot_def)

lemma handle_keys_cooldown:
  "cool_down_counter p \<le> COOLDOWN \<Longrightarrow> cool_down_counter (handle_keys A inp p) \<le> COOLDOWN"
  by (simp add: handle_keys_def Let_def Character_counter_le)

lemma handle_keys_in_bounds:
  "player_in_bounds A p \<Longrightarrow> player_in_bounds A (handle_keys A inp p)"
  by (auto simp: handle_keys_def Let_def player_in_bounds_def Character_get_width_def
      Character_get_height_def Character_shoot_def player_vel_def)

lemma gameplay_parts:
  assumes "enemies_loop A inp 0 (enemies s) (handle_keys A inp (player s)) (resurrections s) = (es, p6, res)"
  shows "player (gameplay A inp s) = (Character_cooldown p6)\<lparr>shots := fst (pshots_pass (- (shot_vel * 2)) (shots p6) es)\<rparr>"
    "enemies (gameplay A inp s) = snd (pshots_pass (- (shot_vel * 2)) (shots p6) es)"
    "resurrections (gameplay A inp s) = res"
  using assms by (simp_all add: gameplay_def Player_move_shot_pass apfst_def map_prod_def split: prod.splits)

lemma gameplay_player:
  "\<exists>h ss. player (gameplay A inp s) =
     (Character_cooldown ((handle_keys A inp (player s))\<lparr>health := h\<rparr>))\<lparr>shots := ss\<rparr>
     \<and> h \<le> health (player s)"
proof -
  obtain es p6 res where el: "enemies_loop A inp 0 (enemies s) (handle_keys A inp (player s)) (resurrections s) = (es, p6, res)"
    by (cases "enemies_loop A inp 0 (enemies s) (handle_keys A inp (player s)) (resurrections s)")
  obtain h where h: "p6 = (handle_keys A inp (player s))\<lparr>health := h\<rparr>" "h \<le> health (player s)"
    using enemies_loop_player [of A inp 0 "enemies s" "handle_keys A inp (player s)" "resurrections s"] el
    by auto
  show ?thesis
    using h gameplay_parts(1) [OF el] by blast
qed

lemma gameplay_resurrections: "resurrections (gameplay A inp s) \<le> resurrections s"
  using enemies_loop_res [of A inp 0 "enemies s" "handle_keys A inp (player s)" "resurrections s"]
  by (auto simp: gameplay_def split: prod.split)

lemma gameplay_enemies_cooldown:
  "\<forall>e \<in> set (enemies s). cool_down_counter e \<le> COOLDOWN \<Longrightarrow>
   \<forall>e \<in> set (enemies (gameplay A inp s)). cool_down_counter e \<le> COOLDOWN"
proof -
  assume a: "\<forall>e \<in> set (enemies s). cool_down_counter e \<le> COOLDOWN"
  obtain es p6 res where el: "enemies_loop A inp 0 (enemies s) (handle_keys A inp (player s)) (resurrections s) = (es, p6, res)"
    by (cases "enemies_loop A inp 0 (enemies s) (handle_keys A inp (player s)) (resurrections s)")
  have "\<forall>e \<in> set es. cool_down_counter e \<le> COOLDOWN"
    using enemies_loop_cooldown [OF a, of A inp 0 "handle_keys A inp (player s)" "resurrections s"] el by simp
  moreover have "set (enemies (gameplay A inp s)) \<subseteq> set es"
    using gameplay_parts(2) [OF el] pshots_pass_bounds(1) [of "- (shot_vel * 2)" "shots p6" es]
    by (simp add: subseq_set)
  ultimately show ?thesis by blast
qed


lemma frame_Inr_play:
  assumes "frame A inp s = Inr s'"
  obtains (suspended) "s' = life_check s"
  | (play) s4 where "spawn_wave A inp (if lost (life_check s) then (life_check s)\<lparr>run := False\<rparr> else life_check s) = Inr s4"
      "s' = gameplay A inp s4"
  using frame_Inr_cases [OF assms] by blast

lemma spawn_wave_fields:
  "spawn_wave A inp s = Inr s' \<Longrightarrow>
   player s' = player s \<and> run s' = run s \<and> lost s' = lost s \<and> lost_count s' = lost_count s \<and>
   resurrections s' = resurrections s"
  by (auto simp: spawn_wave_def Let_def split: if_splits sum.splits)

lemma frame_level:
  assumes "frame A inp s = Inr s'"
  shows "(level s' = level s \<and> wave_length s' = wave_length s) \<or>
         (level s' = level s + 1 \<and> wave_length s' = wave_length s + 3)"
  using assms
proof (cases rule: frame_Inr_play)
  case suspended
  then show ?thesis by simp
next
  case (play s4)
  from spawn_wave_cases [OF play(1)] play(2) show ?thesis
    by (auto split: if_splits)
qed

text \<open>
  C5: the wave counters keep the relation the code maintains: in every reachable
  state \<open>wave_length = 5 + 3 * level\<close> and \<open>level \<ge> 0\<close>.
\<close>

theorem reachable_wave_length:
  "reachable A s \<Longrightarrow> wave_length s = 5 + 3 * level s \<and> 0 \<le> level s"
proof (induction rule: reachable.induct)
  case start
  then show ?case by (simp add: main_init_def)
next
  case (step s inp s')
  from frame_level [OF step.hyps(3)] step.IH show ?case by auto
qed

theorem reachable_wave_length_witness:
  "reachable sample_assets (main_init sample_assets) \<and>
   wave_length (main_init sample_assets) = 5 + 3 * level (main_init sample_assets) \<and>
   0 \<le> level (main_init sample_assets)"
  using reachable.start reachable_wave_length [OF reachable.start] by blast

lemma life_check_player:
  "player (life_check s) = player s \<or> player (life_check s) = (player s)\<lparr>health := max_health (player s)\<rparr>"
  by (simp add: life_check_def Let_def)

lemma frame_cooldowns_ok:
  assumes "frame A inp s = Inr s'" and "cooldowns_ok s"
  shows "cooldowns_ok s'"
  using assms(1)
proof (cases rule: frame_Inr_play)
  case suspended
  with assms(2) life_check_player [of s] show ?thesis
    by (auto simp: cooldowns_ok_def)
next
  case (play s4)
  let ?s3 = "if lost (life_check s) then (life_check s)\<lparr>run := False\<rparr> else life_check s"
  have p3: "cool_down_counter (player ?s3) \<le> COOLDOWN" "\<forall>e \<in> set (enemies ?s3). cool_down_counter e \<le> COOLDOWN"
    using assms(2) life_check_player [of s] by (auto simp: cooldowns_ok_def)
  have p4: "cool_down_counter (player s4) \<le> COOLDOWN" "\<forall>e \<in> set (enemies s4). cool_down_counter e \<le> COOLDOWN"
    using p3 spawn_wave_fields [OF play(1)] spawn_wave_cases [OF play(1)]
    by (auto dest: spawn_enemies_Inr)
  obtain h ss where eq: "player (gameplay A inp s4) =
      (Character_cooldown ((handle_keys A inp (player s4))\<lparr>health := h\<rparr>))\<lparr>shots := ss\<rparr>"
    using gameplay_player by blast
  have "cool_down_counter (Character_cooldown ((handle_keys A inp (player s4))\<lparr>health := h\<rparr>)) \<le> COOLDOWN"
    by (rule Character_counter_le(1)) (simp add: handle_keys_cooldown p4(1))
  then have "cool_down_counter (player (gameplay A inp s4)) \<le> COOLDOWN"
    by (simp add: eq)
  with gameplay_enemies_cooldown [OF p4(2)] play(2) show ?thesis
    by (simp add: cooldowns_ok_def)
qed

text \<open>
  C6: in every reachable state the cooldown counters of the player and of every
  enemy are at most \<open>COOLDOWN\<close>.
\<close>

theorem reachable_cooldowns:
  "reachable A s \<Longrightarrow>
   cool_down_counter (player s) \<le> COOLDOWN \<and> (\<forall>e \<in> set (enemies s). cool_down_counter e \<le> COOLDOWN)"
proof -
  assume "reachable A s"
  then have "cooldowns_ok s"
  proof (induction rule: reachable.induct)
    case start
    then show ?case
      by (simp add: cooldowns_ok_def main_init_def Player_init_def Character_init_def character.defs player.defs)
  next
    case (step s inp s')
    then show ?case by (blast intro: frame_cooldowns_ok)
  qed
  then show ?thesis by (simp add: cooldowns_ok_def)
qed

theorem reachable_cooldowns_witness:
  "reachable sample_assets (main_init sample_assets) \<and>
   cool_down_counter (player (main_init sample_assets)) \<le> COOLDOWN \<and>
   list_all (\<lambda>e. cool_down_counter e \<le> COOLDOWN) (enemies (main_init sample_assets))"
  using reachable.start reachable_cooldowns [OF reachable.start, of sample_assets]
  by (simp add: list_all_iff)


lemma player_in_bounds_update [simp]:
  "player_in_bounds A ((Character_cooldown (p\<lparr>health := h\<rparr>))\<lparr>shots := ss\<rparr>) = player_in_bounds A p"
  "player_in_bounds A (p\<lparr>health := h\<rparr>) = player_in_bounds A p"
  by (simp_all add: player_in_bounds_def Character_get_width_def Character_get_height_def)

lemma frame_player_ok:
  assumes "frame A inp s = Inr s'" and "player_ok A s"
  shows "player_ok A s'"
  using assms(1)
proof (cases rule: frame_Inr_play)
  case suspended
  with assms(2) life_check_player [of s] show ?thesis
    by (auto simp: player_ok_def)
next
  case (play s4)
  have p4: "player_ok A s4"
    using assms(2) life_check_player [of s] spawn_wave_fields [OF play(1)]
    by (auto simp: player_ok_def split: if_splits)
  obtain h ss where eq: "player (gameplay A inp s4) =
      (Character_cooldown ((handle_keys A inp (player s4))\<lparr>health := h\<rparr>))\<lparr>shots := ss\<rparr>"
    using gameplay_player by blast
  have "player_in_bounds A (handle_keys A inp (player s4))"
    using p4 by (simp add: player_ok_def handle_keys_in_bounds)
  with p4 play(2) show ?thesis
    by (subst (asm) player_ok_def, simp add: player_ok_def eq)
qed

text \<open>
  C7: the movement guards of \<open>main\<close> keep the player on the field: if the
  player's sprite is at most 560 pixels wide and 300 high (so that the start
  position \<open>(370, 570)\<close> is inside the bounds), then in every reachable state
  \<open>-30 \<le> x\<close>, \<open>x + width \<le> WIDTH + 30\<close>, \<open>0 \<le> y\<close> and
  \<open>y + height \<le> HEIGHT - 30\<close>.
\<close>

theorem reachable_player_in_bounds:
  assumes "reachable A s"
    and "surface_width A JESUS \<le> 560" and "surface_height A JESUS \<le> 300"
  shows "player_in_bounds A (player s)"
proof -
  from assms(1) have "player_ok A s"
  proof (induction rule: reachable.induct)
    case start
    then show ?case using assms(2,3)
      by (simp add: player_ok_def player_in_bounds_def main_init_def Player_init_def Character_init_def
          character.defs player.defs Character_get_width_def Character_get_height_def WIDTH_def HEIGHT_def)
  next
    case (step s inp s')
    then show ?case by (blast intro: frame_player_ok)
  qed
  then show ?thesis by (simp add: player_ok_def)
qed

theorem reachable_player_in_bounds_witness:
  "reachable sample_assets (main_init sample_assets) \<and>
   surface_width sample_assets JESUS \<le> 560 \<and> surface_height sample_assets JESUS \<le> 300 \<and>
   player_in_bounds sample_assets (player (main_init sample_assets))"
proof -
  have h: "surface_width sample_assets JESUS \<le> 560" "surface_height sample_assets JESUS \<le> 300"
    by (simp_all add: sample_assets_def)
  show ?thesis using reachable.start h reachable_player_in_bounds [OF reachable.start h] by blast
qed

lemma life_check_life_ok: "life_ok s \<Longrightarrow> life_ok (life_check s)"
  by (auto simp: life_ok_def life_check_def Let_def)

lemma gameplay_life_ok: "life_ok s \<Longrightarrow> life_ok (gameplay A inp s)"
proof -
  assume a: "life_ok s"
  obtain h ss where eq: "player (gameplay A inp s) =
      (Character_cooldown ((handle_keys A inp (player s))\<lparr>health := h\<rparr>))\<lparr>shots := ss\<rparr>"
    and h: "h \<le> health (player s)"
    using gameplay_player by blast
  have "max_health (player (gameplay A inp s)) = max_health (player s)"
    "health (player (gameplay A inp s)) = h"
    by (simp_all add: eq Character_cooldown_def)
  with a h gameplay_resurrections [of A inp s] show ?thesis
    by (auto simp: life_ok_def)
qed

lemma frame_life_ok:
  assumes "frame A inp s = Inr s'" and "life_ok s"
  shows "life_ok s'"
  using assms(1)
proof (cases rule: frame_Inr_play)
  case suspended
  with assms(2) show ?thesis by (simp add: life_check_life_ok)
next
  case (play s4)
  have "life_ok s4"
    using life_check_life_ok [OF assms(2)] spawn_wave_fields [OF play(1)]
    by (auto simp: life_ok_def split: if_splits)
  with play(2) show ?thesis by (simp add: gameplay_life_ok)
qed

text \<open>
  C4: the health and life bookkeeping of \<open>main\<close>: in every reachable state the
  player's health is at most its maximum of 100, the game is lost exactly when the
  lost counter has started, a lost game has no resurrections left, and there are
  never more than the initial 9 resurrections.
\<close>

theorem reachable_life:
  "reachable A s \<Longrightarrow>
   health (player s) \<le> max_health (player s) \<and> max_health (player s) = 100 \<and>
   (lost s \<longleftrightarrow> 0 < lost_count s) \<and> (lost s \<longrightarrow> resurrections s \<le> 0) \<and> resurrections s \<le> 9"
proof -
  assume "reachable A s"
  then have "life_ok s"
  proof (induction rule: reachable.induct)
    case start
    then show ?case
      by (simp add: life_ok_def main_init_def Player_init_def Character_init_def character.defs player.defs)
  next
    case (step s inp s')
    then show ?case by (blast intro: frame_life_ok)
  qed
  then show ?thesis by (simp add: life_ok_def)
qed

theorem reachable_life_witness:
  "reachable sample_assets (main_init sample_assets) \<and>
   health (player (main_init sample_assets)) \<le> max_health (player (main_init sample_assets)) \<and>
   max_health (player (main_init sample_assets)) = 100 \<and>
   \<not> lost (main_init sample_assets) \<and> lost_count (main_init sample_assets) = 0 \<and>
   resurrections (main_init sample_assets) \<le> 9"
proof -
  have "lost (main_init sample_assets) = False" by (simp add: main_init_def)
  then show ?thesis
    using reachable.start reachable_life [OF reachable.start, of sample_assets] by simp
qed



text \<open>
  C25: the resurrection bookkeeping of the specification (section 8): with one
  resurrection left and the player's health at or below 0, the next frame spends
  the resurrection, restores the health to its maximum and enters the lost state;
  while the lost counter has not passed \<open>3 * fps\<close> that frame does nothing else.
\<close>

theorem frame_last_resurrection:
  assumes "resurrections s = 1" and "health (player s) \<le> 0" and "lost_count s < fps * 3"
  shows "frame A inp s =
     Inr (s\<lparr>resurrections := 0, player := (player s)\<lparr>health := max_health (player s)\<rparr>,
            lost := True, lost_count := Suc (lost_count s)\<rparr>)"
  using assms by (simp add: frame_def life_check_def Let_def)

theorem frame_last_resurrection_witness:
  "resurrections ((main_init sample_assets)\<lparr>resurrections := 1,
      player := (player (main_init sample_assets))\<lparr>health := -10\<rparr>\<rparr>) = 1 \<and>
   health (player ((main_init sample_assets)\<lparr>resurrections := 1,
      player := (player (main_init sample_assets))\<lparr>health := -10\<rparr>\<rparr>)) \<le> 0 \<and>
   lost_count ((main_init sample_assets)\<lparr>resurrections := 1,
      player := (player (main_init sample_assets))\<lparr>health := -10\<rparr>\<rparr>) < fps * 3 \<and>
   frame sample_assets idle_input ((main_init sample_assets)\<lparr>resurrections := 1,
      player := (player (main_init sample_assets))\<lparr>health := -10\<rparr>\<rparr>) =
     Inr ((main_init sample_assets)\<lparr>resurrections := 0,
      player := (player (main_init sample_assets))\<lparr>health := 100\<rparr>, lost := True, lost_count := 1\<rparr>)"
proof -
  let ?s = "(main_init sample_assets)\<lparr>resurrections := 1,
      player := (player (main_init sample_assets))\<lparr>health := -10\<rparr>\<rparr>"
  have h: "resurrections ?s = 1" "health (player ?s) \<le> 0" "lost_count ?s < fps * 3"
    by (simp_all add: main_init_def fps_def)
  show ?thesis
    using h frame_last_resurrection [OF h, of sample_assets idle_input]
    by (simp add: main_init_def Player_init_def Character_init_def character.defs player.defs)
qed

lemma Enemy_init_valid:
  "kind \<in> {''satan'', ''judas'', ''centurion''} \<Longrightarrow>
   \<exists>ci si. Enemy_init A x0 y0 kind hp = Inr (Character_init x0 y0 hp ci si (surface_mask A ci))"
proof -
  assume "kind \<in> {''satan'', ''judas'', ''centurion''}"
  then obtain ci si where "ENEMY_MAP kind = Some (ci, si)"
    using dom_ENEMY_MAP by (metis domD surj_pair)
  then show ?thesis by (intro exI [of _ ci] exI [of _ si]) (simp add: Enemy_init_def)
qed

lemma spawn_enemies_valid:
  "\<forall>i \<in> set is. spawn_kind inp i \<in> {''satan'', ''judas'', ''centurion''} \<Longrightarrow>
   \<exists>es. spawn_enemies A inp is = Inr es \<and>
     map (\<lambda>e. (x e, y e)) es = map (\<lambda>i. (spawn_x inp i, spawn_y inp i)) is"
proof (induction "is")
  case Nil
  then show ?case by simp
next
  case (Cons i "is")
  then obtain es where es: "spawn_enemies A inp is = Inr es"
      "map (\<lambda>e. (x e, y e)) es = map (\<lambda>i. (spawn_x inp i, spawn_y inp i)) is"
    by auto
  from Cons.prems obtain ci si where
    "Enemy_init A (spawn_x inp i) (spawn_y inp i) (spawn_kind inp i) 100 =
       Inr (Character_init (spawn_x inp i) (spawn_y inp i) 100 ci si (surface_mask A ci))"
    using Enemy_init_valid by fastforce
  with es show ?case by (simp add: Character_init_def)
qed

text \<open>
  C26: wave replenishment: when the enemy list is empty and the random kinds are
  drawn from the catalogue (as \<open>random.choice\<close> does), \<open>spawn_wave\<close> raises
  nothing, increments the level, grows the wave by 3 and spawns exactly
  \<open>wave_length\<close> enemies, at the drawn positions, in order.
\<close>

theorem spawn_wave_spawns:
  assumes "enemies s = []"
    and "\<forall>i < nat (wave_length s + 3). spawn_kind inp i \<in> {''satan'', ''judas'', ''centurion''}"
  shows "\<exists>s'. spawn_wave A inp s = Inr s' \<and> level s' = level s + 1 \<and>
     wave_length s' = wave_length s + 3 \<and>
     map (\<lambda>e. (x e, y e)) (enemies s') = map (\<lambda>i. (spawn_x inp i, spawn_y inp i)) [0..<nat (wave_length s + 3)]"
proof -
  obtain es where es: "spawn_enemies A inp [0..<nat (wave_length s + 3)] = Inr es"
      "map (\<lambda>e. (x e, y e)) es = map (\<lambda>i. (spawn_x inp i, spawn_y inp i)) [0..<nat (wave_length s + 3)]"
    using spawn_enemies_valid [of "[0..<nat (wave_length s + 3)]" inp A] assms(2) by auto
  then show ?thesis using assms(1) by (simp add: spawn_wave_def)
qed

theorem spawn_wave_spawns_witness:
  "enemies (main_init sample_assets) = [] \<and>
   (\<forall>i. spawn_kind idle_input i = ''judas'') \<and>
   (\<exists>s'. spawn_wave sample_assets idle_input (main_init sample_assets) = Inr s' \<and>
      level s' = level (main_init sample_assets) + 1 \<and>
      wave_length s' = wave_length (main_init sample_assets) + 3 \<and>
      map (\<lambda>e. (x e, y e)) (enemies s') =
        map (\<lambda>i. (spawn_x idle_input i, spawn_y idle_input i)) [0..<nat (wave_length (main_init sample_assets) + 3)])"
proof -
  have h: "enemies (main_init sample_assets) = []"
    "\<forall>i < nat (wave_length (main_init sample_assets) + 3).
      spawn_kind idle_input i \<in> {''satan'', ''judas'', ''centurion''}"
    by (simp_all add: main_init_def idle_input_def)
  have "\<forall>i. spawn_kind idle_input i = ''judas''" by (simp add: idle_input_def)
  then show ?thesis using h spawn_wave_spawns [OF h] by blast
qed

lemma spawn_enemies_Inl:
  "spawn_enemies A inp is = Inl err \<Longrightarrow>
   \<exists>i \<in> set is. err = KeyError (spawn_kind inp i) \<and> spawn_kind inp i \<notin> {''satan'', ''judas'', ''centurion''}"
proof (induction "is")
  case Nil
  then show ?case by simp
next
  case (Cons i "is")
  show ?case
  proof (cases "spawn_kind inp i \<in> {''satan'', ''judas'', ''centurion''}")
    case True
    obtain ci si where
      "Enemy_init A (spawn_x inp i) (spawn_y inp i) (spawn_kind inp i) 100 =
         Inr (Character_init (spawn_x inp i) (spawn_y inp i) 100 ci si (surface_mask A ci))"
      using Enemy_init_valid [OF True] by blast
    with Cons.prems have "spawn_enemies A inp is = Inl err"
      by (auto split: sum.splits)
    with Cons.IH show ?thesis by auto
  next
    case False
    then have "ENEMY_MAP (spawn_kind inp i) = None" using dom_ENEMY_MAP by blast
    with Cons.prems False show ?thesis by (simp add: Enemy_init_def)
  qed
qed

text \<open>
  C27: the only error a wave can raise is the \<open>KeyError\<close> of a drawn kind that
  is not in the catalogue; it propagates out of the frame.
\<close>

theorem spawn_wave_error:
  "spawn_wave A inp s = Inl err \<Longrightarrow>
   \<exists>i < nat (wave_length s + 3). err = KeyError (spawn_kind inp i) \<and>
      spawn_kind inp i \<notin> {''satan'', ''judas'', ''centurion''}"
  by (auto simp: spawn_wave_def Let_def split: if_splits sum.splits dest!: spawn_enemies_Inl)

theorem spawn_wave_error_witness:
  "spawn_wave sample_assets (idle_input\<lparr>spawn_kind := (\<lambda>_. ''pilate'')\<rparr>) (main_init sample_assets) =
     Inl (KeyError ''pilate'') \<and>
   (\<exists>i < nat (wave_length (main_init sample_assets) + 3).
      KeyError ''pilate'' = KeyError (spawn_kind (idle_input\<lparr>spawn_kind := (\<lambda>_. ''pilate'')\<rparr>) i) \<and>
      spawn_kind (idle_input\<lparr>spawn_kind := (\<lambda>_. ''pilate'')\<rparr>) i \<notin> {''satan'', ''judas'', ''centurion''})"
proof -
  have h: "spawn_wave sample_assets (idle_input\<lparr>spawn_kind := (\<lambda>_. ''pilate'')\<rparr>) (main_init sample_assets) =
     Inl (KeyError ''pilate'')"
    by (simp add: spawn_wave_def main_init_def Enemy_init_def ENEMY_MAP_def upt_rec)
  show ?thesis using h spawn_wave_error [OF h] by blast
qed


text \<open>
  C28: the lost countdown does not end the loop by itself: in the frame where
  \<open>lost_count\<close> passes \<open>3 * fps\<close>, \<open>main\<close> sets \<open>run = False\<close> but, having
  no \<open>break\<close> or \<open>continue\<close> there, still runs that frame's gameplay, e.g. it
  spawns a new wave (the level increases) before the loop exits.
\<close>

theorem frame_after_countdown_plays:
  assumes "resurrections s \<le> 0" and "lost_count s = fps * 3" and "enemies s = []"
    and "\<forall>i < nat (wave_length s + 3). spawn_kind inp i \<in> {''satan'', ''judas'', ''centurion''}"
    and "\<not> quit_event inp"
  shows "\<exists>s'. frame A inp s = Inr s' \<and> \<not> run s' \<and> level s' = level s + 1"
proof -
  note lc = life_check_lost [OF assms(1)]
  let ?s3 = "(life_check s)\<lparr>run := False\<rparr>"
  obtain es where es: "spawn_enemies A inp [0..<nat (wave_length s + 3)] = Inr es"
    using spawn_enemies_valid [of "[0..<nat (wave_length s + 3)]" inp A] assms(4) by auto
  have sw: "spawn_wave A inp ?s3 =
      Inr (?s3\<lparr>level := level s + 1, wave_length := wave_length s + 3, enemies := es\<rparr>)"
    using es assms(3) by (simp add: spawn_wave_def)
  have "frame A inp s = Inr (gameplay A inp (?s3\<lparr>level := level s + 1, wave_length := wave_length s + 3, enemies := es\<rparr>))"
    using lc assms(2,5) sw by (simp add: frame_def fps_def)
  then show ?thesis by simp
qed

theorem frame_after_countdown_plays_witness:
  "resurrections ((main_init sample_assets)\<lparr>resurrections := 0, lost := True, lost_count := 180\<rparr>) \<le> 0 \<and>
   lost_count ((main_init sample_assets)\<lparr>resurrections := 0, lost := True, lost_count := 180\<rparr>) = fps * 3 \<and>
   enemies ((main_init sample_assets)\<lparr>resurrections := 0, lost := True, lost_count := 180\<rparr>) = [] \<and>
   (\<forall>i. spawn_kind idle_input i = ''judas'') \<and>
   \<not> quit_event idle_input \<and>
   (\<exists>s'. frame sample_assets idle_input ((main_init sample_assets)\<lparr>resurrections := 0, lost := True, lost_count := 180\<rparr>) = Inr s'
      \<and> \<not> run s' \<and> level s' = level ((main_init sample_assets)\<lparr>resurrections := 0, lost := True, lost_count := 180\<rparr>) + 1)"
proof -
  let ?s = "(main_init sample_assets)\<lparr>resurrections := 0, lost := True, lost_count := 180\<rparr>"
  have h: "resurrections ?s \<le> 0" "lost_count ?s = fps * 3" "enemies ?s = []"
    "\<forall>i < nat (wave_length ?s + 3). spawn_kind idle_input i \<in> {''satan'', ''judas'', ''centurion''}"
    "\<not> quit_event idle_input"
    by (simp_all add: main_init_def fps_def idle_input_def)
  have "\<forall>i. spawn_kind idle_input i = ''judas''" by (simp add: idle_input_def)
  then show ?thesis using h frame_after_countdown_plays [OF h, of sample_assets] by blast
qed

lemma frame_Inl:
  assumes "frame A inp s = Inl err"
    and "\<forall>i. spawn_kind inp i \<in> {''satan'', ''judas'', ''centurion''}"
  shows "err = SystemExit"
proof (cases "spawn_wave A inp (if lost (life_check s) then (life_check s)\<lparr>run := False\<rparr> else life_check s)")
  case (Inl e)
  then obtain es where "spawn_enemies A inp es = Inl e"
    by (auto simp: spawn_wave_def Let_def split: if_splits sum.splits)
  with assms(2) show ?thesis by (auto dest: spawn_enemies_Inl)
next
  case (Inr s4)
  with assms(1) show ?thesis by (auto simp: frame_def Let_def split: if_splits)
qed

text \<open>
  C13: the game raises no \<open>KeyError\<close>: the kinds \<open>main\<close> spawns are drawn by
  \<open>random.choice\<close> from the catalogue itself, so a run of the loop can end in an
  exception only through the quit event (\<open>SystemExit\<close> from \<open>quit()\<close>).
\<close>

theorem main_loop_raises_only_quit:
  assumes "main_loop A inps s = Inl err"
    and "\<forall>inp \<in> set inps. \<forall>i. spawn_kind inp i \<in> {''satan'', ''judas'', ''centurion''}"
  shows "err = SystemExit"
  using assms
proof (induction inps arbitrary: s)
  case Nil
  then show ?case by simp
next
  case (Cons inp inps)
  show ?case
  proof (cases "frame A inp s")
    case (Inl e)
    with Cons.prems show ?thesis by (auto split: if_splits dest: frame_Inl)
  next
    case (Inr s')
    with Cons.prems Cons.IH [of s'] show ?thesis by (auto split: if_splits)
  qed
qed

theorem main_loop_raises_only_quit_witness:
  "main_loop sample_assets [idle_input\<lparr>quit_event := True\<rparr>] (main_init sample_assets) = Inl SystemExit \<and>
   (\<forall>i. spawn_kind (idle_input\<lparr>quit_event := True\<rparr>) i = ''judas'')"
proof -
  have k: "\<forall>i. spawn_kind (idle_input\<lparr>quit_event := True\<rparr>) i = ''judas''"
    by (simp add: idle_input_def)
  have r: "main_loop sample_assets [idle_input\<lparr>quit_event := True\<rparr>] (main_init sample_assets) = Inl SystemExit"
    by (simp add: frame_def life_check_def spawn_wave_def main_init_def Player_init_def Character_init_def
        character.defs player.defs idle_input_def Enemy_init_def ENEMY_MAP_def upt_rec Let_def)
  show ?thesis
    using k r main_loop_raises_only_quit [OF r] by simp
qed

text \<open>
  C22: the movement keys undo each other: with \<open>a\<close> and \<open>d\<close> held and the
  step to the left allowed by its guard, \<open>handle_keys\<close> moves the player left
  and back, so the player stays where it was.
\<close>

theorem handle_keys_left_right:
  assumes "key_a inp" and "key_d inp" and "\<not> key_w inp" and "\<not> key_s inp" and "\<not> key_space inp"
    and "-30 \<le> x p - player_vel" and "x p + Character_get_width A p \<le> WIDTH + 30"
  shows "handle_keys A inp p = p"
  using assms by (simp add: handle_keys_def Let_def Character_get_width_def)

theorem handle_keys_left_right_witness:
  "key_a (idle_input\<lparr>key_a := True, key_d := True\<rparr>) \<and> key_d (idle_input\<lparr>key_a := True, key_d := True\<rparr>) \<and>
   \<not> key_w (idle_input\<lparr>key_a := True, key_d := True\<rparr>) \<and> \<not> key_s (idle_input\<lparr>key_a := True, key_d := True\<rparr>) \<and>
   \<not> key_space (idle_input\<lparr>key_a := True, key_d := True\<rparr>) \<and>
   -30 \<le> x (player (main_init sample_assets)) - player_vel \<and>
   x (player (main_init sample_assets)) + Character_get_width sample_assets (player (main_init sample_assets)) \<le> WIDTH + 30 \<and>
   handle_keys sample_assets (idle_input\<lparr>key_a := True, key_d := True\<rparr>) (player (main_init sample_assets)) =
     player (main_init sample_assets)"
proof -
  have h: "key_a (idle_input\<lparr>key_a := True, key_d := True\<rparr>)" "key_d (idle_input\<lparr>key_a := True, key_d := True\<rparr>)"
    "\<not> key_w (idle_input\<lparr>key_a := True, key_d := True\<rparr>)" "\<not> key_s (idle_input\<lparr>key_a := True, key_d := True\<rparr>)"
    "\<not> key_space (idle_input\<lparr>key_a := True, key_d := True\<rparr>)"
    "-30 \<le> x (player (main_init sample_assets)) - player_vel"
    "x (player (main_init sample_assets)) + Character_get_width sample_assets (player (main_init sample_assets)) \<le> WIDTH + 30"
    by (simp_all add: idle_input_def main_init_def Player_init_def Character_init_def character.defs player.defs
        player_vel_def Character_get_width_def sample_assets_def WIDTH_def)
  show ?thesis using h handle_keys_left_right [OF h] by simp
qed

end
