(* ===== verification/Scenario.thy ===== *)
theory Scenario
  imports Game
begin

text \<open>
  Frames of \<open>main\<close> without player action (\<open>idle_input\<close>: no key, no quit
  event, no enemy fire roll of 1), and the specification's scenarios as runs of
  \<open>main_loop\<close>.  An enemy is quiet for a frame when it owns no shots, is ready
  to fire, and after its move neither touches the player nor passes the bottom
  line \<open>HEIGHT + 155\<close>; in a frame where every enemy is quiet the only change
  is that every enemy descends by \<open>enemy_vel\<close>.  The lemmas then give the
  frame in which an enemy escapes at the bottom, the frame of a body collision,
  and whole runs of quiet frames, from which the end-to-end scenario of the
  specification (one enemy at \<open>(100, -50)\<close>, 800 frames) is computed.
\<close>

definition enemy_quiet :: "assets \<Rightarrow> player \<Rightarrow> enemy \<Rightarrow> bool" where
  "enemy_quiet A p e \<longleftrightarrow>
     shots e = [] \<and> cool_down_counter e = 0 \<and> \<not> collide (Enemy_move enemy_vel e) p \<and>
     y e + enemy_vel + Character_get_height A e \<le> HEIGHT + 155"

definition player_idle :: "player \<Rightarrow> bool" where
  "player_idle p \<longleftrightarrow> shots p = [] \<and> cool_down_counter p = 0"

definition descend :: "nat \<Rightarrow> enemy \<Rightarrow> enemy" where
  "descend n e = e\<lparr>y := y e + int n * enemy_vel\<rparr>"

definition scenario_enemy :: enemy where
  "scenario_enemy = Character_init 100 (-50) 100 SATAN SATAN_SHOT (surface_mask sample_assets SATAN)"

definition scenario_start :: game_state where
  "scenario_start = (main_init sample_assets)\<lparr>enemies := [scenario_enemy]\<rparr>"

definition rammer :: enemy where
  "rammer = Character_init 370 469 100 SATAN SATAN_SHOT (surface_mask sample_assets SATAN)"

definition crossfire_assets :: assets where
  "crossfire_assets =
     \<lparr>surface_mask = (\<lambda>im. if im = SATAN then [(0, 15), (5, 29)]
                          else if im = JESUS then [(5, 0), (5, 1), (5, 2)]
                          else map (\<lambda>i. (0, int i)) [0..<11]),
      surface_width = (\<lambda>_. 10),
      surface_height = (\<lambda>_. 30)\<rparr>"

definition crossfire_state :: game_state where
  "crossfire_state =
     (main_init crossfire_assets)\<lparr>player := (player (main_init crossfire_assets))\<lparr>
        shots := [Shot_init crossfire_assets 370 560 JESUS_SHOT], cool_down_counter := 2\<rparr>,
      enemies := [Character_init 370 540 100 SATAN SATAN_SHOT (surface_mask crossfire_assets SATAN)]\<rparr>"

definition scenario_wave :: "enemy list" where
  "scenario_wave =
     map (\<lambda>i. Character_init (50 + 100 * int i) (-1000) 100 JUDAS JUDAS_SHOT (surface_mask sample_assets JUDAS))
       [0..<8]"

lemma Character_move_shot_idle:
  "shots c = [] \<Longrightarrow> cool_down_counter c = 0 \<Longrightarrow> Character_move_shot vel obj c = (c, obj)"
  by (simp add: Character_move_shot_pass Character_cooldown_def)

lemma Player_move_shot_idle:
  "player_idle p \<Longrightarrow> Player_move_shot vel objs p = (p, objs)"
  by (simp add: player_idle_def Player_move_shot_pass Character_cooldown_def)

lemma handle_keys_idle: "handle_keys A idle_input p = p"
  by (simp add: handle_keys_def idle_input_def)

lemma enemy_quiet_health [simp]: "enemy_quiet A (p\<lparr>health := h\<rparr>) = enemy_quiet A p"
  by (simp add: enemy_quiet_def collide_def fun_eq_iff)

lemma enemies_loop_quiet:
  "list_all (enemy_quiet A p) es \<Longrightarrow>
   enemies_loop A idle_input k es p res = (map (Enemy_move enemy_vel) es, p, res)"
proof (induction es arbitrary: k)
  case Nil
  then show ?case by simp
next
  case (Cons e es)
  then have q: "shots e = []" "cool_down_counter e = 0" "\<not> collide (Enemy_move enemy_vel e) p"
      "\<not> HEIGHT + 155 < y e + enemy_vel + Character_get_height A e"
    by (simp_all add: enemy_quiet_def)
  have "Character_move_shot shot_vel p (Enemy_move enemy_vel e) = (Enemy_move enemy_vel e, p)"
    using q by (simp add: Character_move_shot_idle)
  with q Cons show ?case
    by (simp add: Let_def idle_input_def Character_get_height_def)
qed

lemma gameplay_quiet:
  assumes "player_idle (player s)" and "list_all (enemy_quiet A (player s)) (enemies s)"
  shows "gameplay A idle_input s = s\<lparr>enemies := map (Enemy_move enemy_vel) (enemies s)\<rparr>"
  using assms
  by (simp add: gameplay_def handle_keys_idle enemies_loop_quiet Player_move_shot_idle)

lemma life_check_alive: "0 < health (player s) \<Longrightarrow> 0 < resurrections s \<Longrightarrow> life_check s = s"
  by (simp add: life_check_def Let_def)

lemma frame_alive:
  assumes "0 < health (player s)" and "0 < resurrections s" and "\<not> lost s" and "enemies s \<noteq> []"
  shows "frame A idle_input s = Inr (gameplay A idle_input s)"
  using assms by (simp add: frame_def life_check_alive spawn_wave_def idle_input_def)

lemma descend_0 [simp]: "descend 0 = (\<lambda>e. e)"
  by (simp add: descend_def fun_eq_iff)

lemma descend_descend [simp]: "descend m (descend n e) = descend (m + n) e"
  by (simp add: descend_def algebra_simps)

lemma descend_comp [simp]: "descend m \<circ> descend n = descend (m + n)"
  by (simp add: fun_eq_iff)

lemma descend_one: "descend 1 = Enemy_move enemy_vel" "descend (Suc 0) = Enemy_move enemy_vel"
  by (simp_all add: descend_def Enemy_move_def fun_eq_iff)

lemma descend_Enemy_move [simp]: "descend n (Enemy_move enemy_vel e) = descend (Suc n) e"
  by (simp add: descend_def Enemy_move_def algebra_simps)

lemma descend_fields [simp]:
  "y (descend n e) = y e + int n * enemy_vel" "x (descend n e) = x e" "mask (descend n e) = mask e"
  "shots (descend n e) = shots e" "cool_down_counter (descend n e) = cool_down_counter e"
  "char_img (descend n e) = char_img e" "health (descend n e) = health e"
  by (simp_all add: descend_def)

lemma main_loop_quiet:
  assumes "run s" and "0 < health (player s)" and "0 < resurrections s" and "\<not> lost s"
    and "enemies s \<noteq> []" and "player_idle (player s)"
    and "\<forall>j < n. list_all (enemy_quiet A (player s)) (map (descend j) (enemies s))"
  shows "main_loop A (replicate n idle_input @ inps) s =
         main_loop A inps (s\<lparr>enemies := map (descend n) (enemies s)\<rparr>)"
  using assms
proof (induction n arbitrary: s)
  case 0
  then show ?case by (simp add: comp_def)
next
  case (Suc n)
  let ?s' = "s\<lparr>enemies := map (Enemy_move enemy_vel) (enemies s)\<rparr>"
  have q0: "list_all (enemy_quiet A (player s)) (enemies s)"
    using Suc.prems(7) [rule_format, of 0] by (simp add: comp_def)
  have fr: "frame A idle_input s = Inr ?s'"
    using Suc.prems(2-6) q0 by (simp add: frame_alive gameplay_quiet)
  have "\<forall>j < n. list_all (enemy_quiet A (player ?s')) (map (descend j) (enemies ?s'))"
    using Suc.prems(7) by (simp add: comp_def)
  then have "main_loop A (replicate n idle_input @ inps) ?s' =
         main_loop A inps (?s'\<lparr>enemies := map (descend n) (enemies ?s')\<rparr>)"
    using Suc.prems(1-6) by (intro Suc.IH) simp_all
  then show ?case using Suc.prems(1) fr by (simp add: comp_def)
qed

lemma enemies_loop_first_idle:
  assumes "shots e = []" and "cool_down_counter e = 0"
  shows "enemies_loop A idle_input k (e # es) p res =
     (if collide (Enemy_move enemy_vel e) p
      then enemies_loop A idle_input (Suc k) es (p\<lparr>health := health p - 50\<rparr>) res
      else if HEIGHT + 155 < y e + enemy_vel + Character_get_height A e
      then enemies_loop A idle_input (Suc k) es p (res - 1)
      else (case enemies_loop A idle_input (Suc k) es p res of
              (es', p', res') \<Rightarrow> (Enemy_move enemy_vel e # es', p', res')))"
  using assms by (simp add: Let_def idle_input_def Character_move_shot_idle Character_get_height_def)

lemma gameplay_escape:
  assumes "enemies s = e # es" and "player_idle (player s)"
    and "shots e = []" and "cool_down_counter e = 0" and "\<not> collide (Enemy_move enemy_vel e) (player s)"
    and "HEIGHT + 155 < y e + enemy_vel + Character_get_height A e"
    and "list_all (enemy_quiet A (player s)) es"
  shows "gameplay A idle_input s =
     s\<lparr>enemies := map (Enemy_move enemy_vel) es, resurrections := resurrections s - 1\<rparr>"
proof -
  have "enemies_loop A idle_input 0 (enemies s) (player s) (resurrections s) =
      (map (Enemy_move enemy_vel) es, player s, resurrections s - 1)"
    using assms(1,3-7) by (simp add: enemies_loop_first_idle enemies_loop_quiet del: enemies_loop.simps)
  with assms(2) show ?thesis
    by (simp add: gameplay_def handle_keys_idle Player_move_shot_idle)
qed

lemma gameplay_body_hit:
  assumes "enemies s = e # es" and "player_idle (player s)"
    and "shots e = []" and "cool_down_counter e = 0" and "collide (Enemy_move enemy_vel e) (player s)"
    and "list_all (enemy_quiet A (player s)) es"
  shows "gameplay A idle_input s =
     s\<lparr>player := (player s)\<lparr>health := health (player s) - 50\<rparr>, enemies := map (Enemy_move enemy_vel) es\<rparr>"
proof -
  have "enemies_loop A idle_input 0 (enemies s) (player s) (resurrections s) =
      (map (Enemy_move enemy_vel) es, (player s)\<lparr>health := health (player s) - 50\<rparr>, resurrections s)"
    using assms(1,3-6) by (simp add: enemies_loop_first_idle enemies_loop_quiet del: enemies_loop.simps)
  moreover have "player_idle ((player s)\<lparr>health := health (player s) - 50\<rparr>)"
    using assms(2) by (simp add: player_idle_def)
  ultimately show ?thesis
    by (simp add: gameplay_def handle_keys_idle Player_move_shot_idle)
qed

lemma sample_mask_bounded:
  "\<forall>p \<in> set (surface_mask sample_assets i). 0 \<le> fst p \<and> fst p < 100 \<and> 0 \<le> snd p \<and> snd p < 100"
  by (simp add: sample_assets_def)

lemma enemy_quiet_sample:
  assumes "mask e = surface_mask sample_assets i" and "mask p = surface_mask sample_assets j"
    and "shots e = []" and "cool_down_counter e = 0"
    and "100 \<le> \<bar>x e - x p\<bar> \<or> 100 \<le> \<bar>y e + enemy_vel - y p\<bar>"
    and "y e + enemy_vel + 100 \<le> HEIGHT + 155"
  shows "enemy_quiet sample_assets p e"
proof -
  have "\<not> collide (Enemy_move enemy_vel e) p"
    using assms(1,2,5) sample_mask_bounded [of i] sample_mask_bounded [of j]
    by (intro collide_far [where w = 100 and h = 100]) simp_all
  with assms(3,4,6) show ?thesis
    by (simp add: enemy_quiet_def Character_get_height_def sample_assets_def)
qed

lemma scenario_enemy_init: "Enemy_init sample_assets 100 (-50) ''satan'' 100 = Inr scenario_enemy"
  by (simp add: Enemy_init_def ENEMY_MAP_def scenario_enemy_def)

lemma scenario_descent:
  "main_loop sample_assets (replicate 502 idle_input @ inps) scenario_start =
   main_loop sample_assets inps (scenario_start\<lparr>enemies := [descend 502 scenario_enemy]\<rparr>)"
proof -
  have "\<forall>j < 502. list_all (enemy_quiet sample_assets (player scenario_start))
      (map (descend j) (enemies scenario_start))"
  proof (intro allI impI)
    fix j :: nat
    assume "j < 502"
    then show "list_all (enemy_quiet sample_assets (player scenario_start)) (map (descend j) (enemies scenario_start))"
      by (simp add: enemy_quiet_sample scenario_start_def scenario_enemy_def main_init_def Player_init_def
          Character_init_def character.defs player.defs enemy_vel_def HEIGHT_def)
  qed
  moreover have "run scenario_start" "0 < health (player scenario_start)" "0 < resurrections scenario_start"
    "\<not> lost scenario_start" "enemies scenario_start \<noteq> []" "player_idle (player scenario_start)"
    by (simp_all add: scenario_start_def main_init_def Player_init_def Character_init_def player_idle_def
          character.defs player.defs)
  ultimately show ?thesis
    using main_loop_quiet [of scenario_start 502 sample_assets inps] by (simp add: scenario_start_def)
qed

lemma scenario_escape_step:
  "frame sample_assets idle_input (scenario_start\<lparr>enemies := [descend 502 scenario_enemy]\<rparr>) =
   Inr (scenario_start\<lparr>enemies := [], resurrections := 8\<rparr>)"
proof -
  let ?s = "scenario_start\<lparr>enemies := [descend 502 scenario_enemy]\<rparr>"
  have g: "gameplay sample_assets idle_input ?s =
      ?s\<lparr>enemies := map (Enemy_move enemy_vel) [], resurrections := resurrections ?s - 1\<rparr>"
    by (rule gameplay_escape [where e = "descend 502 scenario_enemy" and es = "[]"])
      (simp_all add: scenario_start_def scenario_enemy_def main_init_def Player_init_def Character_init_def
        player_idle_def character.defs player.defs collide_def mask_overlap_def sample_assets_def
        Character_get_height_def enemy_vel_def HEIGHT_def)
  have "frame sample_assets idle_input ?s = Inr (gameplay sample_assets idle_input ?s)"
    by (rule frame_alive)
      (simp_all add: scenario_start_def main_init_def Player_init_def Character_init_def
        character.defs player.defs)
  with g show ?thesis by (simp add: scenario_start_def main_init_def)
qed

lemma scenario_spawn_wave:
  "spawn_wave sample_assets idle_input (scenario_start\<lparr>enemies := [], resurrections := 8\<rparr>) =
   Inr (scenario_start\<lparr>enemies := scenario_wave, resurrections := 8, level := 1, wave_length := 8\<rparr>)"
  by (simp add: spawn_wave_def scenario_start_def main_init_def scenario_wave_def idle_input_def
      Enemy_init_def ENEMY_MAP_def upt_rec)

lemma scenario_wave_quiet:
  "j < 298 \<Longrightarrow>
   list_all (enemy_quiet sample_assets (player scenario_start)) (map (descend j) scenario_wave)"
  by (simp add: enemy_quiet_sample scenario_wave_def list_all_iff scenario_start_def main_init_def
      Player_init_def Character_init_def character.defs player.defs enemy_vel_def HEIGHT_def)

lemma scenario_wave_step:
  "frame sample_assets idle_input (scenario_start\<lparr>enemies := [], resurrections := 8\<rparr>) =
   Inr (scenario_start\<lparr>enemies := map (descend 1) scenario_wave, resurrections := 8, level := 1,
          wave_length := 8\<rparr>)"
proof -
  let ?s4 = "scenario_start\<lparr>enemies := scenario_wave, resurrections := 8, level := 1, wave_length := 8\<rparr>"
  have g: "gameplay sample_assets idle_input ?s4 = ?s4\<lparr>enemies := map (Enemy_move enemy_vel) scenario_wave\<rparr>"
    using scenario_wave_quiet [of 0]
    by (intro trans [OF gameplay_quiet]) (simp_all add: player_idle_def scenario_start_def main_init_def
      Player_init_def Character_init_def character.defs player.defs)
  have "life_check (scenario_start\<lparr>enemies := [], resurrections := 8\<rparr>) =
      scenario_start\<lparr>enemies := [], resurrections := 8\<rparr>"
    by (rule life_check_alive) (simp_all add: scenario_start_def main_init_def Player_init_def
      Character_init_def character.defs player.defs)
  with g scenario_spawn_wave show ?thesis
    by (simp add: frame_def idle_input_def scenario_start_def main_init_def descend_one)
qed

lemma scenario_wave_descent:
  "main_loop sample_assets (replicate 296 idle_input)
     (scenario_start\<lparr>enemies := map (descend 1) scenario_wave, resurrections := 8, level := 1, wave_length := 8\<rparr>) =
   Inr (scenario_start\<lparr>enemies := map (descend 297) scenario_wave, resurrections := 8, level := 1, wave_length := 8\<rparr>)"
proof -
  let ?s = "scenario_start\<lparr>enemies := map (descend 1) scenario_wave, resurrections := 8, level := 1, wave_length := 8\<rparr>"
  have d: "map (descend j) (map (descend 1) scenario_wave) = map (descend (Suc j)) scenario_wave" for j
    by simp
  have q: "\<forall>j < 296. list_all (enemy_quiet sample_assets (player ?s)) (map (descend j) (enemies ?s))"
    using scenario_wave_quiet by (simp add: d)
  have "main_loop sample_assets (replicate 296 idle_input @ []) ?s =
      main_loop sample_assets [] (?s\<lparr>enemies := map (descend 296) (enemies ?s)\<rparr>)"
    using q by (intro main_loop_quiet) (simp_all add: player_idle_def scenario_start_def main_init_def
      Player_init_def Character_init_def character.defs player.defs scenario_wave_def)
  then show ?thesis by (simp add: d)
qed


lemma Player_move_shot_no_enemies:
  "snd (Player_move_shot vel ([] :: enemy list) p) = [] \<and>
   health (fst (Player_move_shot vel ([] :: enemy list) p)) = health p"
  using pshots_pass_bounds(1) [of vel "shots p" "[]"]
  by (cases "pshots_pass vel (shots p) []") (auto simp: Player_move_shot_pass Character_cooldown_def dest: list_emb_Nil2)

text \<open>
  C9: an enemy that passes the bottom line \<open>HEIGHT + 155\<close> without touching the
  player is removed and costs one resurrection; the player's health is unchanged
  and the other enemies only descend.
\<close>

theorem frame_enemy_escapes:
  assumes "0 < health (player s)" and "0 < resurrections s" and "\<not> lost s"
    and "enemies s = e # es" and "player_idle (player s)"
    and "shots e = []" and "cool_down_counter e = 0"
    and "\<not> collide (Enemy_move enemy_vel e) (player s)"
    and "HEIGHT + 155 < y e + enemy_vel + Character_get_height A e"
    and "list_all (enemy_quiet A (player s)) es"
  shows "frame A idle_input s =
     Inr (s\<lparr>enemies := map (Enemy_move enemy_vel) es, resurrections := resurrections s - 1\<rparr>)"
  using assms by (simp add: frame_alive gameplay_escape)

theorem frame_enemy_escapes_witness:
  "0 < health (player (scenario_start\<lparr>enemies := [descend 502 scenario_enemy]\<rparr>)) \<and>
   0 < resurrections (scenario_start\<lparr>enemies := [descend 502 scenario_enemy]\<rparr>) \<and>
   \<not> lost (scenario_start\<lparr>enemies := [descend 502 scenario_enemy]\<rparr>) \<and>
   enemies (scenario_start\<lparr>enemies := [descend 502 scenario_enemy]\<rparr>) = [descend 502 scenario_enemy] \<and>
   player_idle (player (scenario_start\<lparr>enemies := [descend 502 scenario_enemy]\<rparr>)) \<and>
   shots (descend 502 scenario_enemy) = [] \<and> cool_down_counter (descend 502 scenario_enemy) = 0 \<and>
   \<not> collide (Enemy_move enemy_vel (descend 502 scenario_enemy))
       (player (scenario_start\<lparr>enemies := [descend 502 scenario_enemy]\<rparr>)) \<and>
   HEIGHT + 155 < y (descend 502 scenario_enemy) + enemy_vel + Character_get_height sample_assets (descend 502 scenario_enemy) \<and>
   list_all (enemy_quiet sample_assets (player (scenario_start\<lparr>enemies := [descend 502 scenario_enemy]\<rparr>))) [] \<and>
   frame sample_assets idle_input (scenario_start\<lparr>enemies := [descend 502 scenario_enemy]\<rparr>) =
     Inr ((scenario_start\<lparr>enemies := [descend 502 scenario_enemy]\<rparr>)\<lparr>enemies := [],
       resurrections := resurrections (scenario_start\<lparr>enemies := [descend 502 scenario_enemy]\<rparr>) - 1\<rparr>)"
proof -
  let ?s = "scenario_start\<lparr>enemies := [descend 502 scenario_enemy]\<rparr>"
  have h: "0 < health (player ?s)" "0 < resurrections ?s" "\<not> lost ?s"
    "enemies ?s = [descend 502 scenario_enemy]" "player_idle (player ?s)"
    "shots (descend 502 scenario_enemy) = []" "cool_down_counter (descend 502 scenario_enemy) = 0"
    "\<not> collide (Enemy_move enemy_vel (descend 502 scenario_enemy)) (player ?s)"
    "HEIGHT + 155 < y (descend 502 scenario_enemy) + enemy_vel + Character_get_height sample_assets (descend 502 scenario_enemy)"
    "list_all (enemy_quiet sample_assets (player ?s)) []"
    by (simp_all add: scenario_start_def scenario_enemy_def main_init_def Player_init_def Character_init_def
        player_idle_def character.defs player.defs collide_def mask_overlap_def sample_assets_def
        Character_get_height_def enemy_vel_def HEIGHT_def)
  show ?thesis using h frame_enemy_escapes [OF h] by simp
qed

text \<open>
  C8: a body collision between an enemy and the player takes exactly 50 health
  points from the player and removes that enemy: the enemy list shrinks by exactly
  one, and nothing else changes but the descent of the other enemies.
\<close>

theorem frame_body_collision:
  assumes "0 < health (player s)" and "0 < resurrections s" and "\<not> lost s"
    and "enemies s = e # es" and "player_idle (player s)"
    and "shots e = []" and "cool_down_counter e = 0"
    and "collide (Enemy_move enemy_vel e) (player s)"
    and "list_all (enemy_quiet A (player s)) es"
  shows "frame A idle_input s =
     Inr (s\<lparr>player := (player s)\<lparr>health := health (player s) - 50\<rparr>,
            enemies := map (Enemy_move enemy_vel) es\<rparr>)"
  using assms by (simp add: frame_alive gameplay_body_hit)

theorem frame_body_collision_witness:
  "0 < health (player (scenario_start\<lparr>enemies := [rammer]\<rparr>)) \<and>
   0 < resurrections (scenario_start\<lparr>enemies := [rammer]\<rparr>)
   \<and> \<not> lost (scenario_start\<lparr>enemies := [rammer]\<rparr>) \<and>
   enemies (scenario_start\<lparr>enemies := [rammer]\<rparr>) = [rammer] \<and>
   player_idle (player (scenario_start\<lparr>enemies := [rammer]\<rparr>)) \<and>
   shots (rammer) = [] \<and> cool_down_counter (rammer) = 0 \<and>
   collide (Enemy_move enemy_vel (rammer))
       (player (scenario_start\<lparr>enemies := [rammer]\<rparr>)) \<and>
   list_all (enemy_quiet sample_assets (player (scenario_start\<lparr>enemies := [rammer]\<rparr>))) [] \<and>
   frame sample_assets idle_input (scenario_start\<lparr>enemies := [rammer]\<rparr>) =
     Inr ((scenario_start\<lparr>enemies := [rammer]\<rparr>)\<lparr>
       player := (player scenario_start)\<lparr>health := health (player scenario_start) - 50\<rparr>, enemies := []\<rparr>)"
proof -
  let ?s = "scenario_start\<lparr>enemies := [rammer]\<rparr>"
  have h: "0 < health (player ?s)" "0 < resurrections ?s" "\<not> lost ?s"
    "enemies ?s = [rammer]" "player_idle (player ?s)"
    "shots (rammer) = []" "cool_down_counter (rammer) = 0"
    "collide (Enemy_move enemy_vel (rammer)) (player ?s)"
    "list_all (enemy_quiet sample_assets (player ?s)) []"
    by (simp_all add: scenario_start_def rammer_def main_init_def Player_init_def Character_init_def
        player_idle_def character.defs player.defs collide_def mask_overlap_def sample_assets_def
        enemy_vel_def)
  show ?thesis using h frame_body_collision [OF h] by (simp add: scenario_start_def)
qed

text \<open>
  C10: the specification's end-to-end scenario, first part: one enemy spawned at
  \<open>(100, -50)\<close> descends 2 pixels per frame; after 502 frames without player
  action it is still on the field (above the line \<open>HEIGHT + 155\<close>), and frame
  503 removes it and takes one resurrection, with the player unchanged.
\<close>

theorem scenario_enemy_removed:
  "main_loop sample_assets (replicate 502 idle_input) scenario_start =
     Inr (scenario_start\<lparr>enemies := [descend 502 scenario_enemy]\<rparr>) \<and>
   y (descend 502 scenario_enemy) + Character_get_height sample_assets scenario_enemy \<le> HEIGHT + 155 \<and>
   main_loop sample_assets (replicate 503 idle_input) scenario_start =
     Inr (scenario_start\<lparr>enemies := [], resurrections := resurrections scenario_start - 1\<rparr>)"
proof -
  have r: "replicate 503 idle_input = replicate 502 idle_input @ [idle_input]"
    using replicate_append_same [of 502 idle_input] replicate_Suc [of 502 idle_input] by simp
  have "run (scenario_start\<lparr>enemies := es, resurrections := k\<rparr>)" for es k
    by (simp add: scenario_start_def main_init_def)
  then show ?thesis
    using scenario_descent [of "[]"] scenario_descent [of "[idle_input]"] scenario_escape_step
    by (simp add: r scenario_enemy_def scenario_start_def main_init_def Character_get_height_def
        Character_init_def sample_assets_def enemy_vel_def HEIGHT_def)
qed

text \<open>
  C11: the specification's end-to-end scenario over 800 frames: the enemy spawned
  at \<open>(100, -50)\<close> has escaped at the bottom (one resurrection spent), the
  player is unchanged, and the wave that replaced it (level 1, eight enemies at
  \<open>y = -1000\<close>, spawned in frame 504) has descended for 297 frames.
\<close>

theorem scenario_800_frames:
  "main_loop sample_assets (replicate 800 idle_input) scenario_start =
   Inr (scenario_start\<lparr>enemies := map (descend 297) scenario_wave, resurrections := 8, level := 1,
          wave_length := 8\<rparr>)"
proof -
  have r: "replicate 800 idle_input = replicate 502 idle_input @ idle_input # idle_input # replicate 296 idle_input"
    by (simp add: replicate_add [symmetric] numeral_eq_Suc)
  have run: "run (scenario_start\<lparr>enemies := es, resurrections := k\<rparr>)" for es k
    by (simp add: scenario_start_def main_init_def)
  show ?thesis
    unfolding r scenario_descent
    using scenario_escape_step scenario_wave_step scenario_wave_descent run
    by simp
qed

text \<open>
  C12: the order of resolution inside a frame.  \<open>main\<close> moves the enemies and
  checks body collisions (lines 237--250) before it resolves the player's shots
  (line 252), while the specification (sections 2 and 5) resolves the player's
  projectiles first.  So an enemy that reaches the player in a frame always rams
  it, whatever shots the player has in flight: the player loses 50 health points
  and the enemy is gone before any shot is tested.  The witness is the frame after
  the player fired from the start position \<open>(370, 570)\<close>: the shot is at
  \<open>y = 560\<close>, the enemy at \<open>y = 540\<close> (both on the grids of their speeds,
  neither touching in the frame before); in the specification's order the shot,
  moved to \<open>550\<close>, would have killed the enemy.
\<close>

theorem gameplay_body_before_player_shots:
  assumes "enemies s = [e]" and "shots e = []" and "cool_down_counter e = 0"
    and "collide (Enemy_move enemy_vel e) (player s)"
  shows "health (player (gameplay A idle_input s)) = health (player s) - 50 \<and>
    enemies (gameplay A idle_input s) = []"
proof -
  have "enemies_loop A idle_input 0 (enemies s) (player s) (resurrections s) =
      ([], (player s)\<lparr>health := health (player s) - 50\<rparr>, resurrections s)"
    using assms by (simp del: enemies_loop.simps add: enemies_loop_first_idle enemies_loop.simps(1))
  moreover obtain p7 es' where
    "Player_move_shot (- shot_vel * 2) ([] :: enemy list) ((player s)\<lparr>health := health (player s) - 50\<rparr>) = (p7, es')"
    by fastforce
  moreover note Player_move_shot_no_enemies [of "- shot_vel * 2" "(player s)\<lparr>health := health (player s) - 50\<rparr>"]
  ultimately show ?thesis
    by (simp add: gameplay_def handle_keys_idle)
qed

theorem gameplay_body_before_player_shots_witness:
  "\<not> collide (Shot_init crossfire_assets 370 560 JESUS_SHOT)
       (Character_init 370 540 100 SATAN SATAN_SHOT (surface_mask crossfire_assets SATAN)) \<and>
   \<not> collide (Character_init 370 540 100 SATAN SATAN_SHOT (surface_mask crossfire_assets SATAN))
       (player crossfire_state) \<and>
   enemies crossfire_state = [Character_init 370 540 100 SATAN SATAN_SHOT (surface_mask crossfire_assets SATAN)] \<and>
   shots (Character_init 370 540 100 SATAN SATAN_SHOT (surface_mask crossfire_assets SATAN)) = [] \<and>
   cool_down_counter (Character_init 370 540 100 SATAN SATAN_SHOT (surface_mask crossfire_assets SATAN)) = 0 \<and>
   collide (Enemy_move enemy_vel (Character_init 370 540 100 SATAN SATAN_SHOT (surface_mask crossfire_assets SATAN)))
     (player crossfire_state) \<and>
   snd (Player_move_shot (- shot_vel * 2) (enemies crossfire_state) (player crossfire_state)) = [] \<and>
   health (player (gameplay crossfire_assets idle_input crossfire_state)) = 50 \<and>
   enemies (gameplay crossfire_assets idle_input crossfire_state) = []"
proof -
  let ?e = "Character_init 370 540 100 SATAN SATAN_SHOT (surface_mask crossfire_assets SATAN)"
  have h: "enemies crossfire_state = [?e]" "shots ?e = []" "cool_down_counter ?e = 0"
    "collide (Enemy_move enemy_vel ?e) (player crossfire_state)"
    by (simp_all add: crossfire_state_def Character_init_def collide_def mask_overlap_def crossfire_assets_def
        main_init_def Player_init_def character.defs player.defs Enemy_move_def enemy_vel_def upt_rec)
  have k: "snd (Player_move_shot (- shot_vel * 2) (enemies crossfire_state) (player crossfire_state)) = []"
    by (simp add: Player_move_shot_pass crossfire_state_def Character_init_def Shot_init_def collide_def
        mask_overlap_def crossfire_assets_def main_init_def Player_init_def character.defs player.defs
        Shot_collision_def Shot_off_screen_def HEIGHT_def shot_vel_def Let_def upt_rec)
  have before: "\<not> collide (Shot_init crossfire_assets 370 560 JESUS_SHOT) ?e" "\<not> collide ?e (player crossfire_state)"
    by (simp_all add: crossfire_state_def Character_init_def Shot_init_def collide_def mask_overlap_def
        crossfire_assets_def main_init_def Player_init_def character.defs player.defs upt_rec)
  have p: "health (player crossfire_state) = 100"
    by (simp add: crossfire_state_def main_init_def Player_init_def Character_init_def character.defs player.defs)
  show ?thesis using before h k p gameplay_body_before_player_shots [OF h, of crossfire_assets] by simp
qed

end
