(* ===== verification/Liveness.thy ===== *)
theory Liveness
  imports Game
begin

text \<open>
  Liveness of \<open>main\<close>: a player who does nothing loses.  A frame input is
  passive (\<open>passive_input\<close>) when no key is pressed and no quit event arrives, while the random draws
  stay in the ranges the code draws them from (a kind of the catalogue, a spawn
  height of at least \<open>-1500\<close>); enemy fire is unrestricted.  Under passive
  input every frame makes progress in a lexicographic order: the lives
  (\<open>101 * resurrections + max 0 health\<close>) fall, or the player's shots in
  flight fall, or the frames the lowest enemy still needs to pass the bottom line
  fall.  Folded into one natural number (\<open>potential\<close>), this bounds the frames
  until the resurrections are used up, after which the lost countdown ends the run.
\<close>

definition passive_input :: "frame_input \<Rightarrow> bool" where
  "passive_input inp \<longleftrightarrow>
     \<not> key_a inp \<and> \<not> key_d inp \<and> \<not> key_w inp \<and> \<not> key_s inp \<and> \<not> key_space inp \<and>
     \<not> quit_event inp \<and> (\<forall>i. spawn_kind inp i \<in> {''satan'', ''judas'', ''centurion''}) \<and>
     (\<forall>i. -1500 \<le> spawn_y inp i)"

definition lives :: "game_state \<Rightarrow> int" where
  "lives s = 101 * resurrections s + max 0 (health (player s))"

definition shot_count :: "game_state \<Rightarrow> nat" where
  "shot_count s = length (shots (player s))"

definition esc :: "enemy \<Rightarrow> nat" where
  "esc e = nat ((HEIGHT + 155 - y e) div enemy_vel + 1)"

definition wave_time :: "game_state \<Rightarrow> nat" where
  "wave_time s =
     (if enemies s = [] then nat ((HEIGHT + 155 + 1500) div enemy_vel + 1) else Max (esc ` set (enemies s)))"

definition potential :: "nat \<Rightarrow> nat \<Rightarrow> game_state \<Rightarrow> nat" where
  "potential S0 B s = (nat (lives s) * (S0 + 1) + shot_count s) * (B + 1) + wave_time s"

definition run_measure :: "nat \<Rightarrow> nat \<Rightarrow> game_state \<Rightarrow> nat" where
  "run_measure S0 B s = (if resurrections s \<le> 0 then 181 - lost_count s else 182 + potential S0 B s)"

lemma hits_pass_present: "snd (hits_pass s os True) \<Longrightarrow> fst (hits_pass s os True) = os"
proof (induction os)
  case Nil
  then show ?case by simp
next
  case (Cons o1 os)
  then show ?case by (cases "Shot_collision s o1") (simp_all add: hits_pass_absent)
qed

lemma pshots_pass_kill:
  "length (snd (pshots_pass vel ss objs)) < length objs \<Longrightarrow> length (fst (pshots_pass vel ss objs)) < length ss"
  "length (snd (pshots_skip vel ss objs)) < length objs \<Longrightarrow> length (fst (pshots_skip vel ss objs)) < length ss"
proof (induction vel ss objs and vel ss objs rule: pshots_pass_pshots_skip.induct)
  case (2 vel s ss objs)
  obtain objs' present where h: "hits_pass (Shot_move vel s) objs True = (objs', present)"
    by (cases "hits_pass (Shot_move vel s) objs True")
  have sk: "length (fst (pshots_skip vel ss o')) \<le> length ss" for o'
    using pshots_pass_bounds(2) by blast
  show ?case
  proof (cases "Shot_off_screen HEIGHT (Shot_move vel s)")
    case True
    then show ?thesis using sk [of objs] by (simp add: Let_def le_imp_less_Suc)
  next
    case False
    show ?thesis
    proof (cases present)
      case True
      then have "objs' = objs" using hits_pass_present [of "Shot_move vel s" objs] h by simp
      with True False h "2.prems" "2.IH"(2) [OF refl False h [symmetric] True] show ?thesis
        by (simp add: Let_def)
    next
      case pF: False
      with False h sk [of objs'] show ?thesis by (simp add: Let_def le_imp_less_Suc)
    qed
  qed
qed auto

lemma Character_move_shot_fields:
  "y (fst (Character_move_shot vel obj c)) = y c" "char_img (fst (Character_move_shot vel obj c)) = char_img c"
  by (subst Character_move_shot_self, simp)+

lemma enemies_loop_progress:
  assumes "enemies_loop A inp k es p res = (es', p', res')"
  shows "(\<exists>h. p' = p\<lparr>health := h\<rparr> \<and> h \<le> health p) \<and> res' \<le> res \<and> length es' \<le> length es \<and>
    (length es' < length es \<longrightarrow> health p' < health p \<or> res' < res) \<and>
    (\<forall>e' \<in> set es'. \<exists>e \<in> set es. y e' = y e + enemy_vel \<and>
        y e' + Character_get_height A e' \<le> HEIGHT + 155)"
  using assms
proof (induction A inp k es p res arbitrary: es' p' res' rule: enemies_loop.induct)
  case (1 A inp k p res)
  then show ?case by (auto intro!: exI [of _ "health p"])
next
  case (2 A inp k e es p res)
  let ?e1 = "Enemy_move enemy_vel e"
  obtain e2 p1 where mv: "Character_move_shot shot_vel p ?e1 = (e2, p1)"
    by (cases "Character_move_shot shot_vel p ?e1")
  obtain h1 where h1: "p1 = p\<lparr>health := h1\<rparr>" "h1 \<le> health p"
    using Character_move_shot_target [of shot_vel p ?e1] mv by auto
  define e3 where "e3 = (if fire_roll inp k = 1 then Character_shoot A e2 else e2)"
  have e3: "y e3 = y e + enemy_vel" "char_img e3 = char_img e"
    using Character_move_shot_fields [of shot_vel p ?e1] mv
    by (simp_all add: e3_def Character_shoot_def)
  have step: "enemies_loop A inp k (e # es) p res =
     (if collide e3 p1 then enemies_loop A inp (Suc k) es (p1\<lparr>health := health p1 - 50\<rparr>) res
      else if y e3 + Character_get_height A e3 > HEIGHT + 155 then enemies_loop A inp (Suc k) es p1 (res - 1)
      else (case enemies_loop A inp (Suc k) es p1 res of (es', p', res') \<Rightarrow> (e3 # es', p', res')))"
    by (simp add: mv e3_def Let_def)
  show ?case
  proof (cases "collide e3 p1")
    case True
    with "2.prems" step have r: "enemies_loop A inp (Suc k) es (p1\<lparr>health := health p1 - 50\<rparr>) res = (es', p', res')"
      by simp
    from "2.IH"(1) [OF refl mv [symmetric] refl, of e3, simplified e3_def [symmetric], OF refl True r] h1
    show ?thesis by fastforce
  next
    case nc: False
    show ?thesis
    proof (cases "y e3 + Character_get_height A e3 > HEIGHT + 155")
      case True
      with nc "2.prems" step have r: "enemies_loop A inp (Suc k) es p1 (res - 1) = (es', p', res')"
        by simp
      from "2.IH"(2) [OF refl mv [symmetric] refl, of e3, simplified e3_def [symmetric], OF refl nc True r] h1
      show ?thesis by fastforce
    next
      case False
      obtain es'' where r: "enemies_loop A inp (Suc k) es p1 res = (es'', p', res')" "es' = e3 # es''"
        using nc False "2.prems" step by (auto split: prod.splits)
      from "2.IH"(3) [OF refl mv [symmetric] refl, of e3, simplified e3_def [symmetric], OF refl nc False r(1)] h1
        r(2) e3 False
      show ?thesis by (fastforce simp: Character_get_height_def)
    qed
  qed
qed

lemma handle_keys_passive: "passive_input inp \<Longrightarrow> handle_keys A inp p = p"
  by (simp add: passive_input_def handle_keys_def)

lemma spawn_wave_passive:
  assumes "passive_input inp"
  shows "\<exists>s4. spawn_wave A inp s = Inr s4 \<and>
     player s4 = player s \<and> resurrections s4 = resurrections s \<and> run s4 = run s \<and>
     lost s4 = lost s \<and> lost_count s4 = lost_count s \<and>
     (enemies s \<noteq> [] \<longrightarrow> enemies s4 = enemies s) \<and>
     (enemies s = [] \<longrightarrow> 0 < wave_length s + 3 \<longrightarrow>
        enemies s4 \<noteq> [] \<and> (\<forall>e \<in> set (enemies s4). -1500 \<le> y e))"
proof (cases "enemies s = []")
  case True
  let ?is = "[0..<nat (wave_length s + 3)]"
  obtain es where es: "spawn_enemies A inp ?is = Inr es"
      "map (\<lambda>e. (x e, y e)) es = map (\<lambda>i. (spawn_x inp i, spawn_y inp i)) ?is"
    using spawn_enemies_valid [of ?is inp A] assms by (auto simp: passive_input_def)
  have "\<forall>e \<in> set es. -1500 \<le> y e"
  proof
    fix e assume "e \<in> set es"
    then have "y e \<in> set (map snd (map (\<lambda>e. (x e, y e)) es))" by force
    then have "y e \<in> spawn_y inp ` set ?is" using es(2) by simp
    then show "-1500 \<le> y e" using assms by (auto simp: passive_input_def)
  qed
  moreover have "0 < wave_length s + 3 \<Longrightarrow> es \<noteq> []"
    using es(2) by (auto dest: arg_cong [where f = length])
  ultimately show ?thesis using True es(1) by (simp add: spawn_wave_def)
next
  case False
  then show ?thesis by (simp add: spawn_wave_def)
qed

lemma esc_step: "y e' = y e + enemy_vel \<Longrightarrow> y e' \<le> HEIGHT + 155 \<Longrightarrow> esc e' < esc e"
  by (simp add: esc_def enemy_vel_def HEIGHT_def)

lemma wave_time_empty: "enemies s = [] \<Longrightarrow> wave_time s = 1278"
  by (simp add: wave_time_def HEIGHT_def enemy_vel_def)

lemma wave_time_less:
  assumes "enemies s' \<noteq> []" and "\<forall>e' \<in> set (enemies s'). \<exists>e \<in> set (enemies s). esc e' < esc e"
  shows "wave_time s' < wave_time s"
proof -
  have ne: "enemies s \<noteq> []" using assms by (cases "enemies s'") auto
  have "\<forall>e' \<in> set (enemies s'). esc e' < Max (esc ` set (enemies s))"
    using assms(2) by (fastforce intro: less_le_trans Max_ge)
  then show ?thesis using assms(1) ne by (simp add: wave_time_def Max_less_iff)
qed

lemma wave_time_bound:
  assumes "\<forall>e' \<in> set (enemies s'). \<exists>e \<in> set (enemies s). esc e' < esc e"
  shows "wave_time s' \<le> max (wave_time s) 1278"
proof (cases "enemies s' = []")
  case True
  then show ?thesis by (simp add: wave_time_empty)
next
  case False
  then show ?thesis using wave_time_less [OF False assms] by simp
qed

lemma gameplay_progress:
  assumes "passive_input inp" and "\<forall>i. 0 \<le> surface_height A i" and "0 < health (player s)"
  shows "lives (gameplay A inp s) \<le> lives s \<and> shot_count (gameplay A inp s) \<le> shot_count s \<and>
    (\<forall>e' \<in> set (enemies (gameplay A inp s)). \<exists>e \<in> set (enemies s). esc e' < esc e) \<and>
    (lives (gameplay A inp s) = lives s \<and> shot_count (gameplay A inp s) = shot_count s \<longrightarrow>
       length (enemies (gameplay A inp s)) = length (enemies s))"
proof -
  have hk: "handle_keys A inp (player s) = player s" using assms(1) by (rule handle_keys_passive)
  obtain es p6 res6 where el: "enemies_loop A inp 0 (enemies s) (handle_keys A inp (player s)) (resurrections s) = (es, p6, res6)"
    by (cases "enemies_loop A inp 0 (enemies s) (handle_keys A inp (player s)) (resurrections s)")
  obtain h where p6: "p6 = (player s)\<lparr>health := h\<rparr>" "h \<le> health (player s)"
    and r6: "res6 \<le> resurrections s" and len: "length es \<le> length (enemies s)"
    and rm: "length es < length (enemies s) \<Longrightarrow> health p6 < health (player s) \<or> res6 < resurrections s"
    and ys: "\<forall>e' \<in> set es. \<exists>e \<in> set (enemies s). y e' = y e + enemy_vel \<and>
        y e' + Character_get_height A e' \<le> HEIGHT + 155"
    using enemies_loop_progress [OF el [unfolded hk]] by blast
  let ?pp = "pshots_pass (- (shot_vel * 2)) (shots p6) es"
  note g = gameplay_parts [OF el]
  have pb: "length (fst ?pp) \<le> length (shots p6)" "subseq (snd ?pp) es"
    using pshots_pass_bounds(1) by blast+
  have hs: "health (player (gameplay A inp s)) = h" "shot_count (gameplay A inp s) = length (fst ?pp)"
    using g(1) p6(1) by (simp_all add: shot_count_def Character_cooldown_def)
  have lv: "lives (gameplay A inp s) = 101 * res6 + max 0 h"
    using hs g(3) by (simp add: lives_def)
  have e1: "lives (gameplay A inp s) \<le> lives s"
    using lv r6 p6(2) by (simp add: lives_def)
  have e2: "shot_count (gameplay A inp s) \<le> shot_count s"
    using hs pb(1) p6(1) by (simp add: shot_count_def)
  have e3: "\<forall>e' \<in> set (enemies (gameplay A inp s)). \<exists>e \<in> set (enemies s). esc e' < esc e"
  proof
    fix e' assume "e' \<in> set (enemies (gameplay A inp s))"
    then have "e' \<in> set es" using g(2) subseq_set [OF pb(2)] by auto
    then obtain e where "e \<in> set (enemies s)" "y e' = y e + enemy_vel"
        "y e' + Character_get_height A e' \<le> HEIGHT + 155"
      using ys by blast
    moreover have "0 \<le> Character_get_height A e'"
      using assms(2) by (simp add: Character_get_height_def)
    ultimately show "\<exists>e \<in> set (enemies s). esc e' < esc e"
      by (intro bexI [of _ e] esc_step) simp_all
  qed
  have e4: "length (enemies (gameplay A inp s)) = length (enemies s)"
    if same: "lives (gameplay A inp s) = lives s" "shot_count (gameplay A inp s) = shot_count s"
  proof -
    have "\<not> length es < length (enemies s)"
    proof
      assume "length es < length (enemies s)"
      then have "h < health (player s) \<or> res6 < resurrections s" using rm p6(1) by simp
      then have "lives (gameplay A inp s) < lives s"
        using lv r6 p6(2) assms(3) by (auto simp: lives_def)
      with same(1) show False by simp
    qed
    moreover have "\<not> length (snd ?pp) < length es"
    proof
      assume "length (snd ?pp) < length es"
      then have "length (fst ?pp) < length (shots p6)" by (rule pshots_pass_kill(1))
      with same(2) hs p6(1) show False by (simp add: shot_count_def)
    qed
    ultimately show ?thesis
      using len list_emb_length [OF pb(2)] g(2) by simp
  qed
  show ?thesis using e1 e2 e3 e4 by blast
qed

lemma lex_step: "a < c \<Longrightarrow> b \<le> n \<Longrightarrow> a * (n + 1) + b < c * (n + 1) + (d::nat)"
proof -
  assume "a < c" "b \<le> n"
  then have "(a + 1) * (n + 1) \<le> c * (n + 1)" by (intro mult_le_mono1) simp
  with \<open>b \<le> n\<close> show ?thesis by simp
qed

lemma potential_less:
  assumes "shot_count s' \<le> S0" and "shot_count s \<le> S0" and "wave_time s' \<le> B" and "wave_time s \<le> B"
    and "nat (lives s') < nat (lives s) \<or>
         (nat (lives s') = nat (lives s) \<and> shot_count s' < shot_count s) \<or>
         (nat (lives s') = nat (lives s) \<and> shot_count s' = shot_count s \<and> wave_time s' < wave_time s)"
  shows "potential S0 B s' < potential S0 B s"
  using assms(5)
proof (elim disjE conjE)
  assume "nat (lives s') < nat (lives s)"
  then have "nat (lives s') * (S0 + 1) + shot_count s' < nat (lives s) * (S0 + 1) + shot_count s"
    using assms(1) by (rule lex_step)
  then show ?thesis using assms(3) unfolding potential_def by (rule lex_step)
next
  assume "nat (lives s') = nat (lives s)" "shot_count s' < shot_count s"
  then have "nat (lives s') * (S0 + 1) + shot_count s' < nat (lives s) * (S0 + 1) + shot_count s" by simp
  then show ?thesis using assms(3) unfolding potential_def by (rule lex_step)
next
  assume "nat (lives s') = nat (lives s)" "shot_count s' = shot_count s" "wave_time s' < wave_time s"
  then show ?thesis unfolding potential_def by simp
qed

lemma esc_spawned: "-1500 \<le> y e \<Longrightarrow> esc e \<le> 1278"
  by (simp add: esc_def HEIGHT_def enemy_vel_def nat_le_iff)

lemma reachable_live_inv:
  "reachable A s \<Longrightarrow> life_ok s \<and> wave_length s = 5 + 3 * level s \<and> 0 \<le> level s"
proof (induction rule: reachable.induct)
  case start
  then show ?case
    by (simp add: life_ok_def main_init_def Player_init_def Character_init_def character.defs player.defs)
next
  case (step s inp s')
  then show ?case using frame_life_ok [OF step.hyps(3)] frame_level [OF step.hyps(3)] by auto
qed

lemma life_check_enemies_shots [simp]:
  "enemies (life_check s) = enemies s" "shots (player (life_check s)) = shots (player s)"
  by (simp_all add: life_check_def Let_def)

lemma frame_passive_countdown:
  assumes "resurrections s \<le> 0" and "passive_input inp"
  shows "\<exists>s'. frame A inp s = Inr s' \<and>
     (\<not> run s' \<or> (resurrections s' \<le> 0 \<and> run_measure S0 B s' < run_measure S0 B s \<and>
        shot_count s' = shot_count s \<and> wave_time s' = wave_time s))"
proof -
  note lc = life_check_lost [OF assms(1)]
  show ?thesis
  proof (cases "lost_count (life_check s) \<le> fps * 3")
    case True
    then have "frame A inp s = Inr (life_check s)" using lc by (simp add: frame_def)
    moreover have "run_measure S0 B (life_check s) < run_measure S0 B s"
      using lc True assms(1) by (simp add: run_measure_def fps_def)
    ultimately show ?thesis using lc
      by (intro exI [of _ "life_check s"]) (simp add: shot_count_def wave_time_def)
  next
    case False
    let ?s3 = "(life_check s)\<lparr>run := False\<rparr>"
    obtain s4 where s4: "spawn_wave A inp ?s3 = Inr s4"
      using spawn_wave_passive [OF assms(2), of A ?s3] by blast
    then have fr: "frame A inp s = Inr (gameplay A inp s4)"
      using lc False assms(2) by (simp add: frame_def passive_input_def)
    then have "\<not> run (gameplay A inp s4)"
      using frame_final_stops [OF _ _ fr] lc False by simp
    with fr show ?thesis by blast
  qed
qed

lemma gameplay_measure:
  assumes "passive_input inp" and "\<forall>i. 0 \<le> surface_height A i"
    and "0 < health (player s4)" and "enemies s4 \<noteq> []"
    and "lives s4 \<le> lives s" and "0 < lives s" and "shot_count s4 = shot_count s"
    and "wave_time s4 \<le> wave_time s"
    and "shot_count s \<le> S0" and "wave_time s \<le> B" and "1278 \<le> B" and "0 < resurrections s"
  shows "shot_count (gameplay A inp s4) \<le> S0 \<and> wave_time (gameplay A inp s4) \<le> B \<and>
    run_measure S0 B (gameplay A inp s4) < run_measure S0 B s"
proof -
  let ?s' = "gameplay A inp s4"
  note gp = gameplay_progress [OF assms(1,2,3)]
  have sc: "shot_count ?s' \<le> S0" using gp assms(7,9) by simp
  have wt: "wave_time ?s' \<le> B"
    using wave_time_bound [of ?s' s4] gp assms(8,10,11) by simp
  have "run_measure S0 B ?s' < run_measure S0 B s"
  proof (cases "resurrections ?s' \<le> 0")
    case True
    then show ?thesis using assms(12) by (simp add: run_measure_def)
  next
    case False
    have "potential S0 B ?s' < potential S0 B s"
    proof (rule potential_less [OF sc assms(9) wt assms(10)])
      consider (l) "lives ?s' < lives s" | (e) "lives ?s' = lives s"
        using gp assms(5) by linarith
      then show "nat (lives ?s') < nat (lives s) \<or>
         (nat (lives ?s') = nat (lives s) \<and> shot_count ?s' < shot_count s) \<or>
         (nat (lives ?s') = nat (lives s) \<and> shot_count ?s' = shot_count s \<and> wave_time ?s' < wave_time s)"
      proof cases
        case l
        then show ?thesis using assms(6) by simp
      next
        case e
        then have l4: "lives ?s' = lives s4" using gp assms(5) by linarith
        show ?thesis
        proof (cases "shot_count ?s' < shot_count s")
          case True
          with e show ?thesis by simp
        next
          case False
          then have "shot_count ?s' = shot_count s4" using gp assms(7) by simp
          then have "length (enemies ?s') = length (enemies s4)" using gp l4 by blast
          then have "enemies ?s' \<noteq> []" using assms(4) by auto
          then have "wave_time ?s' < wave_time s4" using gp by (intro wave_time_less) blast+
          with e False gp assms(7,8) show ?thesis by simp
        qed
      qed
    qed
    then show ?thesis using False assms(12) by (simp add: run_measure_def)
  qed
  with sc wt show ?thesis by blast
qed

lemma life_check_live:
  assumes "0 < resurrections s" and "\<not> (health (player s) \<le> 0 \<and> resurrections s = 1)"
    and "\<not> lost s" and "max_health (player s) = 100"
  shows "\<not> lost (life_check s) \<and> 0 < resurrections (life_check s) \<and> 0 < health (player (life_check s)) \<and>
    lives (life_check s) \<le> lives s \<and> shot_count (life_check s) = shot_count s \<and>
    wave_time (life_check s) = wave_time s \<and> wave_length (life_check s) = wave_length s"
  using assms by (auto simp: life_check_def Let_def lives_def shot_count_def wave_time_def)

lemma spawn_wave_measure:
  assumes "passive_input inp" and "0 < wave_length s + 3"
  shows "\<exists>s4. spawn_wave A inp s = Inr s4 \<and> player s4 = player s \<and> resurrections s4 = resurrections s \<and>
    run s4 = run s \<and> lost s4 = lost s \<and> lost_count s4 = lost_count s \<and>
    enemies s4 \<noteq> [] \<and> wave_time s4 \<le> wave_time s"
proof -
  obtain s4 where s4: "spawn_wave A inp s = Inr s4" "player s4 = player s" "resurrections s4 = resurrections s"
      "run s4 = run s" "lost s4 = lost s" "lost_count s4 = lost_count s"
      "enemies s \<noteq> [] \<longrightarrow> enemies s4 = enemies s"
      "enemies s = [] \<longrightarrow> 0 < wave_length s + 3 \<longrightarrow>
        enemies s4 \<noteq> [] \<and> (\<forall>e \<in> set (enemies s4). -1500 \<le> y e)"
    using spawn_wave_passive [OF assms(1), of A s] by blast
  have "enemies s4 \<noteq> [] \<and> wave_time s4 \<le> wave_time s"
  proof (cases "enemies s = []")
    case True
    with s4(8) assms(2) have ne: "enemies s4 \<noteq> []" and ys: "\<forall>e \<in> set (enemies s4). -1500 \<le> y e"
      by simp_all
    have "Max (esc ` set (enemies s4)) \<le> 1278" using ne ys esc_spawned by simp
    with ne True show ?thesis by (simp add: wave_time_def wave_time_empty HEIGHT_def enemy_vel_def)
  next
    case False
    with s4(7) show ?thesis by (simp add: wave_time_def)
  qed
  with s4 show ?thesis by blast
qed

lemma frame_passive_progress:
  assumes "reachable A s" and "0 < resurrections s" and "passive_input inp"
    and "\<forall>i. 0 \<le> surface_height A i"
    and "shot_count s \<le> S0" and "wave_time s \<le> B" and "1278 \<le> B"
  shows "\<exists>s'. frame A inp s = Inr s' \<and> shot_count s' \<le> S0 \<and> wave_time s' \<le> B \<and>
    run_measure S0 B s' < run_measure S0 B s"
proof -
  have inv: "life_ok s" "wave_length s = 5 + 3 * level s" "0 \<le> level s"
    using reachable_live_inv [OF assms(1)] by simp_all
  then have nl: "\<not> lost s" "lost_count s = 0" "max_health (player s) = 100" "health (player s) \<le> 100"
    using assms(2) by (auto simp: life_ok_def)
  have lv: "0 < lives s" using assms(2) by (simp add: lives_def)
  show ?thesis
  proof (cases "health (player s) \<le> 0 \<and> resurrections s = 1")
    case True
    let ?s2 = "life_check s"
    have s2: "resurrections ?s2 = 0" "lost ?s2" "lost_count ?s2 = 1"
      using True nl by (simp_all add: life_check_def Let_def)
    have "frame A inp s = Inr ?s2" using s2 by (simp add: frame_def fps_def)
    moreover have "shot_count ?s2 = shot_count s" "wave_time ?s2 = wave_time s"
      by (simp_all add: shot_count_def wave_time_def)
    ultimately show ?thesis using s2 assms(2,5,6) by (simp add: run_measure_def)
  next
    case False
    let ?s2 = "life_check s"
    note l2 = life_check_live [OF assms(2) False nl(1,3)]
    obtain s4 where s4: "spawn_wave A inp ?s2 = Inr s4" "player s4 = player ?s2"
        "resurrections s4 = resurrections ?s2" "enemies s4 \<noteq> []" "wave_time s4 \<le> wave_time ?s2"
      using spawn_wave_measure [OF assms(3), of ?s2 A] l2 inv(2,3) by auto
    have fr: "frame A inp s = Inr (gameplay A inp s4)"
      using l2 s4(1) assms(3) by (simp add: frame_def passive_input_def)
    have "lives s4 = lives ?s2" "shot_count s4 = shot_count ?s2"
      using s4(2,3) by (simp_all add: lives_def shot_count_def)
    then have "shot_count (gameplay A inp s4) \<le> S0 \<and> wave_time (gameplay A inp s4) \<le> B \<and>
        run_measure S0 B (gameplay A inp s4) < run_measure S0 B s"
      using l2 s4 lv assms
      by (intro gameplay_measure) simp_all
    with fr show ?thesis by blast
  qed
qed

lemma passive_run_ends:
  assumes "reachable A s" and "\<forall>i. 0 \<le> surface_height A i"
    and "\<forall>inp \<in> set inps. passive_input inp"
    and "shot_count s \<le> S0" and "wave_time s \<le> B" and "1278 \<le> B"
    and "run_measure S0 B s < length inps"
  shows "\<exists>s'. main_loop A inps s = Inr s' \<and> \<not> run s'"
  using assms
proof (induction inps arbitrary: s)
  case Nil
  then show ?case by simp
next
  case (Cons inp inps)
  show ?case
  proof (cases "run s")
    case False
    then show ?thesis by simp
  next
    case True
    have p: "passive_input inp" using Cons.prems(3) by simp
    have next_ok: "\<exists>s''. main_loop A inps s' = Inr s'' \<and> \<not> run s''"
      if fr: "frame A inp s = Inr s'" and sc: "shot_count s' \<le> S0" and wt: "wave_time s' \<le> B"
        and m: "run_measure S0 B s' < run_measure S0 B s" for s'
    proof -
      have "reachable A s'" using Cons.prems(1) True fr by (rule reachable.step)
      then show ?thesis
        using Cons.IH [of s'] Cons.prems(2,3,6,7) sc wt m by simp
    qed
    show ?thesis
    proof (cases "resurrections s \<le> 0")
      case res0: True
      obtain s' where fr: "frame A inp s = Inr s'" and
          st: "\<not> run s' \<or> (resurrections s' \<le> 0 \<and> run_measure S0 B s' < run_measure S0 B s \<and>
             shot_count s' = shot_count s \<and> wave_time s' = wave_time s)"
        using frame_passive_countdown [OF res0 p, of A S0 B] by blast
      from st show ?thesis
      proof
        assume "\<not> run s'"
        with True fr show ?thesis by (simp add: main_loop_stopped)
      next
        assume "resurrections s' \<le> 0 \<and> run_measure S0 B s' < run_measure S0 B s \<and>
             shot_count s' = shot_count s \<and> wave_time s' = wave_time s"
        with next_ok [OF fr] Cons.prems(4,5) True fr show ?thesis by simp
      qed
    next
      case False
      obtain s' where fr: "frame A inp s = Inr s'" and "shot_count s' \<le> S0" "wave_time s' \<le> B"
          "run_measure S0 B s' < run_measure S0 B s"
        using frame_passive_progress [OF Cons.prems(1) _ p Cons.prems(2,4,5,6)] False by auto
      with next_ok [OF fr] True show ?thesis by simp
    qed
  qed
qed

text \<open>
  C14: a player who does nothing loses: from any reachable state, if no key is
  pressed, no quit event arrives and the random draws stay in the code's ranges
  (enemy fire is unrestricted), the game ends (\<open>run = False\<close>) within
  \<open>potential + 183\<close> frames, where the potential folds the lives, the player's
  shots in flight and the frames the lowest enemy needs to escape into one number.
\<close>

theorem passive_player_loses:
  assumes "reachable A s" and "\<forall>i. 0 \<le> surface_height A i"
    and "\<forall>inp \<in> set inps. passive_input inp"
    and "potential (shot_count s) (max (wave_time s) 1278) s + 182 < length inps"
  shows "\<exists>s'. main_loop A inps s = Inr s' \<and> \<not> run s'"
proof (rule passive_run_ends [OF assms(1-3) order_refl, of "max (wave_time s) 1278"])
  show "run_measure (shot_count s) (max (wave_time s) 1278) s < length inps"
    using assms(4) by (auto simp: run_measure_def)
qed simp_all

theorem passive_player_loses_witness:
  "reachable sample_assets (main_init sample_assets) \<and>
   (\<forall>i. 0 \<le> surface_height sample_assets i) \<and> passive_input idle_input \<and>
   potential 0 1278 (main_init sample_assets) = 1291789 \<and>
   (\<exists>s'. main_loop sample_assets (replicate 1291972 idle_input) (main_init sample_assets) = Inr s' \<and> \<not> run s')"
proof -
  have h: "reachable sample_assets (main_init sample_assets)" "\<forall>i. 0 \<le> surface_height sample_assets i"
      "passive_input idle_input"
    by (simp_all add: reachable.start sample_assets_def passive_input_def idle_input_def)
  have w: "wave_time (main_init sample_assets) = 1278" "shot_count (main_init sample_assets) = 0"
    by (simp_all add: wave_time_empty main_init_def shot_count_def Player_init_def Character_init_def
        character.defs player.defs)
  have pot: "potential 0 1278 (main_init sample_assets) = 1291789"
    using w by (simp add: potential_def lives_def main_init_def Player_init_def Character_init_def
        character.defs player.defs)
  have "\<exists>s'. main_loop sample_assets (replicate 1291972 idle_input) (main_init sample_assets) = Inr s' \<and> \<not> run s'"
    using passive_player_loses [OF h(1,2), of "replicate 1291972 idle_input"] h(3) w pot by simp
  with h pot show ?thesis by blast
qed

end
