(* ===== verification/Main_Run.thy ===== *)
theory Main_Run
  imports Liveness
begin

text \<open>
  The loop \<open>while run:\<close> of \<open>main\<close> (\<open>src/main.py\<close>, lines 194--196) without
  fuel: \<open>main_run\<close> reads the frame inputs as an infinite sequence and is a
  \<open>partial_function (option)\<close>, so that \<open>None\<close> is a run that never ends.  The
  lemma \<open>main_loop_main_run\<close> relates it to the fuelled \<open>main_loop\<close> of
  \<open>Game\<close>: a stopped run of \<open>main_loop\<close> over a prefix of the inputs is a run
  of \<open>main_run\<close>.  Termination of \<open>main_run\<close> for a player
  who does nothing follows from the bound of \<open>Liveness\<close>.
\<close>

partial_function (option) main_run ::
  "assets \<Rightarrow> (nat \<Rightarrow> frame_input) \<Rightarrow> nat \<Rightarrow> game_state \<Rightarrow> (exc + game_state) option" where
  "main_run A inps k s =
     (if run s then
        (case frame A (inps k) s of
           Inl err \<Rightarrow> Some (Inl err)
         | Inr s' \<Rightarrow> main_run A inps (Suc k) s')
      else Some (Inr s))"

definition stopped :: "exc + game_state \<Rightarrow> bool" where
  "stopped r = (case r of Inl err \<Rightarrow> True | Inr s \<Rightarrow> \<not> run s)"

lemma main_loop_main_run:
  "stopped (main_loop A (map inps [k..<k + n]) s) \<Longrightarrow>
   main_run A inps k s = Some (main_loop A (map inps [k..<k + n]) s)"
proof (induction n arbitrary: k s)
  case 0
  then show ?case by (subst main_run.simps) (simp add: stopped_def)
next
  case (Suc n)
  have u: "map inps [k..<k + Suc n] = inps k # map inps [Suc k..<Suc k + n]"
    by (simp add: upt_rec)
  show ?case
  proof (cases "run s")
    case False
    then show ?thesis unfolding u by (subst main_run.simps) simp
  next
    case True
    show ?thesis
    proof (cases "frame A (inps k) s")
      case (Inl err)
      with True show ?thesis unfolding u by (subst main_run.simps) simp
    next
      case (Inr s')
      with True Suc.prems have "stopped (main_loop A (map inps [Suc k..<Suc k + n]) s')"
        unfolding u by simp
      with True Inr Suc.IH [of "Suc k" s'] show ?thesis
        unfolding u by (subst main_run.simps) simp
    qed
  qed
qed

text \<open>
  C15: termination of \<open>while run\<close>: from any reachable state, if the player does
  nothing in every frame (no key, no quit event; the random draws in the code's
  ranges), \<open>main_run\<close> returns, with \<open>run = False\<close>.
\<close>

theorem main_run_passive_terminates:
  assumes "reachable A s" and "\<forall>i. 0 \<le> surface_height A i" and "\<forall>k. passive_input (inps k)"
  shows "\<exists>s'. main_run A inps 0 s = Some (Inr s') \<and> \<not> run s'"
proof -
  let ?S0 = "shot_count s" and ?B = "max (wave_time s) 1278"
  let ?n = "Suc (run_measure ?S0 ?B s)"
  obtain s' where s': "main_loop A (map inps [0..<0 + ?n]) s = Inr s'" "\<not> run s'"
    using passive_run_ends [OF assms(1,2), of "map inps [0..<0 + ?n]" ?S0 ?B] assms(3) by auto
  then have "main_run A inps 0 s = Some (Inr s')"
    using main_loop_main_run [of A inps 0 ?n s] by (simp add: stopped_def)
  with s'(2) show ?thesis by blast
qed

theorem main_run_passive_terminates_witness:
  "reachable sample_assets (main_init sample_assets) \<and> (\<forall>i. 0 \<le> surface_height sample_assets i) \<and>
   (\<forall>k. passive_input ((\<lambda>_. idle_input) k)) \<and>
   (\<exists>s'. main_run sample_assets (\<lambda>_. idle_input) 0 (main_init sample_assets) = Some (Inr s') \<and> \<not> run s')"
proof -
  have h: "reachable sample_assets (main_init sample_assets)" "\<forall>i. 0 \<le> surface_height sample_assets i"
      "\<forall>k. passive_input ((\<lambda>_. idle_input) k)"
    by (simp_all add: reachable.start sample_assets_def passive_input_def idle_input_def)
  show ?thesis using h main_run_passive_terminates [OF h] by blast
qed

end
