(* ===== verification/Render.thy ===== *)
theory Render
  imports Game
begin

text \<open>
  What \<open>src/main.py\<close> draws, as a display list: each drawing operation appends
  the \<open>pygame\<close> calls it makes, in order, to a list of commands.  \<open>Shot.draw\<close>
  (lines 34--35), \<open>Character.draw\<close> (59--62), \<open>Player.health_bar\<close> and
  \<open>Player.draw\<close> (114--125) and the local function \<open>redraw_window\<close> of
  \<open>main\<close> (172--192) are translated call by call.  A surface is an image, the
  background, or a rendered text (font, string, colour); the width of a rendered text
  depends on the font's metrics, which are a parameter \<open>tw\<close>.  The texts are
  Python f-strings, so the integer formatting \<open>str(int)\<close> of the builtin is
  defined here (\<open>int_str\<close>).
\<close>

datatype font = MAIN_FONT | TITLE_FONT | MENU_FONT

type_synonym color = "int \<times> int \<times> int"

datatype surface = Image img | Background | Text font string color

datatype draw_cmd =
    Blit surface real real
  | Rect color real real real real
  | Display_update

fun is_sprite :: "draw_cmd \<Rightarrow> bool" where
  "is_sprite (Blit (Image i) a b) = True"
| "is_sprite _ = False"

definition digit_char :: "nat \<Rightarrow> char" where
  "digit_char d = char_of (48 + d)"

function nat_str :: "nat \<Rightarrow> string" where
  "nat_str n = (if n < 10 then [digit_char n] else nat_str (n div 10) @ [digit_char (n mod 10)])"
  by pat_completeness auto
termination
  by (relation "measure id") auto

declare nat_str.simps [simp del]

definition int_str :: "int \<Rightarrow> string" where
  "int_str i = (if i < 0 then CHR ''-'' # nat_str (nat (- i)) else nat_str (nat i))"

definition Shot_draw :: "shot \<Rightarrow> draw_cmd list" where
  "Shot_draw s = [Blit (Image (img s)) (of_int (x s)) (of_int (y s))]"

definition Character_draw :: "'a character_scheme \<Rightarrow> draw_cmd list" where
  "Character_draw c =
     Blit (Image (char_img c)) (of_int (x c)) (of_int (y c)) # concat (map Shot_draw (shots c))"

definition Player_health_bar :: "assets \<Rightarrow> 'a player_scheme \<Rightarrow> draw_cmd list" where
  "Player_health_bar A p =
     [Rect (255, 0, 0) (of_int (x p)) (of_int (y p + surface_height A (char_img p) + 10))
        (of_int (surface_width A (char_img p))) 10,
      Rect (0, 255, 0) (of_int (x p)) (of_int (y p + surface_height A (char_img p) + 10))
        (Player_health_bar_width A p) 10]"

definition Player_draw :: "assets \<Rightarrow> 'a player_scheme \<Rightarrow> draw_cmd list" where
  "Player_draw A p = Character_draw p @ Player_health_bar A p"

definition redraw_window :: "assets \<Rightarrow> (font \<Rightarrow> string \<Rightarrow> int) \<Rightarrow> game_state \<Rightarrow> draw_cmd list" where
  "redraw_window A tw s =
     [Blit Background 0 0,
      Blit (Text MAIN_FONT (''LEVEL: '' @ int_str (level s)) (0, 255, 255)) 10 (of_int (HEIGHT - 60)),
      Blit (Text MAIN_FONT (''RESURRECTIONS: '' @ int_str (resurrections s)) (255, 0, 0)) 10 (of_int (HEIGHT - 30))]
     @ concat (map Character_draw (enemies s))
     @ Player_draw A (player s)
     @ (if lost s
        then [Blit (Text TITLE_FONT ''GAME OVER'' (255, 0, 0))
                (of_int WIDTH / 2 - of_int (tw TITLE_FONT ''GAME OVER'') / 2) 450]
        else [])
     @ [Display_update]"

lemma sprites_Shot_draws: "filter is_sprite (concat (map Shot_draw ss)) = concat (map Shot_draw ss)"
  by (induction ss) (simp_all add: Shot_draw_def)

lemma sprites_Character_draw [simp]: "filter is_sprite (Character_draw c) = Character_draw c"
  by (simp add: Character_draw_def sprites_Shot_draws)

lemma sprites_Player_health_bar [simp]: "filter is_sprite (Player_health_bar A p) = []"
  by (simp add: Player_health_bar_def)

lemma no_text_Character_draw: "Blit (Text f t c) a b \<notin> set (Character_draw ch)"
  by (auto simp: Character_draw_def Shot_draw_def)

lemma no_text_Player_draw: "Blit (Text f t c) a b \<notin> set (Player_draw A p)"
  by (auto simp: Player_draw_def Player_health_bar_def no_text_Character_draw)

text \<open>
  C20: every sprite is drawn exactly once per frame, in list order, with the player
  last (on top): the image blits of \<open>redraw_window\<close> are those of every enemy
  and its shots, followed by the player and the player's shots.
\<close>

theorem redraw_window_sprites:
  "filter is_sprite (redraw_window A tw s) =
     concat (map (\<lambda>e. Blit (Image (char_img e)) (of_int (x e)) (of_int (y e)) #
                      map (\<lambda>sh. Blit (Image (img sh)) (of_int (x sh)) (of_int (y sh))) (shots e))
                 (enemies s)) @
     Blit (Image (char_img (player s))) (of_int (x (player s))) (of_int (y (player s))) #
     map (\<lambda>sh. Blit (Image (img sh)) (of_int (x sh)) (of_int (y sh))) (shots (player s))"
  by (simp add: redraw_window_def Player_draw_def filter_concat comp_def Character_draw_def
      Shot_draw_def concat_map_singleton)

text \<open>
  C21: the title \<open>GAME OVER\<close> is on the screen exactly in the frames drawn in the
  lost state.
\<close>

theorem redraw_window_game_over:
  "(\<exists>a b. Blit (Text TITLE_FONT ''GAME OVER'' (255, 0, 0)) a b \<in> set (redraw_window A tw s)) \<longleftrightarrow> lost s"
  by (auto simp: redraw_window_def no_text_Character_draw no_text_Player_draw)

end
