(* ===== verification/Menu.thy ===== *)
theory Menu
  imports Main_Run Render
begin

text \<open>
  The start menu \<open>main_menu\<close> of \<open>src/main.py\<close> (lines 255--272).  Each pass of
  its \<open>while run:\<close> draws the title screen (\<open>menu_draw\<close>) and then handles the
  batch of events that \<open>pygame.event.get()\<close> returns (\<open>menu_events\<close>): a
  \<open>QUIT\<close> event clears \<open>run\<close>, a mouse click calls \<open>main()\<close>, which is
  \<open>main_run\<close> from \<open>main_init\<close>.  The games started from the menu read their
  frame inputs from \<open>games\<close>, indexed by the number of games started before;
  the menu's state is the pair of \<open>run\<close> and that number.  A game that never
  returns makes the menu never return (\<open>None\<close>); an exception of a game
  (\<open>SystemExit\<close> from \<open>quit()\<close>) leaves the menu and the program.
  \<open>main_menu_loop\<close> runs the menu over a finite list of event batches.
\<close>

datatype menu_event = QUIT_EVENT | MOUSEBUTTONDOWN | OTHER_EVENT

definition menu_draw :: "(font \<Rightarrow> string \<Rightarrow> int) \<Rightarrow> draw_cmd list" where
  "menu_draw tw =
     [Blit Background 0 0,
      Blit (Text MENU_FONT ''PRESS THE MOUSE TO BEGIN'' (0, 255, 255))
        (of_int WIDTH / 2 - of_int (tw MENU_FONT ''PRESS THE MOUSE TO BEGIN'') / 2) 450,
      Display_update]"

fun menu_events ::
  "assets \<Rightarrow> (nat \<Rightarrow> nat \<Rightarrow> frame_input) \<Rightarrow> menu_event list \<Rightarrow> bool \<times> nat \<Rightarrow> (exc + bool \<times> nat) option" where
  "menu_events A games [] st = Some (Inr st)"
| "menu_events A games (QUIT_EVENT # evs) (r, j) = menu_events A games evs (False, j)"
| "menu_events A games (MOUSEBUTTONDOWN # evs) (r, j) =
     (case main_run A (games j) 0 (main_init A) of
        None \<Rightarrow> None
      | Some (Inl err) \<Rightarrow> Some (Inl err)
      | Some (Inr s) \<Rightarrow> menu_events A games evs (r, Suc j))"
| "menu_events A games (OTHER_EVENT # evs) st = menu_events A games evs st"

fun main_menu_loop ::
  "assets \<Rightarrow> (nat \<Rightarrow> nat \<Rightarrow> frame_input) \<Rightarrow> menu_event list list \<Rightarrow> bool \<times> nat \<Rightarrow> (exc + bool \<times> nat) option" where
  "main_menu_loop A games [] st = Some (Inr st)"
| "main_menu_loop A games (evs # bs) (r, j) =
     (if r then
        (case menu_events A games evs (r, j) of
           None \<Rightarrow> None
         | Some (Inl err) \<Rightarrow> Some (Inl err)
         | Some (Inr st') \<Rightarrow> main_menu_loop A games bs st')
      else Some (Inr (r, j)))"

definition main_menu :: "assets \<Rightarrow> (nat \<Rightarrow> nat \<Rightarrow> frame_input) \<Rightarrow> menu_event list list \<Rightarrow> (exc + bool \<times> nat) option" where
  "main_menu A games bs = main_menu_loop A games bs (True, 0)"

lemma idle_game_returns:
  "\<exists>s'. main_run sample_assets (\<lambda>_. idle_input) 0 (main_init sample_assets) = Some (Inr s')"
proof -
  let ?s = "main_init sample_assets"
  let ?n = "Suc (run_measure (shot_count ?s) (max (wave_time ?s) 1278) ?s)"
  have "passive_input idle_input" by (simp add: passive_input_def idle_input_def)
  moreover have "\<forall>i. 0 \<le> surface_height sample_assets i" by (simp add: sample_assets_def)
  ultimately obtain s' where "main_loop sample_assets (map (\<lambda>_. idle_input) [0..<0 + ?n]) ?s = Inr s'" "\<not> run s'"
    using passive_run_ends [OF reachable.start, of sample_assets "map (\<lambda>_. idle_input) [0..<0 + ?n]"
        "shot_count ?s" "max (wave_time ?s) 1278"] by auto
  then show ?thesis
    using main_loop_main_run [of sample_assets "\<lambda>_. idle_input" 0 ?n ?s] by (auto simp: stopped_def)
qed

lemma menu_events_result:
  "menu_events A games evs (r, j) = Some (Inr (r', n)) \<Longrightarrow>
   n = j + count_list evs MOUSEBUTTONDOWN \<and> (r' \<longleftrightarrow> r \<and> QUIT_EVENT \<notin> set evs)"
proof (induction A games evs "(r, j)" arbitrary: r j rule: menu_events.induct)
  case (3 A games evs r j)
  then show ?case by (auto split: option.splits sum.splits)
qed auto

text \<open>
  C17: every mouse click of a batch starts a game, also the clicks that follow a
  \<open>QUIT\<close> event in the same batch: the event loop of \<open>main_menu\<close> has no
  \<open>break\<close>, so after \<open>QUIT\<close> has cleared \<open>run\<close> each later click still calls
  \<open>main()\<close>.  Whenever the batch is handled to its end (no game raised an
  exception or ran forever), \<open>run\<close> is off and the game counter has grown by
  the clicks before and after the \<open>QUIT\<close> event.
\<close>

theorem menu_click_after_quit:
  "case menu_events A games (pre @ QUIT_EVENT # post) (r, j) of
     None \<Rightarrow> True
   | Some (Inl err) \<Rightarrow> True
   | Some (Inr (r', n)) \<Rightarrow>
       \<not> r' \<and> n = j + count_list pre MOUSEBUTTONDOWN + count_list post MOUSEBUTTONDOWN"
  by (auto dest: menu_events_result split: option.split sum.split)

text \<open>
  C19: while the menu keeps running, it has started exactly one game per mouse
  click: after the batches \<open>bs\<close>, if \<open>run\<close> still holds, no \<open>QUIT\<close>
  event came and the game counter grew by the number of clicks.
\<close>

theorem main_menu_counts_games:
  "main_menu_loop A games bs (True, j) = Some (Inr (True, n)) \<Longrightarrow>
   n = j + count_list (concat bs) MOUSEBUTTONDOWN \<and> QUIT_EVENT \<notin> set (concat bs)"
proof (induction bs arbitrary: j)
  case Nil
  then show ?case by simp
next
  case (Cons evs bs)
  then obtain r' j' where ev: "menu_events A games evs (True, j) = Some (Inr (r', j'))"
      "main_menu_loop A games bs (r', j') = Some (Inr (True, n))"
    by (auto split: option.splits sum.splits)
  then have r': "r'" by (cases bs) (auto split: if_splits)
  with menu_events_result [OF ev(1)] ev(2) Cons.IH [of j'] show ?case by simp
qed

theorem main_menu_counts_games_witness:
  "main_menu_loop sample_assets (\<lambda>_ _. idle_input) [[MOUSEBUTTONDOWN, OTHER_EVENT], [MOUSEBUTTONDOWN]] (True, 0) =
     Some (Inr (True, 2)) \<and>
   2 = 0 + count_list (concat [[MOUSEBUTTONDOWN, OTHER_EVENT], [MOUSEBUTTONDOWN]]) MOUSEBUTTONDOWN \<and>
   QUIT_EVENT \<notin> set (concat [[MOUSEBUTTONDOWN, OTHER_EVENT], [MOUSEBUTTONDOWN]])"
proof -
  obtain s' where g: "main_run sample_assets (\<lambda>_. idle_input) 0 (main_init sample_assets) = Some (Inr s')"
    using idle_game_returns by blast
  have r: "main_menu_loop sample_assets (\<lambda>_ _. idle_input) [[MOUSEBUTTONDOWN, OTHER_EVENT], [MOUSEBUTTONDOWN]] (True, 0) =
     Some (Inr (True, 2))"
    using g by (simp add: numeral_2_eq_2)
  show ?thesis
    using r main_menu_counts_games [OF r] by simp
qed

text \<open>
  C18: an exception of a game is not caught by the menu: when the first game
  started from the menu ends with \<open>SystemExit\<close> (the quit event, \<open>quit()\<close>)
  or any other exception, \<open>main_menu\<close> ends with it, whatever events follow.
\<close>

theorem main_menu_game_exception:
  assumes "main_run A (games 0) 0 (main_init A) = Some (Inl err)"
  shows "main_menu A games ((MOUSEBUTTONDOWN # evs) # bs) = Some (Inl err)"
  using assms by (simp add: main_menu_def)

theorem main_menu_game_exception_witness:
  "main_run sample_assets ((\<lambda>_ _. idle_input\<lparr>quit_event := True\<rparr>) 0) 0 (main_init sample_assets) = Some (Inl SystemExit) \<and>
   main_menu sample_assets (\<lambda>_ _. idle_input\<lparr>quit_event := True\<rparr>) [[MOUSEBUTTONDOWN, QUIT_EVENT]] = Some (Inl SystemExit)"
proof -
  have r: "main_run sample_assets ((\<lambda>_ _. idle_input\<lparr>quit_event := True\<rparr>) 0) 0 (main_init sample_assets) = Some (Inl SystemExit)"
    by (subst main_run.simps)
      (simp add: frame_def life_check_def spawn_wave_def main_init_def Player_init_def Character_init_def
        character.defs player.defs idle_input_def Enemy_init_def ENEMY_MAP_def upt_rec Let_def)
  show ?thesis using r main_menu_game_exception [OF r, of "[QUIT_EVENT]" "[]"] by simp
qed

end
