(* ===== verification/Typing.thy ===== *)
theory Typing
  imports Game
begin

text \<open>
  The typing discipline of the objects of \<open>src/main.py\<close>, which Python does not
  check: every sprite's mask is the mask of its current image (the specification's
  requirement that a mask be derived from the visual, section 4.5), every shot a
  character owns carries that character's shot image and its mask, the player is
  drawn with \<open>JESUS\<close> and fires \<open>JESUS_SHOT\<close>, and every enemy has a pair of
  images of the catalogue \<open>ENEMY_MAP\<close>.  \<open>state_typed\<close> is that discipline for
  a state of \<open>main\<close>; every operation keeps it, so it holds in every reachable
  state.
\<close>

definition shots_typed :: "assets \<Rightarrow> 'a character_scheme \<Rightarrow> bool" where
  "shots_typed A c \<longleftrightarrow> list_all (\<lambda>sh. img sh = shot_img c \<and> mask sh = surface_mask A (shot_img c)) (shots c)"

definition sprite_typed :: "assets \<Rightarrow> 'a character_scheme \<Rightarrow> bool" where
  "sprite_typed A c \<longleftrightarrow> mask c = surface_mask A (char_img c) \<and> shots_typed A c"

definition enemy_images :: "(img \<times> img) list" where
  "enemy_images = [(SATAN, SATAN_SHOT), (JUDAS, JUDAS_SHOT), (CENTURION, CENTURION_SHOT)]"

definition enemy_typed :: "assets \<Rightarrow> enemy \<Rightarrow> bool" where
  "enemy_typed A e \<longleftrightarrow> sprite_typed A e \<and> (char_img e, shot_img e) \<in> set enemy_images"

definition state_typed :: "assets \<Rightarrow> game_state \<Rightarrow> bool" where
  "state_typed A s \<longleftrightarrow>
     sprite_typed A (player s) \<and> char_img (player s) = JESUS \<and> shot_img (player s) = JESUS_SHOT \<and>
     list_all (enemy_typed A) (enemies s)"

lemma shots_pass_set:
  "set (fst (shots_pass vel ss obj)) \<subseteq> set ss \<union> Shot_move vel ` set ss"
  "set (fst (shots_skip vel ss obj)) \<subseteq> set ss \<union> Shot_move vel ` set ss"
proof (induction vel ss obj and vel ss obj rule: shots_pass_shots_skip.induct)
  case (2 vel s ss obj)
  then show ?case
    by (cases "Character_shot_fate vel obj s")
       (auto simp: Character_shot_fate_def Let_def split: if_splits)
qed auto

lemma pshots_pass_set:
  "set (fst (pshots_pass vel ss objs)) \<subseteq> set ss \<union> Shot_move vel ` set ss"
  "set (fst (pshots_skip vel ss objs)) \<subseteq> set ss \<union> Shot_move vel ` set ss"
proof (induction vel ss objs and vel ss objs rule: pshots_pass_pshots_skip.induct)
  case (2 vel s ss objs)
  obtain objs' present where h: "hits_pass (Shot_move vel s) objs True = (objs', present)"
    by (cases "hits_pass (Shot_move vel s) objs True")
  show ?case
    using "2.IH"(1) "2.IH"(2) [OF refl _ h [symmetric]] "2.IH"(3) [OF refl _ h [symmetric]] h
    by (auto simp: Let_def)
qed auto

lemma shots_typed_moved:
  assumes "shots_typed A c" and "set ss \<subseteq> set (shots c) \<union> Shot_move vel ` set (shots c)"
    and "shot_img c' = shot_img c"
  shows "shots_typed A (c'\<lparr>shots := ss\<rparr>)"
  using assms by (fastforce simp: shots_typed_def list_all_iff)

lemma Character_cooldown_typed [simp]: "sprite_typed A (Character_cooldown c) = sprite_typed A c"
  by (simp add: sprite_typed_def shots_typed_def Character_cooldown_def)

lemma Character_shoot_typed: "sprite_typed A c \<Longrightarrow> sprite_typed A (Character_shoot A c)"
  by (simp add: sprite_typed_def shots_typed_def Character_shoot_def Shot_init_def)

lemma Character_move_shot_typed:
  "sprite_typed A c \<Longrightarrow> sprite_typed A (fst (Character_move_shot vel obj c))"
proof -
  assume "sprite_typed A c"
  then have "shots_typed A ((Character_cooldown c)\<lparr>shots := fst (shots_pass vel (shots c) obj)\<rparr>)"
    using shots_pass_set(1) [of vel "shots c" obj]
    by (intro shots_typed_moved [of A c]) (simp_all add: sprite_typed_def)
  with \<open>sprite_typed A c\<close> show ?thesis
    by (simp add: Character_move_shot_pass sprite_typed_def)
qed

lemma Character_move_shot_imgs:
  "char_img (fst (Character_move_shot vel obj c)) = char_img c"
  "shot_img (fst (Character_move_shot vel obj c)) = shot_img c"
  by (subst Character_move_shot_self, simp)+

lemma Character_shoot_imgs:
  "char_img (Character_shoot A c) = char_img c" "shot_img (Character_shoot A c) = shot_img c"
  by (simp_all add: Character_shoot_def)

lemma sprite_typed_update [simp]:
  "sprite_typed A (c\<lparr>x := a\<rparr>) = sprite_typed A c" "sprite_typed A (c\<lparr>y := a\<rparr>) = sprite_typed A c"
  "sprite_typed A (c\<lparr>health := h\<rparr>) = sprite_typed A c"
  by (simp_all add: sprite_typed_def shots_typed_def)

lemma enemy_typed_move [simp]: "enemy_typed A (Enemy_move vel e) = enemy_typed A e"
  by (simp add: enemy_typed_def Enemy_move_def)

lemma handle_keys_typed:
  "sprite_typed A p \<Longrightarrow> sprite_typed A (handle_keys A inp p) \<and> shot_img (handle_keys A inp p) = shot_img p"
  by (simp add: handle_keys_def Let_def Character_shoot_typed Character_shoot_imgs)

lemma Player_move_shot_typed:
  assumes "sprite_typed A p"
  shows "sprite_typed A (fst (Player_move_shot vel objs p))"
proof -
  have "shots_typed A ((Character_cooldown p)\<lparr>shots := fst (pshots_pass vel (shots p) objs)\<rparr>)"
    using assms pshots_pass_set(1) [of vel "shots p" objs]
    by (intro shots_typed_moved [of A p]) (simp_all add: sprite_typed_def)
  with assms show ?thesis by (simp add: Player_move_shot_pass sprite_typed_def)
qed

lemma enemies_loop_typed:
  "list_all (enemy_typed A) es \<Longrightarrow> list_all (enemy_typed A) (fst (enemies_loop A inp k es p res))"
proof (induction A inp k es p res rule: enemies_loop.induct)
  case (2 A inp k e es p res)
  let ?e2 = "fst (Character_move_shot shot_vel p (Enemy_move enemy_vel e))"
  have "enemy_typed A ?e2"
    using "2.prems" Character_move_shot_typed [of A "Enemy_move enemy_vel e" shot_vel p]
    by (simp add: enemy_typed_def Character_move_shot_imgs Enemy_move_def)
  then have "enemy_typed A (if fire_roll inp k = 1 then Character_shoot A ?e2 else ?e2)"
    by (simp add: enemy_typed_def Character_shoot_typed Character_shoot_imgs)
  with "2.IH" "2.prems" show ?case
    by (auto simp: Let_def split: prod.split)
qed simp

lemma spawn_enemies_typed: "spawn_enemies A inp is = Inr es \<Longrightarrow> list_all (enemy_typed A) es"
  by (induction "is" arbitrary: es)
     (auto simp: Enemy_init_Inr ENEMY_MAP_def enemy_typed_def sprite_typed_def shots_typed_def
        enemy_images_def Character_init_def split: sum.splits if_splits)

lemma gameplay_typed:
  assumes "state_typed A s"
  shows "state_typed A (gameplay A inp s)"
proof -
  let ?p5 = "handle_keys A inp (player s)"
  obtain es p6 res6 where el: "enemies_loop A inp 0 (enemies s) ?p5 (resurrections s) = (es, p6, res6)"
    by (cases "enemies_loop A inp 0 (enemies s) ?p5 (resurrections s)")
  obtain h where p6: "p6 = ?p5\<lparr>health := h\<rparr>"
    using enemies_loop_player [of A inp 0 "enemies s" ?p5 "resurrections s"] el by auto
  have t5: "sprite_typed A ?p5" "char_img ?p5 = JESUS" "shot_img ?p5 = JESUS_SHOT"
    using assms handle_keys_typed [of A "player s" inp] by (simp_all add: state_typed_def)
  have es: "list_all (enemy_typed A) es"
    using enemies_loop_typed [of A "enemies s" inp 0 ?p5 "resurrections s"] assms el
    by (simp add: state_typed_def)
  let ?r = "Player_move_shot (- (shot_vel * 2)) es p6"
  have g: "player (gameplay A inp s) = fst ?r" "enemies (gameplay A inp s) = snd ?r"
    using el by (simp_all add: gameplay_def split: prod.split)
  have "sprite_typed A (fst ?r)" using t5(1) p6 by (intro Player_move_shot_typed) simp
  moreover have "char_img (fst ?r) = JESUS" "shot_img (fst ?r) = JESUS_SHOT"
    using t5 p6 by (simp_all add: Player_move_shot_pass)
  moreover have "list_all (enemy_typed A) (snd ?r)"
    using es subseq_set [OF pshots_pass_bounds(1) [THEN conjunct2, of "- (shot_vel * 2)" "shots p6" es]]
    by (auto simp: Player_move_shot_pass list_all_iff)
  ultimately show ?thesis using g by (simp add: state_typed_def)
qed

lemma frame_typed:
  assumes "frame A inp s = Inr s'" and "state_typed A s"
  shows "state_typed A s'"
  using assms(1)
proof (cases rule: frame_Inr_play)
  case suspended
  with assms(2) life_check_player [of s] show ?thesis
    by (auto simp: state_typed_def life_check_def Let_def)
next
  case (play s4)
  let ?s3 = "if lost (life_check s) then (life_check s)\<lparr>run := False\<rparr> else life_check s"
  have t3: "state_typed A ?s3"
    using assms(2) life_check_player [of s] by (auto simp: state_typed_def life_check_def Let_def)
  have "state_typed A s4"
    using spawn_wave_cases [OF play(1)] spawn_wave_fields [OF play(1)] t3 spawn_enemies_typed
    by (auto simp: state_typed_def)
  with play(2) show ?thesis by (simp add: gameplay_typed)
qed

text \<open>
  C16: the typing discipline holds in every reachable state: every sprite's mask
  is its image's mask, every shot carries its owner's shot image and mask, the
  player's images are \<open>JESUS\<close> and \<open>JESUS_SHOT\<close>, and every enemy has an
  image pair of the catalogue.
\<close>

theorem reachable_typed: "reachable A s \<Longrightarrow> state_typed A s"
proof (induction rule: reachable.induct)
  case start
  then show ?case
    by (simp add: state_typed_def sprite_typed_def shots_typed_def main_init_def Player_init_def
        Character_init_def character.defs player.defs)
next
  case (step s inp s')
  then show ?case by (blast intro: frame_typed)
qed

theorem reachable_typed_witness:
  "reachable sample_assets (main_init sample_assets) \<and> state_typed sample_assets (main_init sample_assets)"
  using reachable.start reachable_typed [OF reachable.start] by blast

end
