(* ===== verification/Spec2Isabelle.thy ===== *)
theory Spec2Isabelle
  imports Scenario Menu Typing
begin

text \<open>
  \<^bold>\<open>Verification development for \<open>src/main.py\<close>\<close>, the pygame
  shoot-em-up "Armageddon" (one file, 272 lines).

  \<^medskip>\<^bold>\<open>The program.\<close>  \<open>main.py\<close> loads eight images (lines 7--21),
  defines the classes \<open>Shot\<close> (27--44), \<open>Character\<close> (47--90),
  \<open>Player\<close> (93--125) and \<open>Enemy\<close> (128--141), the pixel-mask test
  \<open>collide\<close> (144--147), the game loop \<open>main\<close> (150--252) and the start
  menu \<open>main_menu\<close> (255--272).  A character owns a list of shots and a fire
  cooldown; \<open>move_shot\<close> moves its shots and resolves them against one target
  (an enemy's shots against the player) or, for the player, against the whole
  enemy list.  \<open>main\<close> keeps its state in local variables and runs, per frame:
  the health and resurrection check, the lost countdown, the wave spawn, the quit
  event, the keyboard, the enemy loop (move, resolve shots, random fire, body
  collision, escape at the bottom) and finally the player's shots.

  \<^medskip>\<^bold>\<open>Theories, in import order.\<close>
  \<^item> \<open>Prelude\<close>: the exceptions (\<open>exc\<close>: \<open>KeyError\<close>,
    \<open>SystemExit\<close>), \<open>remove_nth\<close> (\<open>list.remove\<close> of the element
    under a loop's cursor; the objects have no \<open>__eq__\<close>, so removal is by
    identity) and the list lemmas of the index loops (\<open>list_loop_simps\<close>).
  \<^item> \<open>Assets\<close>: the images as the datatype \<open>img\<close>; masks and sizes
    of the image files are the record \<open>assets\<close>, a parameter of every
    operation that reads a surface; \<open>WIDTH\<close>, \<open>HEIGHT\<close>.
    \<open>sample_assets\<close> is the fixture of the concrete runs.
  \<^item> \<open>Collision\<close>: the record \<open>sprite\<close> (\<open>x\<close>, \<open>y\<close>,
    \<open>mask\<close>), root of the class records, \<open>Mask.overlap\<close> as
    \<open>mask_overlap\<close>, and \<open>collide\<close> over any \<open>'a sprite_scheme\<close>.
  \<^item> \<open>Shot\<close>: \<open>Shot_init\<close>, \<open>Shot_move\<close>,
    \<open>Shot_off_screen\<close>, \<open>Shot_collision\<close>.
  \<^item> \<open>Character\<close>: the record \<open>character\<close> (extends \<open>sprite\<close>),
    \<open>Character_cooldown\<close>, \<open>Character_shoot\<close>, the getters, and
    \<open>Character_move_shot\<close>, whose loop \<open>Character_move_shot_loop\<close>
    indexes the live list exactly as CPython's list iterator does.  Methods are
    polymorphic in the record extension, which is how \<open>Player\<close> and
    \<open>Enemy\<close> inherit them.
  \<^item> \<open>Player\<close>: the record \<open>player\<close> (adds \<open>max_health\<close>),
    \<open>Player_init\<close>, \<open>Player_move_shot\<close> with its two index loops
    (\<open>Player_move_shot_loop\<close> over the shots, \<open>Player_hit_loop\<close> over the
    enemies; the flag \<open>present\<close> is the test \<open>shot in self.shots\<close>), and
    the width of the green health bar as a real number.
  \<^item> \<open>Enemy\<close>: \<open>ENEMY_MAP\<close> as a map, \<open>Enemy_init\<close> returning
    \<open>Inl (KeyError kind)\<close> for an unknown kind, \<open>Enemy_move\<close>.
  \<^item> \<open>Game\<close>: the record \<open>game_state\<close> of \<open>main\<close>'s variables,
    \<open>frame_input\<close> (keys, quit event and the random draws of one frame), and
    \<open>frame\<close> = \<open>life_check\<close>, lost gate, \<open>spawn_wave\<close>
    (\<open>spawn_enemies\<close>), quit, \<open>gameplay\<close> (\<open>handle_keys\<close>,
    \<open>enemies_loop\<close>, \<open>Player_move_shot\<close>); \<open>main_loop\<close> runs frames
    over a list of inputs while \<open>run\<close> holds; \<open>reachable\<close> is the
    inductive set of states the loop reaches from \<open>main_init\<close>.

  \<^item> \<open>Scenario\<close>: frames without player action (\<open>idle_input\<close>) and the
    specification's scenarios as runs of \<open>main_loop\<close>.  \<open>enemy_quiet\<close>
    says an enemy neither touches the player nor escapes in the next frame,
    \<open>descend n\<close> is an enemy after \<open>n\<close> such frames; the fixtures
    \<open>scenario_start\<close> (one enemy at \<open>(100, -50)\<close>), \<open>rammer\<close> and
    \<open>crossfire_state\<close> (with the sprite masks \<open>crossfire_assets\<close>) are the
    concrete states of the runs.
  \<^item> \<open>Liveness\<close>: \<open>passive_input\<close> (no key, no quit event, random draws in
    the code's ranges) and the measures \<open>lives\<close>, \<open>shot_count\<close>,
    \<open>wave_time\<close>, folded into \<open>potential\<close> and \<open>run_measure\<close>.
  \<^item> \<open>Main_Run\<close>: \<open>main_run\<close>, the loop \<open>while run\<close> without fuel, as a
    \<open>partial_function (option)\<close> over an infinite input sequence.
  \<^item> \<open>Typing\<close>: \<open>state_typed\<close>, the image and mask discipline of sprites
    and shots.
  \<^item> \<open>Render\<close>: the drawing methods and \<open>redraw_window\<close> (lines 34--35,
    59--62, 114--125, 172--192) as display lists of \<open>draw_cmd\<close>, and
    \<open>int_str\<close>, a model of Python's builtin \<open>str\<close> on integers as the
    f-string labels use it.
  \<^item> \<open>Menu\<close>: \<open>main_menu\<close> (lines 255--270): \<open>menu_draw\<close>,
    \<open>menu_events\<close> over one batch of events, \<open>main_menu_loop\<close> over the
    batches; a click runs \<open>main_run\<close> from \<open>main_init\<close>.

  \<^medskip>\<^bold>\<open>What the lemmas show.\<close>
  \<^item> The loops that remove from the list they iterate over are each proved equal
    (by computation induction) to a structural pair of functions
    (\<open>shots_pass\<close>/\<open>shots_skip\<close>, \<open>hits_pass\<close>/\<open>hits_skip\<close>,
    \<open>pshots_pass\<close>/\<open>pshots_skip\<close>) in which the element after a removed
    one is passed over.  From these: the skip itself (C1), the double kill without
    \<open>break\<close> (C2), damage and length bounds (C24), the enemy list only
    shrinks (C29) and a hit consumes the shot (C30).  The refinement (C23) relates
    \<open>Character.move_shot\<close> to \<open>shots_spec\<close>, the every-shot pass of the
    specification (section 4.2) written from its words and not from the code: they
    agree when no shot but the last is removed.
  \<^item> Game loop: termination of the lost countdown (C3), and invariants of all
    reachable states by rule induction over \<open>reachable\<close>, one preservation
    lemma per invariant: health and life bookkeeping (C4), the wave relation
    \<open>wave_length = 5 + 3 * level\<close> (C5), cooldown bounds for the player and
    every enemy (C6), the player stays within the movement guards (C7), the
    typing discipline of images and masks (C16).  Errors: with kinds drawn from
    the catalogue, as \<open>random.choice\<close> draws them, a run ends in an exception
    only by the quit event (C13).  The frame's branches: the last resurrection
    (C25), a wave spawn (C26) and its only error (C27), the frame after the
    countdown still playing (C28); the keys left and right cancel (C22).
  \<^item> Scenarios: the body collision (C8) and the escape at the bottom (C9) as
    frames, the end-to-end scenario of the specification (C10: the enemy leaves in
    frame 503; C11: the state after 800 frames), and the order of resolution in a
    frame (C12): for any state and any player shots, an enemy that reaches the
    player rams it before the shots are tested; its witness \<open>crossfire_state\<close>
    (sprites of \<open>crossfire_assets\<close>) is the frame after the player fired, in
    which the specification's order would have killed the enemy.
  \<^item> Liveness and termination: a player who does nothing loses within a bound
    given by the potential (C14); the unbounded \<open>main_run\<close> then returns
    (C15), through \<open>main_loop_main_run\<close>, which turns a fuelled run that
    stops into a run of \<open>main_run\<close>.
  \<^item> Menu and rendering: in a batch with a \<open>QUIT\<close> event the menu stops and
    has started one game per click, those after \<open>QUIT\<close> included (C17); a
    game's exception ends the menu (C18), one game per click (C19); the sprite
    blits of a frame in order, each enemy with its shots and the player with its
    shots on top (C20), the \<open>GAME OVER\<close> title exactly when lost (C21).
  \<^item> Components: the fire rate \<open>ceil (n / 30)\<close> and the cooldown bound
    (C31, C32), symmetry of \<open>collide\<close> (C33), the exact move on which a shot
    leaves the field in both directions (C34, C35), the enemy catalogue and its
    \<open>KeyError\<close> (C36, C37), and the unclamped health bar (C38).

  \<^medskip>\<^bold>\<open>Bounds and fuel.\<close>  Every loop of the code over a list is a
  \<open>function\<close> with a measure (\<open>length - index\<close>), so all are total.  The
  loop \<open>while run\<close> is modelled twice: \<open>main_loop\<close> over a finite list of
  frame inputs (the list is the fuel, one element per frame) and \<open>main_run\<close>
  without fuel, where not returning is \<open>None\<close>; \<open>main_loop_main_run\<close>
  relates them.  C3 proves
  that \<open>181 - lost_count\<close> frames suffice once the resurrections are used up:
  the countdown runs until \<open>lost_count > fps * 3 = 180\<close>.  C14's bound is
  the potential plus 183 frames: lives (\<open>101 * resurrections + max 0 health\<close>)
  times the bounds on shots in flight and on the frames a wave needs to pass the
  bottom line (1278, from the spawn height \<open>-1500\<close> and \<open>enemy_vel = 2\<close>).
  Integers are Python's unbounded \<open>int\<close>; the health bar width and the screen
  positions of texts are \<open>real\<close> because Python's \<open>/\<close> is float division.

  \<^medskip>\<^bold>\<open>Not modelled.\<close>  The pixels pygame produces from the
  display lists, fonts and their metrics (a parameter \<open>tw\<close>), window creation
  and image loading (lines 1--24), \<open>clock.tick\<close> and \<open>pygame.quit()\<close>:
  they are library I/O and change no game state.  The contents of the image files
  are not in the repository, so masks and sizes are parameters (\<open>assets\<close>).
  Randomness and the event queue are the inputs of a frame; the games started from
  the menu read their own input sequences.
\<close>

end
